(* ===== verification/Kin_Prelude.thy ===== *)
theory Kin_Prelude
  imports Main "HOL-Library.Word" "HOL-Library.List_Lexorder" "HOL-Library.Sublist"
begin

unbundle bit_operations_syntax

text \<open>
  Shared vocabulary of the development: the Go values every component uses and the generic
  lemmas about them.

  \<^item> errors: \<open>err\<close> is Go's \<open>error\<close> (a sentinel compared by \<open>errors.Is\<close>, a plain message, or a
    message that wraps another error with \<open>%w\<close>); \<open>outcome\<close> is what a call ends in: a value, an
    error or a run-time panic;
  \<^item> bytes: \<open>byte\<close> is an 8-bit word, \<open>[]byte\<close> a list of them, and \<open>[n]byte\<close> the type \<open>'n barr\<close>
    of byte lists of exactly that length, with \<open>arr_of\<close> the zeroed array after \<open>copy(a[:], xs)\<close>;
  \<^item> strings: a Go string is a sequence of bytes, here the \<open>string\<close> type of HOL, whose characters
    are 8-bit; \<open>string_bytes\<close> and \<open>bytes_string\<close> are the two conversions;
  \<^item> big-endian integers (\<open>encoding/binary\<close>), slicing with its panic, hexadecimal text;
  \<^item> byte-wise lexicographic order and prefixes: the keys that share a prefix are contiguous;
  \<^item> \<open>guarded_steps\<close>: the contract of a component that moves in steps, and what it gives along a run.
\<close>

named_theorems outcome_simps \<open>rewriting of outcomes\<close>
named_theorems bytes_simps \<open>conversions between bytes, strings and integers\<close>

section \<open>Errors and outcomes\<close>

datatype err =
    Sentinel string     \<comment> \<open>an exported error value, compared by identity\<close>
  | Message string      \<comment> \<open>\<open>errors.New\<close>, or \<open>fmt.Errorf\<close> with no \<open>%w\<close>\<close>
  | Wrap string err     \<comment> \<open>\<open>fmt.Errorf("...: %w", err)\<close>\<close>

text \<open>\<open>errors.Is(e, target)\<close> for a sentinel target.\<close>

primrec errors_is :: "err \<Rightarrow> string \<Rightarrow> bool" where
  "errors_is (Sentinel n) s \<longleftrightarrow> n = s"
| "errors_is (Message m) s \<longleftrightarrow> False"
| "errors_is (Wrap m e) s \<longleftrightarrow> errors_is e s"

datatype 'a outcome = Ok 'a | Err err | Panic

primrec obind :: "'a outcome \<Rightarrow> ('a \<Rightarrow> 'b outcome) \<Rightarrow> 'b outcome" where
  "obind (Ok x) f = f x"
| "obind (Err e) f = Err e"
| "obind Panic f = Panic"

text \<open>\<open>if err != nil { return fmt.Errorf("m: %w", err) }\<close>.\<close>

primrec owrap :: "string \<Rightarrow> 'a outcome \<Rightarrow> 'a outcome" where
  "owrap m (Ok x) = Ok x"
| "owrap m (Err e) = Err (Wrap m e)"
| "owrap m Panic = Panic"

primrec is_ok :: "'a outcome \<Rightarrow> bool" where
  "is_ok (Ok x) = True"
| "is_ok (Err e) = False"
| "is_ok Panic = False"

text \<open>\<open>return zero, err\<close>: a failed result, at the result type of the caller.\<close>

primrec fail_of :: "'a outcome \<Rightarrow> 'b outcome" where
  "fail_of (Ok x) = Panic"
| "fail_of (Err e) = Err e"
| "fail_of Panic = Panic"

lemma obind_eq_Ok [outcome_simps]: "obind m f = Ok y \<longleftrightarrow> (\<exists>x. m = Ok x \<and> f x = Ok y)"
  by (cases m) auto

lemma obind_eq_Panic [outcome_simps]:
  "obind m f = Panic \<longleftrightarrow> m = Panic \<or> (\<exists>x. m = Ok x \<and> f x = Panic)"
  by (cases m) auto

lemma owrap_eq_Ok [outcome_simps]: "owrap m r = Ok x \<longleftrightarrow> r = Ok x"
  by (cases r) auto

lemma owrap_eq_Panic [outcome_simps]: "owrap m r = Panic \<longleftrightarrow> r = Panic"
  by (cases r) auto

lemma fail_of_not_Ok [simp]: "fail_of r \<noteq> Ok x"
  by (cases r) auto

lemma is_ok_iff [outcome_simps]: "is_ok r \<longleftrightarrow> (\<exists>x. r = Ok x)"
  by (cases r) auto

section \<open>Bytes, strings and fixed-length arrays\<close>

type_synonym byte = "8 word"
type_synonym bytes = "byte list"

definition char_byte :: "char \<Rightarrow> byte" where
  "char_byte c = of_nat (of_char c)"

definition byte_char :: "byte \<Rightarrow> char" where
  "byte_char b = char_of (unat b)"

lemma byte_char_char_byte [simp]: "byte_char (char_byte c) = c"
proof -
  have "of_char c < (256 :: nat)" by simp
  then have "unat (of_nat (of_char c) :: byte) = of_char c"
    by (simp add: unat_of_nat)
  then show ?thesis by (simp add: byte_char_def char_byte_def)
qed

lemma char_byte_byte_char [simp]: "char_byte (byte_char b) = b"
proof -
  have "unat b < 256" using unsigned_less [of b, where ?'a = nat] by simp
  then show ?thesis by (simp add: byte_char_def char_byte_def)
qed

definition string_bytes :: "string \<Rightarrow> bytes" where
  "string_bytes s = map char_byte s"

definition bytes_string :: "bytes \<Rightarrow> string" where
  "bytes_string bs = map byte_char bs"

lemma bytes_string_string_bytes [simp]: "bytes_string (string_bytes s) = s"
  by (simp add: bytes_string_def string_bytes_def o_def)

lemma string_bytes_bytes_string [simp]: "string_bytes (bytes_string bs) = bs"
  by (simp add: bytes_string_def string_bytes_def o_def)

lemma length_string_bytes [simp]: "length (string_bytes s) = length s"
  by (simp add: string_bytes_def)

lemma length_bytes_string [simp]: "length (bytes_string bs) = length bs"
  by (simp add: bytes_string_def)

typedef (overloaded) ('n::len) barr = "{xs :: bytes. length xs = LENGTH('n)}"
  morphisms list_of Abs_barr
  by (rule exI [of _ "replicate LENGTH('n) 0"]) simp

type_synonym id32 = "32 barr"
type_synonym id16 = "16 barr"

lemma length_list_of [simp]: "length (list_of (a :: 'n::len barr)) = LENGTH('n)"
  using list_of [of a] by simp

text \<open>\<open>var a [n]byte; copy(a[:], xs)\<close>: at most \<open>n\<close> bytes of \<open>xs\<close>, the rest zero.\<close>

definition arr_of :: "bytes \<Rightarrow> 'n::len barr" where
  "arr_of xs = Abs_barr (take LENGTH('n) (xs @ replicate LENGTH('n) 0))"

lemma list_of_arr_of: "list_of (arr_of xs :: 'n::len barr) = take LENGTH('n) (xs @ replicate LENGTH('n) 0)"
  unfolding arr_of_def by (rule Abs_barr_inverse) simp

lemma list_of_arr_of_exact [simp]:
  "length xs = LENGTH('n) \<Longrightarrow> list_of (arr_of xs :: 'n::len barr) = xs"
  by (simp add: list_of_arr_of)

lemma arr_of_list_of [simp]: "arr_of (list_of a) = (a :: 'n::len barr)"
  by (simp add: arr_of_def list_of_inverse)

lemma list_of_eq_iff [simp]: "list_of a = list_of b \<longleftrightarrow> a = b"
  by (rule list_of_inject)

lemma arr_of_Cons_eq_iff [simp]:
  "(arr_of [x] :: 'n::len barr) = arr_of [y] \<longleftrightarrow> x = y"
proof
  assume "(arr_of [x] :: 'n barr) = arr_of [y]"
  then have "hd (list_of (arr_of [x] :: 'n barr)) = hd (list_of (arr_of [y] :: 'n barr))"
    by simp
  then show "x = y" by (simp add: list_of_arr_of)
qed simp

text \<open>Arrays are compared by \<open>==\<close> in the code and byte by byte by the database.\<close>

instantiation barr :: (len) linorder
begin

definition less_eq_barr :: "'a barr \<Rightarrow> 'a barr \<Rightarrow> bool" where
  "a \<le> b \<longleftrightarrow> list_of a \<le> list_of b"

definition less_barr :: "'a barr \<Rightarrow> 'a barr \<Rightarrow> bool" where
  "a < b \<longleftrightarrow> list_of a < list_of b"

instance
  by standard (auto simp: less_eq_barr_def less_barr_def less_le_not_le)

end

instantiation barr :: (len) equal
begin

definition equal_barr :: "'a barr \<Rightarrow> 'a barr \<Rightarrow> bool" where
  "equal_barr a b \<longleftrightarrow> list_of a = list_of b"

instance
  by standard (simp add: equal_barr_def)

end

section \<open>Slicing\<close>

text \<open>\<open>xs[a:b]\<close>: a panic unless \<open>a \<le> b \<le> len(xs)\<close>.\<close>

definition go_slice :: "'a list \<Rightarrow> nat \<Rightarrow> nat \<Rightarrow> 'a list outcome" where
  "go_slice xs a b = (if a \<le> b \<and> b \<le> length xs then Ok (take (b - a) (drop a xs)) else Panic)"

text \<open>\<open>xs[a:]\<close>.\<close>

definition go_slice_from :: "'a list \<Rightarrow> nat \<Rightarrow> 'a list outcome" where
  "go_slice_from xs a = (if a \<le> length xs then Ok (drop a xs) else Panic)"

lemma go_slice_ok [simp]:
  "a \<le> b \<Longrightarrow> b \<le> length xs \<Longrightarrow> go_slice xs a b = Ok (take (b - a) (drop a xs))"
  by (simp add: go_slice_def)

lemma go_slice_from_ok [simp]: "a \<le> length xs \<Longrightarrow> go_slice_from xs a = Ok (drop a xs)"
  by (simp add: go_slice_from_def)

section \<open>Big-endian integers\<close>

text \<open>\<open>binary.BigEndian\<close>'s \<open>Append\<close>/\<open>Put\<close> and read operations for 16, 32 and 64 bits.\<close>

definition be16 :: "16 word \<Rightarrow> bytes" where
  "be16 v = [ucast (drop_bit 8 v), ucast v]"

definition be32 :: "32 word \<Rightarrow> bytes" where
  "be32 v = [ucast (drop_bit 24 v), ucast (drop_bit 16 v), ucast (drop_bit 8 v), ucast v]"

definition be64 :: "64 word \<Rightarrow> bytes" where
  "be64 v = [ucast (drop_bit 56 v), ucast (drop_bit 48 v), ucast (drop_bit 40 v),
     ucast (drop_bit 32 v), ucast (drop_bit 24 v), ucast (drop_bit 16 v), ucast (drop_bit 8 v), ucast v]"

definition un16 :: "bytes \<Rightarrow> 16 word" where
  "un16 bs = ucast (bs ! 1) OR push_bit 8 (ucast (bs ! 0))"

definition un32 :: "bytes \<Rightarrow> 32 word" where
  "un32 bs = ucast (bs ! 3) OR push_bit 8 (ucast (bs ! 2)) OR push_bit 16 (ucast (bs ! 1))
     OR push_bit 24 (ucast (bs ! 0))"

definition un64 :: "bytes \<Rightarrow> 64 word" where
  "un64 bs = ucast (bs ! 7) OR push_bit 8 (ucast (bs ! 6)) OR push_bit 16 (ucast (bs ! 5))
     OR push_bit 24 (ucast (bs ! 4)) OR push_bit 32 (ucast (bs ! 3))
     OR push_bit 40 (ucast (bs ! 2)) OR push_bit 48 (ucast (bs ! 1)) OR push_bit 56 (ucast (bs ! 0))"

lemma length_be [simp]: "length (be16 v) = 2" "length (be32 w) = 4" "length (be64 x) = 8"
  by (simp_all add: be16_def be32_def be64_def)

lemma un16_be16 [simp]: "un16 (be16 v) = v"
proof (rule bit_word_eqI)
  fix n assume "n < LENGTH(16)"
  then consider "0 \<le> n \<and> n < 8" | "8 \<le> n \<and> n < 16"
    by fastforce
  then show "bit (un16 (be16 v)) n = bit v n"
    by cases (simp_all add: un16_def be16_def bit_simps less_diff_conv2)
qed

lemma un32_be32 [simp]: "un32 (be32 v) = v"
proof (rule bit_word_eqI)
  fix n assume "n < LENGTH(32)"
  then consider "0 \<le> n \<and> n < 8" | "8 \<le> n \<and> n < 16" | "16 \<le> n \<and> n < 24" | "24 \<le> n \<and> n < 32"
    by fastforce
  then show "bit (un32 (be32 v)) n = bit v n"
    by cases (simp_all add: un32_def be32_def bit_simps less_diff_conv2)
qed

lemma un64_be64 [simp]: "un64 (be64 v) = v"
proof (rule bit_word_eqI)
  fix n assume "n < LENGTH(64)"
  then consider "0 \<le> n \<and> n < 8" | "8 \<le> n \<and> n < 16" | "16 \<le> n \<and> n < 24" | "24 \<le> n \<and> n < 32" | "32 \<le> n \<and> n < 40" | "40 \<le> n \<and> n < 48" | "48 \<le> n \<and> n < 56" | "56 \<le> n \<and> n < 64"
    by fastforce
  then show "bit (un64 (be64 v)) n = bit v n"
    by cases (simp_all add: un64_def be64_def bit_simps less_diff_conv2)
qed

section \<open>Byte order and prefixes\<close>

text \<open>
  \<open>bytes.Compare\<close> is the order of \<open>List_Lexorder\<close>; \<open>bytes.HasPrefix(k, p)\<close> is \<open>prefix p k\<close>.
  In a sorted sequence of keys those with a common prefix are contiguous and start at the first
  key that is not smaller than the prefix.
\<close>

lemma prefix_imp_le: "prefix p k \<Longrightarrow> (p :: 'a::linorder list) \<le> k"
proof (induction p arbitrary: k)
  case Nil
  then show ?case by simp
next
  case (Cons a p)
  then obtain k' where "k = a # k'" "prefix p k'" by (auto elim: prefixE)
  with Cons.IH show ?case by auto
qed

lemma prefix_block_end:
  "(p :: 'a::linorder list) \<le> k \<Longrightarrow> \<not> prefix p k \<Longrightarrow> k < k' \<Longrightarrow> \<not> prefix p k'"
proof (induction p arbitrary: k k')
  case Nil
  then show ?case by simp
next
  case (Cons a p)
  from Cons.prems(1) obtain b k1 where k: "k = b # k1" by (cases k) auto
  show ?case
  proof (cases k')
    case Nil
    then show ?thesis by simp
  next
    case (Cons c k2)
    with Cons.prems k Cons.IH [of k1 k2] show ?thesis by auto
  qed
qed

lemma takeWhile_prefix_block:
  fixes xs :: "('a::linorder list \<times> 'b) list"
  assumes "sorted_wrt (<) (map fst xs)" and "\<forall>x \<in> set xs. p \<le> fst x"
  shows "takeWhile (\<lambda>x. prefix p (fst x)) xs = filter (\<lambda>x. prefix p (fst x)) xs"
  using assms
proof (induction xs)
  case Nil
  then show ?case by simp
next
  case (Cons x xs)
  show ?case
  proof (cases "prefix p (fst x)")
    case True
    with Cons show ?thesis by simp
  next
    case False
    with Cons.prems have "\<forall>y \<in> set xs. \<not> prefix p (fst y)"
      using prefix_block_end [of p "fst x"] by auto
    with False show ?thesis by (simp add: filter_False)
  qed
qed

lemma dropWhile_less_sorted:
  fixes xs :: "('a::linorder \<times> 'b) list"
  assumes "sorted_wrt (<) (map fst xs)"
  shows "dropWhile (\<lambda>x. fst x < p) xs = filter (\<lambda>x. p \<le> fst x) xs"
  using assms
proof (induction xs)
  case (Cons x xs)
  show ?case
  proof (cases "fst x < p")
    case True
    with Cons show ?thesis by simp
  next
    case False
    with Cons.prems have "\<forall>y \<in> set xs. p \<le> fst y" by auto
    with False show ?thesis by (simp add: filter_True)
  qed
qed simp

lemma prefix_scan:
  fixes xs :: "('a::linorder list \<times> 'b) list"
  assumes "sorted_wrt (<) (map fst xs)"
  shows "takeWhile (\<lambda>x. prefix p (fst x)) (dropWhile (\<lambda>x. fst x < p) xs)
    = filter (\<lambda>x. prefix p (fst x)) xs"
proof -
  let ?ys = "filter (\<lambda>x. p \<le> fst x) xs"
  have "sorted_wrt (<) (map fst ?ys)"
    using assms by (simp add: sorted_wrt_map sorted_wrt_filter)
  then have "takeWhile (\<lambda>x. prefix p (fst x)) ?ys = filter (\<lambda>x. prefix p (fst x)) ?ys"
    by (rule takeWhile_prefix_block) simp
  also have "\<dots> = filter (\<lambda>x. prefix p (fst x)) xs"
    by (auto simp: filter_filter intro!: filter_cong dest: prefix_imp_le)
  finally show ?thesis by (simp add: dropWhile_less_sorted [OF assms])
qed

lemma sorted_wrt_less_distinct: "sorted_wrt (<) (xs :: 'a::linorder list) \<Longrightarrow> distinct xs"
  by (induction xs) auto

section \<open>Hexadecimal text\<close>

definition hex_digit :: "nat \<Rightarrow> char" where
  "hex_digit n = ''0123456789abcdef'' ! n"

definition hex_encode :: "bytes \<Rightarrow> string" where
  "hex_encode bs = concat (map (\<lambda>b. [hex_digit (unat b div 16), hex_digit (unat b mod 16)]) bs)"

lemma length_hex_encode [simp]: "length (hex_encode bs) = 2 * length bs"
  by (induction bs) (simp_all add: hex_encode_def)

lemma hex_digit_inj: "i < 16 \<Longrightarrow> j < 16 \<Longrightarrow> hex_digit i = hex_digit j \<longleftrightarrow> i = j"
  unfolding hex_digit_def by (subst nth_eq_iff_index_eq) simp_all

lemma hex_digit_in: "n < 16 \<Longrightarrow> hex_digit n \<in> set ''0123456789abcdef''"
  unfolding hex_digit_def by (rule nth_mem) simp

lemma set_hex_encode: "set (hex_encode bs) \<subseteq> set ''0123456789abcdef''"
proof -
  have "unat b div 16 < 16" for b :: byte using unsigned_less [of b, where ?'a = nat] by simp
  then show ?thesis
    unfolding hex_encode_def by (induction bs) (use hex_digit_in in \<open>auto simp del: insert_iff\<close>)
qed

lemma hex_encode_inj: "hex_encode xs = hex_encode ys \<longleftrightarrow> xs = ys"
proof
  assume "hex_encode xs = hex_encode ys"
  then show "xs = ys"
  proof (induction xs arbitrary: ys)
    case Nil
    then show ?case by (cases ys) (simp_all add: hex_encode_def)
  next
    case (Cons x xs)
    then obtain y ys' where ys: "ys = y # ys'" by (cases ys) (simp_all add: hex_encode_def)
    have b: "unat b div 16 < 16" "unat b mod 16 < 16" for b :: byte
      using unsigned_less [of b, where ?'a = nat] by auto
    from Cons.prems ys have "unat x div 16 = unat y div 16" "unat x mod 16 = unat y mod 16"
      and tl: "hex_encode xs = hex_encode ys'"
      by (auto simp: hex_encode_def hex_digit_inj b)
    then have "unat x = unat y" by (metis div_mult_mod_eq)
    then have "x = y" by (rule unsigned_word_eqI)
    with tl Cons.IH ys show ?case by simp
  qed
qed simp

section \<open>UTF-8\<close>

text \<open>
  The length of the well-formed UTF-8 sequence at the head of a byte string, 0 if there is none
  (\<open>utf8.DecodeRune\<close>), and the coercion \<open>encoding/json\<close> applies to every string it writes: each
  byte that starts no such sequence becomes U+FFFD.
\<close>

definition utf8_cont :: "byte \<Rightarrow> bool" where
  "utf8_cont b \<longleftrightarrow> 0x80 \<le> b \<and> b \<le> 0xBF"

definition utf8_second :: "byte \<Rightarrow> byte \<Rightarrow> bool" where
  "utf8_second a b \<longleftrightarrow>
     (if a = 0xE0 then 0xA0 \<le> b \<and> b \<le> 0xBF
      else if a = 0xED then 0x80 \<le> b \<and> b \<le> 0x9F
      else if a = 0xF0 then 0x90 \<le> b \<and> b \<le> 0xBF
      else if a = 0xF4 then 0x80 \<le> b \<and> b \<le> 0x8F
      else utf8_cont b)"

definition rune_need :: "byte \<Rightarrow> nat" where
  "rune_need a =
     (if a < 0x80 then 1
      else if 0xC2 \<le> a \<and> a \<le> 0xDF then 2
      else if 0xE0 \<le> a \<and> a \<le> 0xEF then 3
      else if 0xF0 \<le> a \<and> a \<le> 0xF4 then 4
      else 0)"

fun rune_len :: "bytes \<Rightarrow> nat" where
  "rune_len [] = 0"
| "rune_len (a # r) =
     (let n = rune_need a
      in if n \<le> Suc (length r) \<and> (2 \<le> n \<longrightarrow> utf8_second a (hd r)) \<and>
           list_all utf8_cont (take (n - 2) (tl r)) then n else 0)"

function utf8_coerce :: "bytes \<Rightarrow> bytes" where
  "utf8_coerce bs =
     (if bs = [] then []
      else if rune_len bs = 0 then [0xEF, 0xBF, 0xBD] @ utf8_coerce (tl bs)
      else take (rune_len bs) bs @ utf8_coerce (drop (rune_len bs) bs))"
  by pat_completeness auto
termination
  by (relation "measure length") (auto simp: Suc_le_eq)

declare utf8_coerce.simps [simp del]

lemma rune_len_le: "rune_len bs \<le> length bs"
  by (cases bs) (simp_all add: Let_def)

lemma rune_len_take:
  assumes "rune_len bs \<noteq> 0"
  shows "rune_len (take (rune_len bs) bs @ xs) = rune_len bs"
proof -
  from assms obtain a r where bs: "bs = a # r" by (cases bs) auto
  let ?n = "rune_need a"
  from assms bs have n: "rune_len bs = ?n" "?n \<le> Suc (length r)" "2 \<le> ?n \<longrightarrow> utf8_second a (hd r)"
    "list_all utf8_cont (take (?n - 2) (tl r))" "?n \<noteq> 0"
    by (auto simp: Let_def split: if_splits)
  have r: "take ?n bs @ xs = a # (take (?n - 1) r @ xs)"
    using n(5) by (cases ?n) (simp_all add: bs)
  have "2 \<le> ?n \<Longrightarrow> hd (take (?n - 1) r @ xs) = hd r"
    using n(2) by (cases r) auto
  moreover have "take (?n - 2) (tl (take (?n - 1) r @ xs)) = take (?n - 2) (tl r)"
  proof (cases "2 \<le> ?n")
    case True
    with n(2) obtain b r' where "r = b # r'" by (cases r) auto
    with True n(2) show ?thesis by (cases "?n - 1") (auto simp: take_append)
  qed simp
  ultimately show ?thesis
    using n by (simp add: r Let_def)
qed

lemma utf8_coerce_append:
  assumes "rune_len bs \<noteq> 0"
  shows "utf8_coerce (take (rune_len bs) bs @ xs) = take (rune_len bs) bs @ utf8_coerce xs"
proof -
  let ?n = "rune_len bs" and ?bs = "take (rune_len bs) bs @ xs"
  have "?bs \<noteq> []" using assms by (cases bs) auto
  moreover have "take ?n ?bs = take ?n bs" "drop ?n ?bs = xs"
    using rune_len_le [of bs] by simp_all
  ultimately show ?thesis
    using assms rune_len_take [OF assms, of xs]
    by (subst utf8_coerce.simps [of ?bs]) (simp only: if_False)
qed

lemma utf8_coerce_replacement:
  "utf8_coerce ([0xEF, 0xBF, 0xBD] @ xs) = [0xEF, 0xBF, 0xBD] @ utf8_coerce xs"
proof -
  have "rune_len [0xEF, 0xBF, 0xBD] = 3" by (simp add: rune_need_def utf8_second_def utf8_cont_def)
  then show ?thesis using utf8_coerce_append [of "[0xEF, 0xBF, 0xBD]" xs] by (simp only: zero_neq_numeral) simp
qed

lemma utf8_coerce_idem: "utf8_coerce (utf8_coerce bs) = utf8_coerce bs"
proof (induction bs rule: utf8_coerce.induct)
  case (1 bs)
  consider "bs = []" | "bs \<noteq> []" "rune_len bs = 0" | "bs \<noteq> []" "rune_len bs \<noteq> 0" by blast
  then show ?case
  proof cases
    case 1
    then show ?thesis by (simp add: utf8_coerce.simps)
  next
    case 2
    then have "utf8_coerce bs = [0xEF, 0xBF, 0xBD] @ utf8_coerce (tl bs)"
      by (simp add: utf8_coerce.simps [of bs])
    moreover have "utf8_coerce (utf8_coerce (tl bs)) = utf8_coerce (tl bs)"
      using "1.IH"(1) 2 by simp
    ultimately show ?thesis by (simp only: utf8_coerce_replacement)
  next
    case 3
    then show ?thesis
      using "1.IH"(2) by (simp add: utf8_coerce.simps [of bs] utf8_coerce_append)
  qed
qed

lemma utf8_coerce_ascii: "\<forall>b \<in> set bs. b < 0x80 \<Longrightarrow> utf8_coerce bs = bs"
proof (induction bs)
  case Nil
  then show ?case by (simp add: utf8_coerce.simps)
next
  case (Cons b bs)
  then have "rune_len (b # bs) = 1" by (simp add: rune_need_def)
  with Cons show ?case by (simp add: utf8_coerce.simps [of "b # bs"])
qed

definition to_utf8 :: "string \<Rightarrow> string" where
  "to_utf8 s = bytes_string (utf8_coerce (string_bytes s))"

lemma to_utf8_idem [simp]: "to_utf8 (to_utf8 s) = to_utf8 s"
  by (simp add: to_utf8_def utf8_coerce_idem)

lemma to_utf8_ascii:
  assumes "\<forall>c \<in> set s. char_byte c < 0x80"
  shows "to_utf8 s = s"
proof -
  have "utf8_coerce (string_bytes s) = string_bytes s"
    by (rule utf8_coerce_ascii) (use assms in \<open>simp add: string_bytes_def\<close>)
  then show ?thesis by (simp add: to_utf8_def)
qed

section \<open>Time\<close>

text \<open>
  A \<open>time.Time\<close> in UTC is its instant: nanoseconds since the Unix epoch. \<open>unix\<close> is \<open>t.Unix()\<close>
  (seconds, rounded down) as the 64-bit integer it is, \<open>from_unix\<close> is \<open>time.Unix(s, 0)\<close>.
\<close>

type_synonym gotime = int

abbreviation second :: gotime where
  "second \<equiv> 1000000000"

text \<open>The zero \<open>time.Time\<close>, midnight of January 1 in the year 1.\<close>

abbreviation zero_time :: gotime where
  "zero_time \<equiv> - 62135596800 * second"

definition unix :: "gotime \<Rightarrow> 64 word" where
  "unix t = word_of_int (t div second)"

definition from_unix :: "64 word \<Rightarrow> gotime" where
  "from_unix s = sint s * second"

lemma unix_from_unix [simp]: "unix (from_unix s) = s"
  by (simp add: unix_def from_unix_def)

lemma from_unix_unix:
  assumes "- (2 ^ 63) \<le> t div second" and "t div second < 2 ^ 63"
  shows "from_unix (unix t) = t div second * second"
  using assms by (simp add: from_unix_def unix_def signed_of_int signed_take_bit_int_eq_self)

section \<open>Lists and maps\<close>

lemma map_of_filter_key: "map_of (filter (\<lambda>x. P (fst x)) xs) k = (if P k then map_of xs k else None)"
  by (induction xs) auto

section \<open>Decimal text\<close>

fun dec_nat :: "nat \<Rightarrow> string" where
  "dec_nat n = (if n < 10 then [''0123456789'' ! n] else dec_nat (n div 10) @ [''0123456789'' ! (n mod 10)])"

declare dec_nat.simps [simp del]

definition dec_int :: "int \<Rightarrow> string" where
  "dec_int i = (if i < 0 then ''-'' @ dec_nat (nat (- i)) else dec_nat (nat i))"

section \<open>Invariants along steps\<close>

text \<open>
  The contract of a component that moves in steps: each step keeps an invariant and, from a state with the
  invariant, stays within a relation between earlier and later states. Both then hold along every sequence of steps.
\<close>

locale guarded_steps =
  fixes step :: "'s \<Rightarrow> 's \<Rightarrow> bool" and inv :: "'s \<Rightarrow> bool" and rel :: "'s \<Rightarrow> 's \<Rightarrow> bool"
  assumes step_inv: "step s s' \<Longrightarrow> inv s \<Longrightarrow> inv s'"
    and step_rel: "step s s' \<Longrightarrow> inv s \<Longrightarrow> rel s s'"
    and rel_refl: "rel s s"
    and rel_trans: "rel s s' \<Longrightarrow> rel s' s'' \<Longrightarrow> rel s s''"
begin

lemma steps_keep: "step\<^sup>*\<^sup>* s s' \<Longrightarrow> inv s \<Longrightarrow> inv s' \<and> rel s s'"
  by (induction rule: rtranclp_induct) (auto intro: step_inv step_rel rel_refl rel_trans)

lemmas steps_inv = steps_keep [THEN conjunct1] and steps_rel = steps_keep [THEN conjunct2]

end

end
