(* ===== verification/Go_Json.thy ===== *)
theory Go_Json
  imports Kin_Prelude
begin

text \<open>
  The part of \<open>encoding/json\<close> the stores rely on, at the level of JSON values: what a struct
  field is written as and what it is read back as. The text of a value (quoting, white space) is
  not modelled: stored bytes are either the text of a JSON value or bytes that are no JSON text.
  Three leaves name the shape of a string: \<open>JStr\<close> is any string, \<open>JTime\<close> the RFC 3339 text of an
  instant, \<open>JB64\<close> the base64 text of a byte slice.
\<close>

datatype json =
    JNull
  | JBool bool
  | JNum int
  | JStr string
  | JTime gotime
  | JB64 bytes
  | JArr "json list"
  | JObj "(string \<times> json) list"

text \<open>Bytes as a bucket holds them.\<close>

datatype raw = Json json | Text bytes

section \<open>Writing\<close>

definition enc_str :: "string \<Rightarrow> json" where
  "enc_str s = JStr (to_utf8 s)"

definition enc_arr :: "'n::len barr \<Rightarrow> json" where
  "enc_arr a = JArr (map (\<lambda>b. JNum (uint b)) (list_of a))"

definition enc_int64 :: "64 word \<Rightarrow> json" where
  "enc_int64 w = JNum (sint w)"

text \<open>\<open>Time.MarshalJSON\<close> fails when the year is outside 0..9999.\<close>

definition time_min :: gotime where
  "time_min = - 62167219200 * second"

definition time_max :: gotime where
  "time_max = 253402300800 * second"

definition json_time_ok :: "gotime \<Rightarrow> bool" where
  "json_time_ok t \<longleftrightarrow> time_min \<le> t \<and> t < time_max"

text \<open>\<open>omitempty\<close>: the field is left out when it holds its zero value.\<close>

definition omitempty :: "bool \<Rightarrow> string \<times> json \<Rightarrow> (string \<times> json) list" where
  "omitempty zero f = (if zero then [] else [f])"

section \<open>Reading\<close>

text \<open>
  A missing key and \<open>null\<close> both leave the field at its zero value; a value of the wrong kind is an
  error (\<open>None\<close>). Of several equal keys the last counts. A JSON array read into \<open>[n]byte\<close> drops
  what is beyond \<open>n\<close> and zero-fills what is missing.
\<close>

fun jfield :: "(string \<times> json) list \<Rightarrow> string \<Rightarrow> json" where
  "jfield [] k = JNull"
| "jfield ((k', v) # fs) k = (if k' = k \<and> k \<notin> fst ` set fs then v else jfield fs k)"

fun dec_str :: "json \<Rightarrow> string option" where
  "dec_str JNull = Some ''''"
| "dec_str (JStr s) = Some s"
| "dec_str _ = None"

fun dec_bool :: "json \<Rightarrow> bool option" where
  "dec_bool JNull = Some False"
| "dec_bool (JBool b) = Some b"
| "dec_bool _ = None"

fun dec_int64 :: "json \<Rightarrow> 64 word option" where
  "dec_int64 JNull = Some 0"
| "dec_int64 (JNum i) = (if - (2 ^ 63) \<le> i \<and> i < 2 ^ 63 then Some (word_of_int i) else None)"
| "dec_int64 _ = None"

fun dec_time :: "json \<Rightarrow> gotime option" where
  "dec_time JNull = Some zero_time"
| "dec_time (JTime t) = Some t"
| "dec_time _ = None"

fun dec_bytes :: "json \<Rightarrow> bytes option" where
  "dec_bytes JNull = Some []"
| "dec_bytes (JB64 bs) = Some bs"
| "dec_bytes _ = None"

fun dec_byte :: "json \<Rightarrow> byte option" where
  "dec_byte JNull = Some 0"
| "dec_byte (JNum i) = (if 0 \<le> i \<and> i < 256 then Some (word_of_int i) else None)"
| "dec_byte _ = None"

text \<open>All elements must decode.\<close>

fun dec_all :: "('a \<Rightarrow> 'b option) \<Rightarrow> 'a list \<Rightarrow> 'b list option" where
  "dec_all f [] = Some []"
| "dec_all f (x # xs) =
     (case f x of None \<Rightarrow> None | Some y \<Rightarrow> map_option (Cons y) (dec_all f xs))"

fun dec_arr :: "json \<Rightarrow> 'n::len barr option" where
  "dec_arr JNull = Some (arr_of [])"
| "dec_arr (JArr js) = map_option arr_of (dec_all dec_byte (take LENGTH('n) js))"
| "dec_arr _ = None"

fun dec_list :: "(json \<Rightarrow> 'a option) \<Rightarrow> json \<Rightarrow> 'a list option" where
  "dec_list f JNull = Some []"
| "dec_list f (JArr js) = dec_all f js"
| "dec_list f _ = None"

section \<open>Round trips of the leaves\<close>

lemma dec_all_map: "(\<And>x. x \<in> set xs \<Longrightarrow> f (g x) = Some (h x)) \<Longrightarrow> dec_all f (map g xs) = Some (map h xs)"
  by (induction xs) auto

lemma dec_str_enc_str [simp]: "dec_str (enc_str s) = Some (to_utf8 s)"
  by (simp add: enc_str_def)

lemma dec_int64_enc_int64 [simp]: "dec_int64 (enc_int64 w) = Some w"
  using sint_ge [of w] sint_lt [of w] by (simp add: enc_int64_def)

lemma dec_byte_uint [simp]: "dec_byte (JNum (uint b)) = Some b"
  using unsigned_less [of b, where ?'a = int] by simp

lemma dec_arr_enc_arr [simp]: "dec_arr (enc_arr a) = Some (a :: 'n::len barr)"
proof -
  have "dec_all dec_byte (map (\<lambda>b. JNum (uint b)) (list_of a)) = Some (map (\<lambda>b. b) (list_of a))"
    by (rule dec_all_map) (rule dec_byte_uint)
  then show ?thesis by (simp add: enc_arr_def del: map_map)
qed

lemma to_utf8_Nil [simp]: "to_utf8 '''' = ''''"
  by (simp add: to_utf8_ascii)

end
