(* ===== verification/Bolt_Bucket.thy ===== *)
theory Bolt_Bucket
  imports Go_Json
begin

text \<open>
  The database library (\<open>go.etcd.io/bbolt\<close>) as the two stores use it. It is code outside the
  repository, so it is a parameter: a record of the bucket operations, over an unspecified type
  \<open>'b\<close> of bucket contents. Both stores keep two buckets in one file, so a database is a pair.

  \<^item> \<open>bkt_get\<close>, \<open>bkt_put\<close>, \<open>bkt_delete\<close>: \<open>Bucket.Get/Put/Delete\<close> (\<open>None\<close> is an error of the library);
  \<^item> \<open>bkt_seek b p\<close>: the pairs a cursor yields from \<open>Seek(p)\<close> on by repeated \<open>Next\<close>;
  \<^item> \<open>bkt_items\<close>: the pairs \<open>Bucket.ForEach\<close> visits;
  \<^item> \<open>bkt_new\<close>: the bucket \<open>CreateBucketIfNotExists\<close> makes where there is none;
  \<^item> \<open>bkt_commit\<close>: whether committing this new content succeeds.

  The locale \<open>bolt_laws\<close> states what the documentation of the library promises: keys are kept in
  byte order, a write is read back, keys of 1 to 32768 bytes are accepted. \<open>ref_bolt\<close> is a bucket
  that satisfies the laws: a log of writes, read by replaying it into a sorted list.
\<close>

record 'b bolt =
  bkt_get :: "'b \<Rightarrow> bytes \<Rightarrow> raw option"
  bkt_put :: "'b \<Rightarrow> bytes \<Rightarrow> raw \<Rightarrow> 'b option"
  bkt_delete :: "'b \<Rightarrow> bytes \<Rightarrow> 'b option"
  bkt_seek :: "'b \<Rightarrow> bytes \<Rightarrow> (bytes \<times> raw) list"
  bkt_items :: "'b \<Rightarrow> (bytes \<times> raw) list"
  bkt_new :: 'b
  bkt_commit :: "'b \<times> 'b \<Rightarrow> bool"

abbreviation bolt_error :: err where
  "bolt_error \<equiv> Sentinel ''bolt''"

definition key_ok :: "bytes \<Rightarrow> bool" where
  "key_ok k \<longleftrightarrow> k \<noteq> [] \<and> length k \<le> 32768"

text \<open>
  \<open>db.Update(fn)\<close>: the new content is committed when \<open>fn\<close> returns nil and rolled back when it
  returns an error (or panics). \<open>db.View(fn)\<close> runs on the current content.
\<close>

definition db_update :: "'b bolt \<Rightarrow> ('b \<times> 'b \<Rightarrow> ('b \<times> 'b) outcome) \<Rightarrow> 'b \<times> 'b \<Rightarrow> unit outcome \<times> ('b \<times> 'b)" where
  "db_update B fn db =
     (case fn db of
        Ok db' \<Rightarrow> if bkt_commit B db' then (Ok (), db') else (Err bolt_error, db)
      | Err e \<Rightarrow> (Err e, db)
      | Panic \<Rightarrow> (Panic, db))"

text \<open>
  The initial transaction of both stores, on the buckets found in the file (\<open>None\<close> where there is
  no such bucket): \<open>CreateBucketIfNotExists\<close> for one and the other.
\<close>

definition create_buckets :: "'b bolt \<Rightarrow> 'b option \<times> 'b option \<Rightarrow> ('b \<times> 'b) outcome" where
  "create_buckets B found =
     (let bucket = (\<lambda>x. case x of None \<Rightarrow> bkt_new B | Some b \<Rightarrow> b);
          db = (bucket (fst found), bucket (snd found))
      in if bkt_commit B db then Ok db else Err bolt_error)"

definition b_put :: "'b bolt \<Rightarrow> 'b \<Rightarrow> bytes \<Rightarrow> raw \<Rightarrow> 'b outcome" where
  "b_put B b k v = (case bkt_put B b k v of Some b' \<Rightarrow> Ok b' | None \<Rightarrow> Err bolt_error)"

definition b_delete :: "'b bolt \<Rightarrow> 'b \<Rightarrow> bytes \<Rightarrow> 'b outcome" where
  "b_delete B b k = (case bkt_delete B b k of Some b' \<Rightarrow> Ok b' | None \<Rightarrow> Err bolt_error)"

text \<open>The loop \<open>for k, v := c.Seek(p); k != nil && bytes.HasPrefix(k, p); k, v = c.Next()\<close>.\<close>

definition cursor_prefix :: "'b bolt \<Rightarrow> 'b \<Rightarrow> bytes \<Rightarrow> (bytes \<times> raw) list" where
  "cursor_prefix B b p = takeWhile (\<lambda>kv. prefix p (fst kv)) (bkt_seek B b p)"

lemma db_update_not_ok: "fst (db_update B fn db) \<noteq> Ok () \<Longrightarrow> snd (db_update B fn db) = db"
  by (auto simp: db_update_def split: outcome.splits if_splits)

lemma db_update_ok:
  "fst (db_update B fn db) = Ok () \<longleftrightarrow> (\<exists>db'. fn db = Ok db' \<and> bkt_commit B db')"
  by (simp add: db_update_def split: outcome.splits)

lemma db_update_state:
  "fn db = Ok db' \<Longrightarrow> bkt_commit B db' \<Longrightarrow> db_update B fn db = (Ok (), db')"
  by (simp add: db_update_def)

section \<open>What the library promises\<close>

locale bolt_laws =
  fixes B :: "'b bolt"
  assumes items_sorted: "sorted_wrt (<) (map fst (bkt_items B b))"
    and get_items: "bkt_get B b k = map_of (bkt_items B b) k"
    and put_law: "key_ok k \<Longrightarrow> \<exists>b'. bkt_put B b k v = Some b' \<and> bkt_get B b' = (bkt_get B b)(k \<mapsto> v)"
    and delete_law: "\<exists>b'. bkt_delete B b k = Some b' \<and> bkt_get B b' = (bkt_get B b)(k := None)"
    and new_law: "bkt_items B (bkt_new B) = []"
    and seek_law: "bkt_seek B b p = dropWhile (\<lambda>kv. fst kv < p) (bkt_items B b)"
begin

lemma items_distinct: "distinct (map fst (bkt_items B b))"
  by (rule sorted_wrt_less_distinct [OF items_sorted])

lemma in_items_iff: "(k, v) \<in> set (bkt_items B b) \<longleftrightarrow> bkt_get B b k = Some v"
  by (simp add: get_items items_distinct)

lemma put_ok:
  assumes "key_ok k"
  obtains b' where "b_put B b k v = Ok b'" and "bkt_get B b' = (bkt_get B b)(k \<mapsto> v)"
  using put_law [OF assms, of b v] by (auto simp: b_put_def)

lemma put_get: "key_ok k \<Longrightarrow> b_put B b k v = Ok b' \<Longrightarrow> bkt_get B b' = (bkt_get B b)(k \<mapsto> v)"
  using put_ok [of k b v] by (metis outcome.inject(1))

lemma delete_ok:
  obtains b' where "b_delete B b k = Ok b'" and "bkt_get B b' = (bkt_get B b)(k := None)"
  using delete_law [of b k] by (auto simp: b_delete_def)

lemma delete_get: "b_delete B b k = Ok b' \<Longrightarrow> bkt_get B b' = (bkt_get B b)(k := None)"
  using delete_ok [of b k] by (metis outcome.inject(1))

text \<open>A prefix scan visits exactly the pairs whose key has the prefix, in key order.\<close>

lemma cursor_prefix_filter:
  "cursor_prefix B b p = filter (\<lambda>kv. prefix p (fst kv)) (bkt_items B b)"
  unfolding cursor_prefix_def seek_law by (rule prefix_scan [OF items_sorted])

lemma in_cursor_prefix_iff:
  "(k, v) \<in> set (cursor_prefix B b p) \<longleftrightarrow> prefix p k \<and> bkt_get B b k = Some v"
  by (auto simp: cursor_prefix_filter in_items_iff)

end

section \<open>A bucket that satisfies the laws\<close>

fun sl_put :: "bytes \<Rightarrow> raw \<Rightarrow> (bytes \<times> raw) list \<Rightarrow> (bytes \<times> raw) list" where
  "sl_put k v [] = [(k, v)]"
| "sl_put k v ((k', v') # xs) =
     (if k < k' then (k, v) # (k', v') # xs
      else if k = k' then (k, v) # xs
      else (k', v') # sl_put k v xs)"

type_synonym ref_bucket = "(bytes \<times> raw option) list"

primrec ref_items :: "ref_bucket \<Rightarrow> (bytes \<times> raw) list" where
  "ref_items [] = []"
| "ref_items (w # ws) =
     (case snd w of
        Some v \<Rightarrow> sl_put (fst w) v (ref_items ws)
      | None \<Rightarrow> filter (\<lambda>kv. fst kv \<noteq> fst w) (ref_items ws))"

definition ref_bolt :: "ref_bucket bolt" where
  "ref_bolt = \<lparr>
     bkt_get = (\<lambda>b k. map_of (ref_items b) k),
     bkt_put = (\<lambda>b k v. if key_ok k then Some ((k, Some v) # b) else None),
     bkt_delete = (\<lambda>b k. Some ((k, None) # b)),
     bkt_seek = (\<lambda>b p. dropWhile (\<lambda>kv. fst kv < p) (ref_items b)),
     bkt_items = ref_items,
     bkt_new = [],
     bkt_commit = (\<lambda>_. True)\<rparr>"

lemma ref_bolt_sel [simp]:
  "bkt_get ref_bolt b k = map_of (ref_items b) k"
  "bkt_put ref_bolt b k v = (if key_ok k then Some ((k, Some v) # b) else None)"
  "bkt_delete ref_bolt b k = Some ((k, None) # b)"
  "bkt_seek ref_bolt b p = dropWhile (\<lambda>kv. fst kv < p) (ref_items b)"
  "bkt_items ref_bolt b = ref_items b"
  "bkt_new ref_bolt = []"
  "bkt_commit ref_bolt db"
  by (simp_all add: ref_bolt_def)

lemma set_sl_put: "fst ` set (sl_put k v xs) = insert k (fst ` set xs)"
  by (induction k v xs rule: sl_put.induct) auto

lemma sl_put_sorted: "sorted_wrt (<) (map fst xs) \<Longrightarrow> sorted_wrt (<) (map fst (sl_put k v xs))"
proof (induction k v xs rule: sl_put.induct)
  case (2 k v k' v' xs)
  have "\<forall>x \<in> fst ` set (sl_put k v xs). k' < x" if "\<not> k < k'" "k \<noteq> k'"
    using that 2 by (auto simp: set_sl_put)
  with 2 show ?case by (auto dest: less_trans)
qed simp

lemma map_of_sl_put: "map_of (sl_put k v xs) = (map_of xs)(k \<mapsto> v)"
  by (induction k v xs rule: sl_put.induct) auto

lemma ref_items_sorted: "sorted_wrt (<) (map fst (ref_items b))"
proof (induction b)
  case (Cons w ws)
  then show ?case
  proof (cases "snd w")
    case None
    with Cons show ?thesis by (simp add: sorted_wrt_map sorted_wrt_filter)
  next
    case (Some v)
    with Cons show ?thesis by (simp add: sl_put_sorted)
  qed
qed simp

interpretation ref: bolt_laws ref_bolt
proof
  fix b k v p
  show "sorted_wrt (<) (map fst (bkt_items ref_bolt b))"
    by (simp add: ref_items_sorted)
  show "\<exists>b'. bkt_delete ref_bolt b k = Some b' \<and> bkt_get ref_bolt b' = (bkt_get ref_bolt b)(k := None)"
    by (simp add: fun_eq_iff map_of_filter_key [where P = "\<lambda>x. x \<noteq> k"])
  show "\<exists>b'. bkt_put ref_bolt b k v = Some b' \<and> bkt_get ref_bolt b' = (bkt_get ref_bolt b)(k \<mapsto> v)"
    if "key_ok k"
    using that by (auto simp: fun_eq_iff map_of_sl_put)
qed simp_all

end
