(* ===== verification/Kinpb.thy ===== *)
theory Kinpb
  imports Kin_Prelude
begin

text \<open>
  The messages of \<open>kinpb/kin.pb.go\<close> (generated from \<open>proto/kin.proto\<close>): one record per message,
  the \<open>oneof\<close> of the envelope as a datatype. A field of kind \<open>bytes\<close> has no fixed length on the
  wire, so it is a byte list; the code that receives it checks the length. \<open>EmptyEnvelope\<close> is the
  envelope with no payload.
\<close>

record handshake =
  hs_NodeId :: bytes
  hs_PublicKey :: bytes

record file_request =
  frq_FileId :: bytes

record file_response =
  frs_FileId :: bytes
  frs_Size :: "64 word"
  frs_NotFound :: bool

record file_chunk =
  fc_FileId :: bytes
  fc_Data :: bytes
  fc_Eof :: bool

record pb_error =
  pe_Code :: string
  pe_Message :: string

record relay_register =
  rr_NodeId :: bytes
  rr_PublicKey :: bytes
  rr_ListenPort :: "32 word"

record relay_rendezvous =
  rv_PeerNodeId :: bytes
  rv_PeerPublicKey :: bytes
  rv_PeerExternalAddr :: string

record catalog_file =
  cf_FileId :: bytes
  cf_Name :: string
  cf_Size :: "64 word"
  cf_ModTimeUnix :: "64 word"
  cf_OwnerNodeId :: bytes
  cf_Deleted :: bool

datatype envelope =
    EmptyEnvelope
  | Handshake handshake
  | HandshakeAck handshake
  | FileRequest file_request
  | FileResponse file_response
  | FileChunk file_chunk
  | RelayRegister relay_register
  | RelayRegistered string
  | RelayConnect bytes
  | RelayRendezvous relay_rendezvous
  | RelayError string
  | CatalogOffer "catalog_file list"
  | CatalogAck "32 word"
  | PbError pb_error

text \<open>The getters the code uses: the payload if it is of that kind, else nil.\<close>

fun GetFileResponse :: "envelope \<Rightarrow> file_response option" where
  "GetFileResponse (FileResponse r) = Some r"
| "GetFileResponse _ = None"

fun GetFileChunk :: "envelope \<Rightarrow> file_chunk option" where
  "GetFileChunk (FileChunk c) = Some c"
| "GetFileChunk _ = None"

fun GetRelayRegister :: "envelope \<Rightarrow> relay_register option" where
  "GetRelayRegister (RelayRegister r) = Some r"
| "GetRelayRegister _ = None"

fun GetRelayRegistered :: "envelope \<Rightarrow> string option" where
  "GetRelayRegistered (RelayRegistered a) = Some a"
| "GetRelayRegistered _ = None"

lemma GetFileResponse_iff: "GetFileResponse env = Some r \<longleftrightarrow> env = FileResponse r"
  by (cases env) auto

lemma GetFileChunk_iff: "GetFileChunk env = Some c \<longleftrightarrow> env = FileChunk c"
  by (cases env) auto

lemma GetRelayRegister_iff: "GetRelayRegister env = Some r \<longleftrightarrow> env = RelayRegister r"
  by (cases env) auto

lemma GetRelayRegistered_iff: "GetRelayRegistered env = Some a \<longleftrightarrow> env = RelayRegistered a"
  by (cases env) auto

end
