(* ===== verification/Catalog.thy ===== *)
theory Catalog
  imports Bolt_Bucket Kinpb
begin

text \<open>
  The file catalog, \<open>internal/catalog\<close>: the entry and owner-hint records and their JSON form
  (\<open>entry.go\<close>), the store over the two buckets \<open>entries\<close> and \<open>availability\<close> (\<open>store.go\<close>) and the
  conversion to and from the wire (\<open>convert.go\<close>).

  A store is the pair of buckets and this node's id. The clock is an argument: \<open>clk i\<close> is the
  \<open>i\<close>-th reading of \<open>time.Now().UTC()\<close> in the call.
\<close>

section \<open>Entries and hints\<close>

record entry =
  e_FileID :: id32
  e_Name :: string
  e_Size :: "64 word"
  e_ModTime :: gotime
  e_OwnerNodeID :: id32
  e_LocalPath :: string
  e_Deleted :: bool
  e_UpdatedAt :: gotime

record owner_hint =
  h_NodeID :: id32
  h_SeenAt :: gotime

definition entry_json :: "entry \<Rightarrow> json" where
  "entry_json e = JObj (
     [(''file_id'', enc_arr (e_FileID e)),
      (''name'', enc_str (e_Name e)),
      (''size'', enc_int64 (e_Size e)),
      (''mod_time'', JTime (e_ModTime e)),
      (''owner_node_id'', enc_arr (e_OwnerNodeID e))]
     @ omitempty (e_LocalPath e = '''') (''local_path'', enc_str (e_LocalPath e))
     @ omitempty (\<not> e_Deleted e) (''deleted'', JBool (e_Deleted e))
     @ [(''updated_at'', JTime (e_UpdatedAt e))])"

text \<open>\<open>json.Marshal(e)\<close>.\<close>

definition marshal_entry :: "entry \<Rightarrow> raw outcome" where
  "marshal_entry e =
     (if json_time_ok (e_ModTime e) \<and> json_time_ok (e_UpdatedAt e) then Ok (Json (entry_json e))
      else Err (Message ''json: year outside of range [0,9999]''))"

definition zero_entry :: entry where
  "zero_entry = \<lparr>e_FileID = arr_of [], e_Name = '''', e_Size = 0, e_ModTime = zero_time,
     e_OwnerNodeID = arr_of [], e_LocalPath = '''', e_Deleted = False, e_UpdatedAt = zero_time\<rparr>"

fun entry_of_json :: "json \<Rightarrow> entry option" where
  "entry_of_json (JObj fs) =
     Option.bind (dec_arr (jfield fs ''file_id'')) (\<lambda>fileID.
     Option.bind (dec_str (jfield fs ''name'')) (\<lambda>name.
     Option.bind (dec_int64 (jfield fs ''size'')) (\<lambda>sz.
     Option.bind (dec_time (jfield fs ''mod_time'')) (\<lambda>mt.
     Option.bind (dec_arr (jfield fs ''owner_node_id'')) (\<lambda>own.
     Option.bind (dec_str (jfield fs ''local_path'')) (\<lambda>lp.
     Option.bind (dec_bool (jfield fs ''deleted'')) (\<lambda>del.
     Option.bind (dec_time (jfield fs ''updated_at'')) (\<lambda>upd.
     Some \<lparr>e_FileID = fileID, e_Name = name, e_Size = sz, e_ModTime = mt, e_OwnerNodeID = own,
       e_LocalPath = lp, e_Deleted = del, e_UpdatedAt = upd\<rparr>))))))))"
| "entry_of_json JNull = Some zero_entry"
| "entry_of_json _ = None"

text \<open>\<open>json.Unmarshal(raw, &e)\<close> into a fresh \<open>Entry\<close>; \<open>None\<close> is an error.\<close>

fun unmarshal_entry :: "raw \<Rightarrow> entry option" where
  "unmarshal_entry (Json j) = entry_of_json j"
| "unmarshal_entry (Text _) = None"

definition hint_json :: "owner_hint \<Rightarrow> json" where
  "hint_json h = JObj [(''node_id'', enc_arr (h_NodeID h)), (''seen_at'', JTime (h_SeenAt h))]"

definition marshal_hints :: "owner_hint list \<Rightarrow> raw outcome" where
  "marshal_hints hs =
     (if list_all (\<lambda>h. json_time_ok (h_SeenAt h)) hs then Ok (Json (JArr (map hint_json hs)))
      else Err (Message ''json: year outside of range [0,9999]''))"

fun hint_of_json :: "json \<Rightarrow> owner_hint option" where
  "hint_of_json (JObj fs) =
     Option.bind (dec_arr (jfield fs ''node_id'')) (\<lambda>n.
     Option.bind (dec_time (jfield fs ''seen_at'')) (\<lambda>t.
     Some \<lparr>h_NodeID = n, h_SeenAt = t\<rparr>))"
| "hint_of_json JNull = Some \<lparr>h_NodeID = arr_of [], h_SeenAt = zero_time\<rparr>"
| "hint_of_json _ = None"

fun unmarshal_hints :: "raw \<Rightarrow> owner_hint list option" where
  "unmarshal_hints (Json j) = dec_list hint_of_json j"
| "unmarshal_hints (Text _) = None"

text \<open>What comes back is the entry with its two strings coerced to UTF-8.\<close>

definition stored :: "entry \<Rightarrow> entry" where
  "stored e = e\<lparr>e_Name := to_utf8 (e_Name e), e_LocalPath := to_utf8 (e_LocalPath e)\<rparr>"

lemma stored_sel [simp]:
  "e_FileID (stored e) = e_FileID e" "e_OwnerNodeID (stored e) = e_OwnerNodeID e"
  "e_Deleted (stored e) = e_Deleted e" "e_Size (stored e) = e_Size e"
  "e_ModTime (stored e) = e_ModTime e" "e_UpdatedAt (stored e) = e_UpdatedAt e"
  by (simp_all add: stored_def)

lemma stored_idem [simp]: "stored (stored e) = stored e"
  by (simp add: stored_def)

lemma stored_eq_iff: "stored e = e \<longleftrightarrow> to_utf8 (e_Name e) = e_Name e \<and> to_utf8 (e_LocalPath e) = e_LocalPath e"
  by (cases e) (simp add: stored_def)

lemma unmarshal_marshal_entry: "marshal_entry e = Ok r \<Longrightarrow> unmarshal_entry r = Some (stored e)"
  by (auto simp: marshal_entry_def entry_json_def omitempty_def stored_def split: if_splits)

lemma hint_of_json_hint_json [simp]: "hint_of_json (hint_json h) = Some h"
  by (simp add: hint_json_def)

lemma unmarshal_marshal_hints: "marshal_hints hs = Ok r \<Longrightarrow> unmarshal_hints r = Some hs"
  using dec_all_map [of hs hint_of_json hint_json "\<lambda>h. h"]
  by (auto simp: marshal_hints_def split: if_splits)

section \<open>The store\<close>

record 'b store =
  st_db :: "'b \<times> 'b"       \<comment> \<open>the buckets \<open>entries\<close> and \<open>availability\<close>\<close>
  st_selfID :: id32

text \<open>\<open>Open\<close>; \<open>opened\<close> is what \<open>bolt.Open\<close> returns: an error, or the two buckets found in the file.\<close>

definition Open :: "'b bolt \<Rightarrow> ('b option \<times> 'b option) outcome \<Rightarrow> id32 \<Rightarrow> 'b store outcome" where
  "Open B opened selfID =
     obind (owrap ''catalog open'' opened) (\<lambda>found.
     obind (owrap ''catalog init buckets'' (create_buckets B found)) (\<lambda>db.
     Ok \<lparr>st_db = db, st_selfID = selfID\<rparr>))"

definition compositeKey :: "id32 \<Rightarrow> id32 \<Rightarrow> 64 barr" where
  "compositeKey ownerNodeID fileID = arr_of (list_of ownerNodeID @ list_of fileID)"

definition putEntry :: "'b bolt \<Rightarrow> 'b \<Rightarrow> entry \<Rightarrow> 'b outcome" where
  "putEntry B b e =
     obind (marshal_entry e) (\<lambda>data.
     b_put B b (list_of (compositeKey (e_OwnerNodeID e) (e_FileID e))) data)"

text \<open>The loop of \<open>listByPrefixTx\<close>: what does not decode is skipped, tombstones are left out.\<close>

fun live_entries :: "(bytes \<times> raw) list \<Rightarrow> entry list" where
  "live_entries [] = []"
| "live_entries ((k, v) # kvs) =
     (case unmarshal_entry v of
        None \<Rightarrow> live_entries kvs
      | Some e \<Rightarrow> if \<not> e_Deleted e then e # live_entries kvs else live_entries kvs)"

definition listByPrefixTx :: "'b bolt \<Rightarrow> 'b \<Rightarrow> id32 \<Rightarrow> entry list" where
  "listByPrefixTx B b ownerNodeID = live_entries (cursor_prefix B b (list_of ownerNodeID))"

definition listByPrefix :: "'b bolt \<Rightarrow> 'b store \<Rightarrow> id32 \<Rightarrow> entry list" where
  "listByPrefix B s ownerNodeID = listByPrefixTx B (fst (st_db s)) ownerNodeID"

text \<open>
  The loop of \<open>deleteByPrefix\<close> deletes the pair under the cursor and moves on. The cursor walks
  the pairs that were there when it was positioned: both callers run it as the first write of the
  transaction to the bucket \<open>entries\<close>, so the cursor reads the pages of the committed tree, which
  the deletions of the same transaction leave alone.
\<close>

fun delete_walk :: "'b bolt \<Rightarrow> (bytes \<times> raw) list \<Rightarrow> 'b \<Rightarrow> 'b outcome" where
  "delete_walk B [] b = Ok b"
| "delete_walk B ((k, v) # kvs) b = obind (b_delete B b k) (\<lambda>b'. delete_walk B kvs b')"

definition deleteByPrefix :: "'b bolt \<Rightarrow> 'b \<Rightarrow> id32 \<Rightarrow> 'b outcome" where
  "deleteByPrefix B b ownerNodeID = delete_walk B (cursor_prefix B b (list_of ownerNodeID)) b"

text \<open>The loop of \<open>addAvailability\<close>: refresh the first hint of the node, or append one.\<close>

fun touch_hint :: "id32 \<Rightarrow> gotime \<Rightarrow> owner_hint list \<Rightarrow> owner_hint list" where
  "touch_hint nodeID now [] = [\<lparr>h_NodeID = nodeID, h_SeenAt = now\<rparr>]"
| "touch_hint nodeID now (h # hs) =
     (if h_NodeID h = nodeID then h\<lparr>h_SeenAt := now\<rparr> # hs else h # touch_hint nodeID now hs)"

definition addAvailability :: "'b bolt \<Rightarrow> gotime \<Rightarrow> 'b \<Rightarrow> id32 \<Rightarrow> id32 \<Rightarrow> 'b outcome" where
  "addAvailability B now b fileID nodeID =
     (let hints = (case bkt_get B b (list_of fileID) of
                     None \<Rightarrow> []
                   | Some raw \<Rightarrow> (case unmarshal_hints raw of None \<Rightarrow> [] | Some hs \<Rightarrow> hs))
      in obind (marshal_hints (touch_hint nodeID now hints)) (\<lambda>data.
         b_put B b (list_of fileID) data))"

definition removeAvailability :: "'b bolt \<Rightarrow> 'b \<Rightarrow> id32 \<Rightarrow> id32 \<Rightarrow> 'b outcome" where
  "removeAvailability B b fileID nodeID =
     (case bkt_get B b (list_of fileID) of
        None \<Rightarrow> Ok b
      | Some raw \<Rightarrow>
          (case unmarshal_hints raw of
             None \<Rightarrow> b_delete B b (list_of fileID)
           | Some hints \<Rightarrow>
               let filtered = filter (\<lambda>h. h_NodeID h \<noteq> nodeID) hints
               in if filtered = [] then b_delete B b (list_of fileID)
                  else obind (marshal_hints filtered) (\<lambda>data. b_put B b (list_of fileID) data)))"

subsection \<open>Transactions\<close>

definition store_update :: "'b bolt \<Rightarrow> ('b \<times> 'b \<Rightarrow> ('b \<times> 'b) outcome) \<Rightarrow> 'b store \<Rightarrow> unit outcome \<times> 'b store" where
  "store_update B fn s =
     (let (r, db) = db_update B fn (st_db s) in (r, s\<lparr>st_db := db\<rparr>))"

definition PutLocal :: "'b bolt \<Rightarrow> (nat \<Rightarrow> gotime) \<Rightarrow> 'b store \<Rightarrow> entry \<Rightarrow> unit outcome \<times> 'b store" where
  "PutLocal B clk s entry =
     (let e = entry\<lparr>e_OwnerNodeID := st_selfID s, e_UpdatedAt := clk 0, e_Deleted := False\<rparr>
      in store_update B (\<lambda>(eb, ab).
           obind (owrap ''put local'' (putEntry B eb e)) (\<lambda>eb'.
           obind (addAvailability B (clk 1) ab (e_FileID e) (st_selfID s)) (\<lambda>ab'.
           Ok (eb', ab')))) s)"

definition DeleteLocal :: "'b bolt \<Rightarrow> (nat \<Rightarrow> gotime) \<Rightarrow> 'b store \<Rightarrow> id32 \<Rightarrow> unit outcome \<times> 'b store" where
  "DeleteLocal B clk s fileID =
     store_update B (\<lambda>(eb, ab).
       case bkt_get B eb (list_of (compositeKey (st_selfID s) fileID)) of
         None \<Rightarrow> Ok (eb, ab)
       | Some raw \<Rightarrow>
           (case unmarshal_entry raw of
              None \<Rightarrow> Err (Wrap ''delete local unmarshal'' (Message ''json''))
            | Some e \<Rightarrow>
                obind (owrap ''delete local''
                         (putEntry B eb (e\<lparr>e_Deleted := True, e_UpdatedAt := clk 0\<rparr>))) (\<lambda>eb'.
                obind (removeAvailability B ab fileID (st_selfID s)) (\<lambda>ab'.
                Ok (eb', ab'))))) s"

fun putPeer_loop :: "'b bolt \<Rightarrow> (nat \<Rightarrow> gotime) \<Rightarrow> id32 \<Rightarrow> nat \<Rightarrow> entry list \<Rightarrow> 'b \<times> 'b \<Rightarrow> ('b \<times> 'b) outcome" where
  "putPeer_loop B clk peerNodeID i [] db = Ok db"
| "putPeer_loop B clk peerNodeID i (entry # entries) (eb, ab) =
     (let e = entry\<lparr>e_OwnerNodeID := peerNodeID, e_UpdatedAt := clk (2 * i)\<rparr>
      in obind (owrap ''put peer entry'' (putEntry B eb e)) (\<lambda>eb'.
         obind (if \<not> e_Deleted e
                then owrap ''put peer availability''
                       (addAvailability B (clk (2 * i + 1)) ab (e_FileID e) peerNodeID)
                else Ok ab) (\<lambda>ab'.
         putPeer_loop B clk peerNodeID (Suc i) entries (eb', ab'))))"

definition PutPeerEntries :: "'b bolt \<Rightarrow> (nat \<Rightarrow> gotime) \<Rightarrow> 'b store \<Rightarrow> id32 \<Rightarrow> entry list \<Rightarrow> unit outcome \<times> 'b store" where
  "PutPeerEntries B clk s peerNodeID entries =
     store_update B (\<lambda>(eb, ab).
       obind (owrap ''put peer clear'' (deleteByPrefix B eb peerNodeID)) (\<lambda>eb'.
       putPeer_loop B clk peerNodeID 0 entries (eb', ab))) s"

fun removePeer_loop :: "'b bolt \<Rightarrow> id32 \<Rightarrow> entry list \<Rightarrow> 'b \<Rightarrow> 'b outcome" where
  "removePeer_loop B peerNodeID [] ab = Ok ab"
| "removePeer_loop B peerNodeID (e # es) ab =
     obind (owrap ''remove peer availability'' (removeAvailability B ab (e_FileID e) peerNodeID)) (\<lambda>ab'.
     removePeer_loop B peerNodeID es ab')"

definition RemovePeer :: "'b bolt \<Rightarrow> 'b store \<Rightarrow> id32 \<Rightarrow> unit outcome \<times> 'b store" where
  "RemovePeer B s peerNodeID =
     store_update B (\<lambda>(eb, ab).
       obind (removePeer_loop B peerNodeID (listByPrefixTx B eb peerNodeID) ab) (\<lambda>ab'.
       obind (deleteByPrefix B eb peerNodeID) (\<lambda>eb'. Ok (eb', ab')))) s"

subsection \<open>Queries\<close>

definition ListLocal :: "'b bolt \<Rightarrow> 'b store \<Rightarrow> entry list" where
  "ListLocal B s = listByPrefix B s (st_selfID s)"

definition ListByOwner :: "'b bolt \<Rightarrow> 'b store \<Rightarrow> id32 \<Rightarrow> entry list" where
  "ListByOwner B s nodeID = listByPrefix B s nodeID"

definition LookupLocalByPath :: "'b bolt \<Rightarrow> 'b store \<Rightarrow> string \<Rightarrow> entry option" where
  "LookupLocalByPath B s path =
     find (\<lambda>e. e_LocalPath e = path)
       (live_entries (cursor_prefix B (fst (st_db s)) (list_of (st_selfID s))))"

text \<open>The \<open>ForEach\<close> loops of \<open>ListAll\<close> and \<open>ListForPeer\<close>: a value that does not decode is an error.\<close>

fun foreach_live :: "(entry \<Rightarrow> bool) \<Rightarrow> (bytes \<times> raw) list \<Rightarrow> entry list outcome" where
  "foreach_live keep [] = Ok []"
| "foreach_live keep ((k, v) # kvs) =
     (case unmarshal_entry v of
        None \<Rightarrow> Err (Message ''json'')
      | Some e \<Rightarrow> obind (foreach_live keep kvs) (\<lambda>es.
          Ok (if \<not> e_Deleted e \<and> keep e then e # es else es)))"

definition ListAll :: "'b bolt \<Rightarrow> 'b store \<Rightarrow> entry list outcome" where
  "ListAll B s = foreach_live (\<lambda>e. True) (bkt_items B (fst (st_db s)))"

definition ListForPeer :: "'b bolt \<Rightarrow> 'b store \<Rightarrow> id32 \<Rightarrow> entry list outcome" where
  "ListForPeer B s excludeNodeID =
     foreach_live (\<lambda>e. e_OwnerNodeID e \<noteq> excludeNodeID) (bkt_items B (fst (st_db s)))"

definition GetOwners :: "'b bolt \<Rightarrow> 'b store \<Rightarrow> id32 \<Rightarrow> owner_hint list outcome" where
  "GetOwners B s fileID =
     (case bkt_get B (snd (st_db s)) (list_of fileID) of
        None \<Rightarrow> Ok []
      | Some raw \<Rightarrow> (case unmarshal_hints raw of
                       None \<Rightarrow> Err (Message ''json'') | Some hints \<Rightarrow> Ok hints))"

definition GetEntry :: "'b bolt \<Rightarrow> 'b store \<Rightarrow> id32 \<Rightarrow> id32 \<Rightarrow> entry option outcome" where
  "GetEntry B s ownerNodeID fileID =
     (case bkt_get B (fst (st_db s)) (list_of (compositeKey ownerNodeID fileID)) of
        None \<Rightarrow> Ok None
      | Some raw \<Rightarrow> (case unmarshal_entry raw of
                       None \<Rightarrow> Err (Wrap ''get entry'' (Message ''json'')) | Some e \<Rightarrow> Ok (Some e)))"

section \<open>Conversion to the wire\<close>

definition EntryToProto :: "entry \<Rightarrow> catalog_file" where
  "EntryToProto e = \<lparr>cf_FileId = list_of (e_FileID e), cf_Name = e_Name e, cf_Size = e_Size e,
     cf_ModTimeUnix = unix (e_ModTime e), cf_OwnerNodeId = list_of (e_OwnerNodeID e),
     cf_Deleted = e_Deleted e\<rparr>"

definition ProtoToEntry :: "catalog_file \<Rightarrow> entry outcome" where
  "ProtoToEntry f =
     (if length (cf_FileId f) \<noteq> 32 then Err (Message ''file_id must be 32 bytes'')
      else if length (cf_OwnerNodeId f) \<noteq> 32 then Err (Message ''owner_node_id must be 32 bytes'')
      else Ok \<lparr>e_FileID = arr_of (cf_FileId f), e_Name = cf_Name f, e_Size = cf_Size f,
        e_ModTime = from_unix (cf_ModTimeUnix f), e_OwnerNodeID = arr_of (cf_OwnerNodeId f),
        e_LocalPath = '''', e_Deleted = cf_Deleted f, e_UpdatedAt = zero_time\<rparr>)"

definition EntriesToProto :: "entry list \<Rightarrow> catalog_file list" where
  "EntriesToProto entries = map EntryToProto entries"

end
