(* ===== verification/Catalog_Props.thy ===== *)
theory Catalog_Props
  imports Catalog
begin

text \<open>
  Correctness of the catalog store. The store is read as two tables: \<open>ent\<close> gives the entry of an
  owner and a file, \<open>own\<close> the owner hints of a file. Each primitive write of \<open>store.go\<close> is an update
  of one table; the invariant \<open>catalog_inv\<close> says that entries are filed under their own key, that
  the hints of a file decode and name each node once, and that the owner of every live entry is
  among the hints of its file.
\<close>

named_theorems catalog_keys \<open>the keys of the two buckets\<close>

section \<open>Keys\<close>

lemma list_of_compositeKey [simp]: "list_of (compositeKey a f) = list_of a @ list_of f"
  by (simp add: compositeKey_def)

lemma key_ok_id [catalog_keys]: "key_ok (list_of (f :: id32))"
proof -
  have "length (list_of f) = 32" by simp
  then show ?thesis unfolding key_ok_def by fastforce
qed

lemma key_ok_compositeKey [catalog_keys]: "key_ok (list_of a @ list_of (f :: id32))" for a :: id32
proof -
  have "length (list_of a @ list_of f) = 64" by simp
  then show ?thesis unfolding key_ok_def by fastforce
qed

lemma append_id_eq_iff [simp]:
  "list_of a @ list_of f = list_of b @ list_of g \<longleftrightarrow> a = b \<and> f = g" for a b f g :: id32
  by (subst append_eq_append_conv) simp_all

lemma prefix_id_iff [simp]: "prefix (list_of a) (list_of b @ xs) \<longleftrightarrow> a = b" for a b :: id32
  by (metis append_eq_append_conv length_list_of list_of_eq_iff prefix_def)

section \<open>The two tables and the invariant\<close>

definition ent :: "'b bolt \<Rightarrow> 'b \<Rightarrow> id32 \<Rightarrow> id32 \<Rightarrow> entry option" where
  "ent B eb a f = Option.bind (bkt_get B eb (list_of (compositeKey a f))) unmarshal_entry"

definition own :: "'b bolt \<Rightarrow> 'b \<Rightarrow> id32 \<Rightarrow> owner_hint list" where
  "own B ab f =
     (case Option.bind (bkt_get B ab (list_of f)) unmarshal_hints of None \<Rightarrow> [] | Some hs \<Rightarrow> hs)"

definition keyed :: "'b bolt \<Rightarrow> 'b \<Rightarrow> bool" where
  "keyed B eb \<longleftrightarrow>
     (\<forall>k r. bkt_get B eb k = Some r \<longrightarrow>
        (\<exists>e. unmarshal_entry r = Some e \<and> k = list_of (compositeKey (e_OwnerNodeID e) (e_FileID e)) \<and>
           stored e = e \<and> json_time_ok (e_ModTime e)))"

definition hints_ok :: "owner_hint list \<Rightarrow> bool" where
  "hints_ok hs \<longleftrightarrow> distinct (map h_NodeID hs) \<and> list_all (\<lambda>h. json_time_ok (h_SeenAt h)) hs"

definition hinted :: "'b bolt \<Rightarrow> 'b \<Rightarrow> bool" where
  "hinted B ab \<longleftrightarrow>
     (\<forall>k r. bkt_get B ab k = Some r \<longrightarrow>
        (\<exists>f hs. k = list_of (f :: id32) \<and> unmarshal_hints r = Some hs \<and> hs \<noteq> [] \<and> hints_ok hs))"

definition complete :: "'b bolt \<Rightarrow> 'b \<Rightarrow> 'b \<Rightarrow> bool" where
  "complete B eb ab \<longleftrightarrow>
     (\<forall>a f e. ent B eb a f = Some e \<longrightarrow> \<not> e_Deleted e \<longrightarrow> a \<in> h_NodeID ` set (own B ab f))"

definition db_inv :: "'b bolt \<Rightarrow> 'b \<times> 'b \<Rightarrow> bool" where
  "db_inv B db \<longleftrightarrow> keyed B (fst db) \<and> hinted B (snd db) \<and> complete B (fst db) (snd db)"

definition catalog_inv :: "'b bolt \<Rightarrow> 'b store \<Rightarrow> bool" where
  "catalog_inv B s \<longleftrightarrow> db_inv B (st_db s)"

lemma hints_ok_touch:
  "hints_ok hs \<Longrightarrow> json_time_ok t \<Longrightarrow> hints_ok (touch_hint n t hs)"
  and nodes_touch: "h_NodeID ` set (touch_hint n t hs) = insert n (h_NodeID ` set hs)"
proof -
  show nodes: "h_NodeID ` set (touch_hint n t hs) = insert n (h_NodeID ` set hs)" for hs
    by (induction hs) auto
  show "hints_ok hs \<Longrightarrow> json_time_ok t \<Longrightarrow> hints_ok (touch_hint n t hs)"
  proof (induction hs)
    case Nil
    then show ?case by (simp add: hints_ok_def)
  next
    case (Cons h hs)
    then show ?case using nodes [of hs] by (auto simp: hints_ok_def)
  qed
qed

lemma touch_hint_not_Nil [simp]: "touch_hint n t hs \<noteq> []"
  by (cases hs) auto

lemma touch_hint_time: "list_all (\<lambda>h. P (h_SeenAt h)) (touch_hint n t hs) \<Longrightarrow> P t"
  by (induction hs) (auto split: if_splits)

lemma nodes_filter: "h_NodeID ` set (filter (\<lambda>h. h_NodeID h \<noteq> n) hs) = h_NodeID ` set hs - {n}"
  by auto

lemma hints_ok_filter: "hints_ok hs \<Longrightarrow> hints_ok (filter P hs)"
  by (auto simp: hints_ok_def list_all_iff distinct_map inj_on_def)

lemma marshal_hints_ok: "hints_ok hs \<Longrightarrow> \<exists>r. marshal_hints hs = Ok r"
  by (simp add: hints_ok_def marshal_hints_def)

lemma marshal_hints_time: "marshal_hints hs = Ok r \<Longrightarrow> list_all (\<lambda>h. json_time_ok (h_SeenAt h)) hs"
  by (simp add: marshal_hints_def split: if_splits)

lemma keyed_ent:
  "keyed B eb \<Longrightarrow> ent B eb a f = Some e \<Longrightarrow>
   e_OwnerNodeID e = a \<and> e_FileID e = f \<and> stored e = e \<and> json_time_ok (e_ModTime e)"
  by (fastforce simp: keyed_def ent_def bind_eq_Some_conv)

lemma hinted_own: "hinted B ab \<Longrightarrow> hints_ok (own B ab f)"
  by (fastforce simp: hinted_def own_def hints_ok_def split: option.splits bind_splits)

section \<open>What each primitive write does\<close>

context bolt_laws
begin

lemma putEntry_effect:
  assumes "putEntry B eb e = Ok eb'"
  shows "ent B eb' a f = (if a = e_OwnerNodeID e \<and> f = e_FileID e then Some (stored e) else ent B eb a f)"
    and "keyed B eb \<Longrightarrow> keyed B eb'"
proof -
  from assms obtain r where r: "marshal_entry e = Ok r"
    and put: "b_put B eb (list_of (e_OwnerNodeID e) @ list_of (e_FileID e)) r = Ok eb'"
    by (auto simp: putEntry_def outcome_simps)
  note get = put_get [OF key_ok_compositeKey put] and um = unmarshal_marshal_entry [OF r]
  show "ent B eb' a f = (if a = e_OwnerNodeID e \<and> f = e_FileID e then Some (stored e) else ent B eb a f)"
    by (simp add: ent_def get um)
  have "json_time_ok (e_ModTime e)" using r by (simp add: marshal_entry_def split: if_splits)
  then show "keyed B eb'" if "keyed B eb"
    using that um by (auto simp: keyed_def get)
qed

lemma putEntry_succeeds:
  assumes "json_time_ok (e_ModTime e)" and "json_time_ok (e_UpdatedAt e)"
  shows "\<exists>eb'. putEntry B eb e = Ok eb'"
proof -
  obtain eb' where "b_put B eb (list_of (e_OwnerNodeID e) @ list_of (e_FileID e)) (Json (entry_json e)) = Ok eb'"
    by (rule put_ok [OF key_ok_compositeKey])
  with assms show ?thesis by (simp add: putEntry_def marshal_entry_def)
qed

lemma addAvailability_effect:
  assumes "addAvailability B t ab f n = Ok ab'"
  shows "own B ab' = (own B ab)(f := touch_hint n t (own B ab f))"
    and "hinted B ab \<Longrightarrow> hinted B ab'"
proof -
  have eq: "(case bkt_get B ab (list_of f) of None \<Rightarrow> []
      | Some raw \<Rightarrow> (case unmarshal_hints raw of None \<Rightarrow> [] | Some hs \<Rightarrow> hs)) = own B ab f"
    by (simp add: own_def split: option.splits)
  from assms obtain r where r: "marshal_hints (touch_hint n t (own B ab f)) = Ok r"
    and put: "b_put B ab (list_of f) r = Ok ab'"
    by (auto simp: addAvailability_def Let_def outcome_simps eq)
  note get = put_get [OF key_ok_id put] and um = unmarshal_marshal_hints [OF r]
  show "own B ab' = (own B ab)(f := touch_hint n t (own B ab f))"
    by (simp add: fun_eq_iff own_def get um)
  have t: "json_time_ok t"
    using marshal_hints_time [OF r] by (rule touch_hint_time)
  show "hinted B ab'" if "hinted B ab"
    using that um hints_ok_touch [OF hinted_own t] by (fastforce simp: hinted_def get)
qed

lemma addAvailability_succeeds:
  assumes "hinted B ab" and "json_time_ok t"
  shows "\<exists>ab'. addAvailability B t ab f n = Ok ab'"
proof -
  have eq: "(case bkt_get B ab (list_of f) of None \<Rightarrow> []
      | Some raw \<Rightarrow> (case unmarshal_hints raw of None \<Rightarrow> [] | Some hs \<Rightarrow> hs)) = own B ab f"
    by (simp add: own_def split: option.splits)
  have "hints_ok (touch_hint n t (own B ab f))"
    using hinted_own [OF assms(1)] assms(2) by (rule hints_ok_touch)
  then obtain r where r: "marshal_hints (touch_hint n t (own B ab f)) = Ok r"
    using marshal_hints_ok by blast
  obtain ab' where "b_put B ab (list_of f) r = Ok ab'"
    by (rule put_ok [OF key_ok_id])
  with r show ?thesis by (simp add: addAvailability_def Let_def eq)
qed

lemma removeAvailability_effect:
  assumes "hinted B ab"
  obtains ab' where "removeAvailability B ab f n = Ok ab'" and "hinted B ab'"
    and "own B ab' = (own B ab)(f := filter (\<lambda>h. h_NodeID h \<noteq> n) (own B ab f))"
proof (cases "bkt_get B ab (list_of f)")
  case None
  then have "removeAvailability B ab f n = Ok ab" and "own B ab f = []"
    by (simp_all add: removeAvailability_def own_def)
  with assms show ?thesis by (intro that [of ab]) (simp_all add: fun_upd_idem)
next
  case (Some raw)
  with assms obtain hs where hs: "unmarshal_hints raw = Some hs" and ok: "hints_ok hs"
    by (fastforce simp: hinted_def)
  from Some hs have own: "own B ab f = hs" by (simp add: own_def)
  let ?hs = "filter (\<lambda>h. h_NodeID h \<noteq> n) hs"
  show ?thesis
  proof (cases "?hs = []")
    case True
    obtain ab' where del: "b_delete B ab (list_of f) = Ok ab'"
      and get: "bkt_get B ab' = (bkt_get B ab)(list_of f := None)"
      by (rule delete_ok)
    show ?thesis
    proof (rule that)
      show "removeAvailability B ab f n = Ok ab'"
        using Some hs True del by (simp add: removeAvailability_def Let_def)
      show "hinted B ab'" using assms by (simp add: hinted_def get)
      show "own B ab' = (own B ab)(f := filter (\<lambda>h. h_NodeID h \<noteq> n) (own B ab f))"
        unfolding own using True by (simp add: fun_eq_iff own_def get)
    qed
  next
    case False
    obtain r where r: "marshal_hints ?hs = Ok r"
      using marshal_hints_ok [OF hints_ok_filter [OF ok]] by blast
    obtain ab' where put: "b_put B ab (list_of f) r = Ok ab'"
      and get: "bkt_get B ab' = (bkt_get B ab)(list_of f \<mapsto> r)"
      by (rule put_ok [OF key_ok_id])
    note um = unmarshal_marshal_hints [OF r]
    show ?thesis
    proof (rule that)
      show "removeAvailability B ab f n = Ok ab'"
        using Some hs False r put by (simp add: removeAvailability_def Let_def)
      show "hinted B ab'"
        using assms um False hints_ok_filter [OF ok] by (fastforce simp: hinted_def get)
      show "own B ab' = (own B ab)(f := filter (\<lambda>h. h_NodeID h \<noteq> n) (own B ab f))"
        unfolding own using um by (simp add: fun_eq_iff own_def get)
    qed
  qed
qed

lemma delete_walk_effect:
  "\<exists>b'. delete_walk B kvs b = Ok b' \<and>
     bkt_get B b' = (\<lambda>k. if k \<in> fst ` set kvs then None else bkt_get B b k)"
proof (induction kvs arbitrary: b)
  case Nil
  then show ?case by simp
next
  case (Cons kv kvs)
  obtain k v where kv: "kv = (k, v)" by (cases kv)
  obtain b1 where b1: "b_delete B b k = Ok b1" "bkt_get B b1 = (bkt_get B b)(k := None)"
    by (rule delete_ok)
  from Cons.IH [of b1] b1 show ?case by (auto simp: kv fun_eq_iff)
qed

text \<open>\<open>deleteByPrefix\<close> never fails and removes exactly the keys of the owner.\<close>

lemma deleteByPrefix_effect:
  obtains b' where "deleteByPrefix B b a = Ok b'"
    and "bkt_get B b' = (\<lambda>k. if prefix (list_of a) k then None else bkt_get B b k)"
proof -
  let ?kvs = "cursor_prefix B b (list_of a)"
  obtain b' where b': "delete_walk B ?kvs b = Ok b'"
    and get: "bkt_get B b' = (\<lambda>k. if k \<in> fst ` set ?kvs then None else bkt_get B b k)"
    using delete_walk_effect by blast
  have "k \<in> fst ` set ?kvs \<longleftrightarrow> prefix (list_of a) k \<and> bkt_get B b k \<noteq> None" for k
  proof -
    have "k \<in> fst ` set ?kvs \<longleftrightarrow> (\<exists>v. (k, v) \<in> set ?kvs)" by force
    then show ?thesis by (simp add: in_cursor_prefix_iff)
  qed
  with b' get that show ?thesis
    by (fastforce simp: deleteByPrefix_def)
qed

lemma deleteByPrefix_tables:
  assumes "deleteByPrefix B eb a = Ok eb'"
  shows "ent B eb' a' f = (if a' = a then None else ent B eb a' f)"
    and "keyed B eb \<Longrightarrow> keyed B eb'"
proof -
  obtain b' where "deleteByPrefix B eb a = Ok b'"
    and "bkt_get B b' = (\<lambda>k. if prefix (list_of a) k then None else bkt_get B eb k)"
    by (rule deleteByPrefix_effect [of eb a])
  with assms have get: "bkt_get B eb' k = (if prefix (list_of a) k then None else bkt_get B eb k)" for k
    by simp
  show "ent B eb' a' f = (if a' = a then None else ent B eb a' f)"
    by (auto simp: ent_def get)
  show "keyed B eb'" if "keyed B eb"
    using that by (auto simp: keyed_def get)
qed

section \<open>The operations keep the invariant\<close>

lemma store_update_inv:
  assumes "catalog_inv B s"
    and "\<And>eb ab db'. st_db s = (eb, ab) \<Longrightarrow> db_inv B (eb, ab) \<Longrightarrow> fn (eb, ab) = Ok db' \<Longrightarrow> db_inv B db'"
  shows "catalog_inv B (snd (store_update B fn s))"
proof (cases "fst (db_update B fn (st_db s)) = Ok ()")
  case True
  then obtain db' where fn: "fn (st_db s) = Ok db'" and c: "bkt_commit B db'"
    by (auto simp: db_update_ok)
  from assms fn have "db_inv B db'" by (cases "st_db s") (auto simp: catalog_inv_def)
  with fn c show ?thesis
    by (simp add: store_update_def db_update_state catalog_inv_def Let_def)
next
  case False
  then have "snd (db_update B fn (st_db s)) = st_db s" by (rule db_update_not_ok)
  with assms(1) show ?thesis
    by (cases "db_update B fn (st_db s)") (simp add: store_update_def catalog_inv_def)
qed

lemma put_step_inv:
  assumes inv: "db_inv B (eb, ab)"
    and put: "putEntry B eb e = Ok eb'"
    and avail: "if e_Deleted e then ab' = ab else addAvailability B t ab (e_FileID e) (e_OwnerNodeID e) = Ok ab'"
  shows "db_inv B (eb', ab')"
proof -
  from inv have k: "keyed B eb" and h: "hinted B ab" and c: "complete B eb ab"
    by (simp_all add: db_inv_def)
  have own: "h_NodeID ` set (own B ab f) \<subseteq> h_NodeID ` set (own B ab' f)" for f
    using avail addAvailability_effect(1) [of t ab "e_FileID e" "e_OwnerNodeID e" ab']
    by (cases "e_Deleted e") (auto simp: nodes_touch)
  have new: "\<not> e_Deleted e \<Longrightarrow> e_OwnerNodeID e \<in> h_NodeID ` set (own B ab' (e_FileID e))"
    using avail addAvailability_effect(1) [of t ab "e_FileID e" "e_OwnerNodeID e" ab']
    by (simp add: nodes_touch)
  have "complete B eb' ab'"
    unfolding complete_def
  proof (intro allI impI)
    fix a f e'
    assume e': "ent B eb' a f = Some e'" "\<not> e_Deleted e'"
    show "a \<in> h_NodeID ` set (own B ab' f)"
    proof (cases "a = e_OwnerNodeID e \<and> f = e_FileID e")
      case True
      with e' new show ?thesis by (auto simp: putEntry_effect(1) [OF put])
    next
      case False
      with e' c have "a \<in> h_NodeID ` set (own B ab f)"
        by (auto simp: putEntry_effect(1) [OF put] complete_def)
      with own show ?thesis by blast
    qed
  qed
  moreover have "hinted B ab'"
    using avail h addAvailability_effect(2) by (auto split: if_splits)
  ultimately show ?thesis
    using putEntry_effect(2) [OF put k] by (simp add: db_inv_def)
qed

lemma PutLocal_inv: "catalog_inv B s \<Longrightarrow> catalog_inv B (snd (PutLocal B clk s e))"
  unfolding PutLocal_def Let_def
  by (rule store_update_inv) (auto simp: outcome_simps intro: put_step_inv)

lemma putPeer_loop_inv:
  "db_inv B (eb, ab) \<Longrightarrow> putPeer_loop B clk p i es (eb, ab) = Ok db' \<Longrightarrow> db_inv B db'"
proof (induction es arbitrary: i eb ab)
  case Nil
  then show ?case by simp
next
  case (Cons e es)
  let ?e = "e\<lparr>e_OwnerNodeID := p, e_UpdatedAt := clk (2 * i)\<rparr>"
  from Cons.prems(2) obtain eb' ab' where put: "putEntry B eb ?e = Ok eb'"
    and avail: "if e_Deleted ?e then ab' = ab
      else addAvailability B (clk (2 * i + 1)) ab (e_FileID ?e) (e_OwnerNodeID ?e) = Ok ab'"
    and rest: "putPeer_loop B clk p (Suc i) es (eb', ab') = Ok db'"
    by (auto simp: Let_def outcome_simps split: if_splits)
  have "db_inv B (eb', ab')" by (rule put_step_inv [OF Cons.prems(1) put avail])
  then show ?case using rest by (rule Cons.IH)
qed

lemma delete_prefix_inv: "db_inv B (eb, ab) \<Longrightarrow> deleteByPrefix B eb p = Ok eb' \<Longrightarrow> db_inv B (eb', ab)"
  using deleteByPrefix_tables [of eb p eb'] by (auto simp: db_inv_def complete_def split: if_splits)

lemma PutPeerEntries_inv: "catalog_inv B s \<Longrightarrow> catalog_inv B (snd (PutPeerEntries B clk s p es))"
  unfolding PutPeerEntries_def
  by (rule store_update_inv) (auto simp: outcome_simps intro: putPeer_loop_inv delete_prefix_inv)

lemma DeleteLocal_inv: "catalog_inv B s \<Longrightarrow> catalog_inv B (snd (DeleteLocal B clk s f))"
  unfolding DeleteLocal_def
proof (rule store_update_inv)
  fix eb ab db'
  let ?self = "st_selfID s"
  assume inv: "db_inv B (eb, ab)"
  assume eq: "(case (eb, ab) of (eb, ab) \<Rightarrow>
      (case bkt_get B eb (list_of (compositeKey ?self f)) of None \<Rightarrow> Ok (eb, ab)
       | Some raw \<Rightarrow> (case unmarshal_entry raw of
            None \<Rightarrow> Err (Wrap ''delete local unmarshal'' (Message ''json''))
          | Some e \<Rightarrow> obind (owrap ''delete local'' (putEntry B eb (e\<lparr>e_Deleted := True, e_UpdatedAt := clk 0\<rparr>)))
              (\<lambda>eb'. obind (removeAvailability B ab f ?self) (\<lambda>ab'. Ok (eb', ab')))))) = Ok db'"
  show "db_inv B db'"
  proof (cases "bkt_get B eb (list_of (compositeKey ?self f))")
    case None
    with eq inv show ?thesis by simp
  next
    case (Some raw)
    with inv obtain e where e: "unmarshal_entry raw = Some e" and k: "e_OwnerNodeID e = ?self" "e_FileID e = f"
      by (fastforce simp: db_inv_def keyed_def)
    let ?e = "e\<lparr>e_Deleted := True, e_UpdatedAt := clk 0\<rparr>"
    from eq Some e obtain eb' ab' where put: "putEntry B eb ?e = Ok eb'"
      and rm: "removeAvailability B ab f ?self = Ok ab'" and db': "db' = (eb', ab')"
      by (auto simp: outcome_simps)
    from inv have "hinted B ab" by (simp add: db_inv_def)
    then obtain ab1 where "removeAvailability B ab f ?self = Ok ab1" and "hinted B ab1"
      and "own B ab1 = (own B ab)(f := filter (\<lambda>h. h_NodeID h \<noteq> ?self) (own B ab f))"
      by (rule removeAvailability_effect)
    with rm have h: "hinted B ab'"
      and own: "own B ab' = (own B ab)(f := filter (\<lambda>h. h_NodeID h \<noteq> ?self) (own B ab f))"
      by simp_all
    have "complete B eb' ab'"
      using inv k by (force simp: complete_def db_inv_def putEntry_effect(1) [OF put] own split: if_splits)
    with h inv putEntry_effect(2) [OF put] show ?thesis
      by (simp add: db_inv_def db')
  qed
qed

lemma removePeer_loop_effect:
  assumes "hinted B ab"
  shows "\<exists>ab'. removePeer_loop B p es ab = Ok ab' \<and> hinted B ab' \<and>
    own B ab' = (\<lambda>f. if f \<in> e_FileID ` set es then filter (\<lambda>h. h_NodeID h \<noteq> p) (own B ab f) else own B ab f)"
  using assms
proof (induction es arbitrary: ab)
  case Nil
  then show ?case by simp
next
  case (Cons e es)
  obtain ab1 where "removeAvailability B ab (e_FileID e) p = Ok ab1" and "hinted B ab1"
    and "own B ab1 = (own B ab)(e_FileID e := filter (\<lambda>h. h_NodeID h \<noteq> p) (own B ab (e_FileID e)))"
    by (rule removeAvailability_effect [OF Cons.prems])
  with Cons.IH [of ab1] show ?case by (auto simp: fun_eq_iff)
qed

lemma removePeer_step_inv:
  assumes inv: "db_inv B (eb, ab)" and rm: "removePeer_loop B p es ab = Ok ab'"
    and del: "deleteByPrefix B eb p = Ok eb'"
  shows "db_inv B (eb', ab')"
proof -
  from inv have "hinted B ab" by (simp add: db_inv_def)
  from removePeer_loop_effect [OF this, of p es] rm have h: "hinted B ab'"
    and own: "own B ab' = (\<lambda>f. if f \<in> e_FileID ` set es then filter (\<lambda>h. h_NodeID h \<noteq> p) (own B ab f) else own B ab f)"
    by auto
  have "complete B eb' ab'"
    using inv unfolding complete_def own
    by (auto simp: complete_def db_inv_def nodes_filter deleteByPrefix_tables(1) [OF del]
        simp del: set_filter split: if_splits)
  with h inv deleteByPrefix_tables(2) [OF del] show ?thesis
    by (simp add: db_inv_def)
qed

lemma RemovePeer_inv: "catalog_inv B s \<Longrightarrow> catalog_inv B (snd (RemovePeer B s p))"
  unfolding RemovePeer_def
  by (rule store_update_inv) (auto simp: outcome_simps intro: removePeer_step_inv)

section \<open>Listings\<close>

lemma live_entries_eq:
  "live_entries kvs = filter (\<lambda>e. \<not> e_Deleted e) (List.map_filter (\<lambda>kv. unmarshal_entry (snd kv)) kvs)"
  by (induction kvs rule: live_entries.induct) (auto simp: List.map_filter_def split: option.split)

lemma set_live_entries:
  "set (live_entries kvs) = {e. \<not> e_Deleted e \<and> (\<exists>kv \<in> set kvs. unmarshal_entry (snd kv) = Some e)}"
  by (induction kvs rule: live_entries.induct) (auto split: option.splits)

lemma distinct_live_entries:
  assumes "distinct (map fst kvs)"
    and "\<And>k v e. (k, v) \<in> set kvs \<Longrightarrow> unmarshal_entry v = Some e \<Longrightarrow>
      k = list_of (compositeKey (e_OwnerNodeID e) (e_FileID e))"
  shows "distinct (live_entries kvs)"
  using assms
proof (induction kvs rule: live_entries.induct)
  case (2 k v kvs)
  have "e \<notin> set (live_entries kvs)" if e: "unmarshal_entry v = Some e" for e
  proof
    assume "e \<in> set (live_entries kvs)"
    then obtain k' v' where "(k', v') \<in> set kvs" "unmarshal_entry v' = Some e"
      by (auto simp: set_live_entries)
    with 2(4-5) e have "(k, v') \<in> set kvs" by (metis list.set_intros)
    with 2(4) show False by force
  qed
  moreover have "distinct (live_entries kvs)" if "unmarshal_entry v = x" for x
    using 2 that by (cases x) (auto split: if_splits)
  ultimately show ?case by (auto split: option.split)
qed simp

lemma set_listByPrefixTx:
  assumes "keyed B eb"
  shows "set (listByPrefixTx B eb a) = {e. \<not> e_Deleted e \<and> e_OwnerNodeID e = a \<and> ent B eb a (e_FileID e) = Some e}"
proof -
  have "(\<exists>kv \<in> set (cursor_prefix B eb (list_of a)). unmarshal_entry (snd kv) = Some e)
    \<longleftrightarrow> e_OwnerNodeID e = a \<and> ent B eb a (e_FileID e) = Some e" (is "?L \<longleftrightarrow> ?R") for e
  proof
    assume ?L
    then obtain k r where k: "prefix (list_of a) k" "bkt_get B eb k = Some r" "unmarshal_entry r = Some e"
      by (auto simp: in_cursor_prefix_iff)
    with assms have "k = list_of (e_OwnerNodeID e) @ list_of (e_FileID e)"
      by (fastforce simp: keyed_def)
    with k show ?R by (auto simp: ent_def)
  next
    assume ?R
    then obtain r where "bkt_get B eb (list_of a @ list_of (e_FileID e)) = Some r" "unmarshal_entry r = Some e"
      by (auto simp: ent_def bind_eq_Some_conv)
    then show ?L by (intro bexI [of _ "(list_of a @ list_of (e_FileID e), r)"]) (simp_all add: in_cursor_prefix_iff)
  qed
  then show ?thesis by (auto simp: listByPrefixTx_def set_live_entries)
qed

lemma foreach_live_ok:
  assumes "\<forall>kv \<in> set kvs. unmarshal_entry (snd kv) \<noteq> None"
  shows "foreach_live keep kvs = Ok (filter keep (live_entries kvs))"
  using assms by (induction kvs rule: live_entries.induct) auto

lemma items_decode:
  assumes "keyed B eb"
  shows "\<forall>kv \<in> set (bkt_items B eb). unmarshal_entry (snd kv) \<noteq> None"
  using assms by (fastforce simp: keyed_def in_items_iff)

lemma set_live_items:
  assumes "keyed B eb"
  shows "set (live_entries (bkt_items B eb)) = {e. \<not> e_Deleted e \<and> ent B eb (e_OwnerNodeID e) (e_FileID e) = Some e}"
proof -
  have "(\<exists>kv \<in> set (bkt_items B eb). unmarshal_entry (snd kv) = Some e)
    \<longleftrightarrow> ent B eb (e_OwnerNodeID e) (e_FileID e) = Some e" (is "?L \<longleftrightarrow> ?R") for e
  proof
    assume ?L
    then obtain k r where k: "bkt_get B eb k = Some r" "unmarshal_entry r = Some e"
      by (auto simp: in_items_iff)
    with assms have "k = list_of (e_OwnerNodeID e) @ list_of (e_FileID e)"
      by (fastforce simp: keyed_def)
    with k show ?R by (auto simp: ent_def)
  next
    assume ?R
    then obtain r where "bkt_get B eb (list_of (e_OwnerNodeID e) @ list_of (e_FileID e)) = Some r"
      "unmarshal_entry r = Some e"
      by (auto simp: ent_def bind_eq_Some_conv)
    then show ?L
      by (intro bexI [of _ "(list_of (e_OwnerNodeID e) @ list_of (e_FileID e), r)"]) (simp_all add: in_items_iff)
  qed
  then show ?thesis by (auto simp: set_live_entries)
qed

end

section \<open>What the transactions do to the tables\<close>

text \<open>
  The entries a peer has after its offer: of several entries for one file the last counts. The
  owner is the peer that sent the offer, whatever the offer says.
\<close>

fun offered :: "(nat \<Rightarrow> gotime) \<Rightarrow> id32 \<Rightarrow> nat \<Rightarrow> entry list \<Rightarrow> id32 \<Rightarrow> entry option" where
  "offered clk p i [] f = None"
| "offered clk p i (e # es) f =
     (case offered clk p (Suc i) es f of
        Some e' \<Rightarrow> Some e'
      | None \<Rightarrow> if e_FileID e = f then Some (stored (e\<lparr>e_OwnerNodeID := p, e_UpdatedAt := clk (2 * i)\<rparr>))
                else None)"

lemma store_update_fst: "fst (store_update B fn s) = fst (db_update B fn (st_db s))"
  by (simp add: store_update_def split: prod.split)

lemma store_update_selfID [simp]: "st_selfID (snd (store_update B fn s)) = st_selfID s"
  by (simp add: store_update_def split: prod.split)

lemma store_update_okE:
  assumes "fst (store_update B fn s) = Ok ()"
  obtains eb ab db' where "st_db s = (eb, ab)" and "fn (eb, ab) = Ok db'"
    and "st_db (snd (store_update B fn s)) = db'" and "bkt_commit B db'"
proof -
  from assms obtain db' where fn: "fn (st_db s) = Ok db'" and c: "bkt_commit B db'"
    by (auto simp: store_update_fst db_update_ok)
  then have "st_db (snd (store_update B fn s)) = db'"
    by (simp add: store_update_def db_update_state)
  with fn c that show ?thesis by (cases "st_db s") auto
qed

lemma store_update_ok_iff:
  assumes "\<And>db. bkt_commit B db"
  shows "fst (store_update B fn s) = Ok () \<longleftrightarrow> (\<exists>db'. fn (st_db s) = Ok db')"
  using assms by (auto simp: store_update_fst db_update_ok)

lemma store_update_atomic:
  "fst (store_update B fn s) \<noteq> Ok () \<Longrightarrow> snd (store_update B fn s) = s"
  using db_update_not_ok [of B fn "st_db s"]
  by (cases "db_update B fn (st_db s)") (simp add: store_update_def)

context bolt_laws
begin

lemma putPeer_loop_ent:
  "putPeer_loop B clk p i es (eb, ab) = Ok db' \<Longrightarrow>
   ent B (fst db') a f = (case (if a = p then offered clk p i es f else None) of
      Some e \<Rightarrow> Some e | None \<Rightarrow> ent B eb a f)"
proof (induction es arbitrary: i eb ab)
  case Nil
  then show ?case by auto
next
  case (Cons e es)
  let ?e = "e\<lparr>e_OwnerNodeID := p, e_UpdatedAt := clk (2 * i)\<rparr>"
  from Cons.prems obtain eb' ab' where put: "putEntry B eb ?e = Ok eb'"
    and rest: "putPeer_loop B clk p (Suc i) es (eb', ab') = Ok db'"
    by (auto simp: Let_def outcome_simps split: if_splits)
  from Cons.IH [OF rest] show ?case
    by (auto simp: putEntry_effect(1) [OF put] split: option.split)
qed

lemma putPeer_loop_ok_iff:
  assumes "db_inv B (eb, ab)" and clk: "\<And>j. json_time_ok (clk j)"
  shows "(\<exists>db'. putPeer_loop B clk p i es (eb, ab) = Ok db') \<longleftrightarrow> (\<forall>e \<in> set es. json_time_ok (e_ModTime e))"
  using assms(1)
proof (induction es arbitrary: i eb ab)
  case Nil
  then show ?case by simp
next
  case (Cons e es)
  let ?e = "e\<lparr>e_OwnerNodeID := p, e_UpdatedAt := clk (2 * i)\<rparr>"
  show ?case
  proof (cases "json_time_ok (e_ModTime e)")
    case False
    then have "\<And>eb'. putEntry B eb ?e \<noteq> Ok eb'"
      by (simp add: putEntry_def marshal_entry_def)
    with False show ?thesis by (auto simp: Let_def outcome_simps)
  next
    case True
    then obtain eb' where put: "putEntry B eb ?e = Ok eb'"
      using putEntry_succeeds [of ?e eb] clk by auto
    from Cons.prems have "hinted B ab" by (simp add: db_inv_def)
    then obtain ab1 where
      "addAvailability B (clk (2 * i + 1)) ab (e_FileID ?e) (e_OwnerNodeID ?e) = Ok ab1"
      using addAvailability_succeeds [OF _ clk] by blast
    then obtain ab' where avail: "if e_Deleted ?e then ab' = ab
        else addAvailability B (clk (2 * i + 1)) ab (e_FileID ?e) (e_OwnerNodeID ?e) = Ok ab'"
      by (cases "e_Deleted e") auto
    have "db_inv B (eb', ab')" by (rule put_step_inv [OF Cons.prems put avail])
    from Cons.IH [OF this] put avail True show ?thesis
      by (cases "e_Deleted e") (simp_all add: Let_def)
  qed
qed

lemma PutPeerEntries_ent:
  assumes "fst (PutPeerEntries B clk s p es) = Ok ()"
  shows "ent B (fst (st_db (snd (PutPeerEntries B clk s p es)))) a f =
    (if a = p then offered clk p 0 es f else ent B (fst (st_db s)) a f)"
proof -
  from assms [unfolded PutPeerEntries_def] obtain eb ab db' where db: "st_db s = (eb, ab)"
    and eq: "obind (owrap ''put peer clear'' (deleteByPrefix B eb p))
        (\<lambda>eb'. putPeer_loop B clk p 0 es (eb', ab)) = Ok db'"
    and s': "st_db (snd (PutPeerEntries B clk s p es)) = db'"
    unfolding PutPeerEntries_def by (rule store_update_okE) auto
  then obtain eb1 where del: "deleteByPrefix B eb p = Ok eb1"
    and loop: "putPeer_loop B clk p 0 es (eb1, ab) = Ok db'"
    by (auto simp: outcome_simps)
  show ?thesis
    using putPeer_loop_ent [OF loop, of a f] deleteByPrefix_tables(1) [OF del]
    by (auto simp: s' db split: option.splits)
qed

lemma PutPeerEntries_ok_iff:
  assumes "catalog_inv B s" and "\<And>j. json_time_ok (clk j)" and "\<And>db. bkt_commit B db"
  shows "fst (PutPeerEntries B clk s p es) = Ok () \<longleftrightarrow> (\<forall>e \<in> set es. json_time_ok (e_ModTime e))"
proof -
  obtain eb ab where db: "st_db s = (eb, ab)" by (cases "st_db s")
  obtain eb1 where del: "deleteByPrefix B eb p = Ok eb1" by (rule deleteByPrefix_effect)
  have "db_inv B (eb1, ab)"
    using assms(1) delete_prefix_inv [OF _ del] by (simp add: catalog_inv_def db)
  then show ?thesis
    using putPeer_loop_ok_iff [OF _ assms(2)] del
    by (simp add: PutPeerEntries_def store_update_ok_iff [OF assms(3)] db)
qed

end

end
