(* ===== verification/Catalog_Spec.thy ===== *)
theory Catalog_Spec
  imports Catalog_Props
begin

text \<open>
  The catalog store seen through its queries: what \<open>GetEntry\<close>, \<open>GetOwners\<close> and the listings return
  after each transaction, for every store that can be reached from an empty database.
\<close>

section \<open>Reachable stores\<close>

text \<open>
  A database file starts without buckets. A store that was closed may be opened again on the buckets
  it left, under any node id.
\<close>

inductive catalog_reach :: "'b bolt \<Rightarrow> 'b store \<Rightarrow> bool" for B :: "'b bolt" where
  reach_open: "Open B (Ok (None, None)) self = Ok s \<Longrightarrow> catalog_reach B s"
| reach_reopen: "catalog_reach B s \<Longrightarrow>
    Open B (Ok (Some (fst (st_db s)), Some (snd (st_db s)))) self = Ok s' \<Longrightarrow> catalog_reach B s'"
| reach_put_local: "catalog_reach B s \<Longrightarrow> catalog_reach B (snd (PutLocal B clk s e))"
| reach_delete_local: "catalog_reach B s \<Longrightarrow> catalog_reach B (snd (DeleteLocal B clk s f))"
| reach_put_peer: "catalog_reach B s \<Longrightarrow> catalog_reach B (snd (PutPeerEntries B clk s p es))"
| reach_remove_peer: "catalog_reach B s \<Longrightarrow> catalog_reach B (snd (RemovePeer B s p))"

context bolt_laws
begin

lemma Open_new_inv: "Open B (Ok (None, None)) self = Ok s \<Longrightarrow> catalog_inv B s"
  by (auto simp: Open_def create_buckets_def Let_def outcome_simps catalog_inv_def db_inv_def keyed_def
      hinted_def complete_def ent_def get_items new_law split: if_splits)

lemma Open_again_inv:
  "catalog_inv B s \<Longrightarrow> Open B (Ok (Some (fst (st_db s)), Some (snd (st_db s)))) self = Ok s' \<Longrightarrow>
   catalog_inv B s'"
  by (auto simp: Open_def create_buckets_def Let_def outcome_simps catalog_inv_def split: if_splits)

lemma catalog_reach_inv: "catalog_reach B s \<Longrightarrow> catalog_inv B s"
  by (induction rule: catalog_reach.induct)
    (auto intro: Open_new_inv Open_again_inv PutLocal_inv DeleteLocal_inv PutPeerEntries_inv RemovePeer_inv)

section \<open>The queries read the tables\<close>

lemma GetEntry_ent: "catalog_inv B s \<Longrightarrow> GetEntry B s a f = Ok (ent B (fst (st_db s)) a f)"
  unfolding catalog_inv_def db_inv_def keyed_def GetEntry_def ent_def
  by (cases "bkt_get B (fst (st_db s)) (list_of (compositeKey a f))") force+

lemma GetOwners_own: "catalog_inv B s \<Longrightarrow> GetOwners B s f = Ok (own B (snd (st_db s)) f)"
  unfolding catalog_inv_def db_inv_def hinted_def GetOwners_def own_def
  by (cases "bkt_get B (snd (st_db s)) (list_of f)") force+

lemma owners_distinct: "catalog_inv B s \<Longrightarrow> distinct (map h_NodeID (own B (snd (st_db s)) f))"
  using hinted_own [of B "snd (st_db s)" f] by (simp add: catalog_inv_def db_inv_def hints_ok_def)

lemma live_owner:
  "catalog_inv B s \<Longrightarrow> ent B (fst (st_db s)) a f = Some e \<Longrightarrow> \<not> e_Deleted e \<Longrightarrow>
   a \<in> h_NodeID ` set (own B (snd (st_db s)) f)"
  by (simp add: catalog_inv_def db_inv_def complete_def)

section \<open>Owners after each transaction\<close>

lemma putPeer_loop_owners:
  "putPeer_loop B clk p i es (eb, ab) = Ok db' \<Longrightarrow>
   h_NodeID ` set (own B (snd db') f) =
     h_NodeID ` set (own B ab f) \<union> {n. n = p \<and> (\<exists>e \<in> set es. e_FileID e = f \<and> \<not> e_Deleted e)}"
proof (induction es arbitrary: i eb ab)
  case Nil
  then show ?case by auto
next
  case (Cons e es)
  let ?e = "e\<lparr>e_OwnerNodeID := p, e_UpdatedAt := clk (2 * i)\<rparr>"
  from Cons.prems obtain eb' ab' where avail: "if e_Deleted e then ab' = ab
      else addAvailability B (clk (2 * i + 1)) ab (e_FileID e) p = Ok ab'"
    and rest: "putPeer_loop B clk p (Suc i) es (eb', ab') = Ok db'"
    by (auto simp: Let_def outcome_simps split: if_splits)
  have "h_NodeID ` set (own B ab' f) =
      h_NodeID ` set (own B ab f) \<union> {n. n = p \<and> e_FileID e = f \<and> \<not> e_Deleted e}"
    using avail addAvailability_effect(1) [of "clk (2 * i + 1)" ab "e_FileID e" p ab']
    by (cases "e_Deleted e") (auto simp: nodes_touch)
  with Cons.IH [OF rest] show ?case by auto
qed

lemma PutPeerEntries_owners:
  assumes "fst (PutPeerEntries B clk s p es) = Ok ()"
  shows "h_NodeID ` set (own B (snd (st_db (snd (PutPeerEntries B clk s p es)))) f) =
    h_NodeID ` set (own B (snd (st_db s)) f) \<union> {n. n = p \<and> (\<exists>e \<in> set es. e_FileID e = f \<and> \<not> e_Deleted e)}"
proof -
  from assms [unfolded PutPeerEntries_def] obtain eb ab db' where db: "st_db s = (eb, ab)"
    and eq: "obind (owrap ''put peer clear'' (deleteByPrefix B eb p))
        (\<lambda>eb'. putPeer_loop B clk p 0 es (eb', ab)) = Ok db'"
    and s': "st_db (snd (PutPeerEntries B clk s p es)) = db'"
    unfolding PutPeerEntries_def by (rule store_update_okE) auto
  then obtain eb1 where loop: "putPeer_loop B clk p 0 es (eb1, ab) = Ok db'"
    by (auto simp: outcome_simps)
  show ?thesis using putPeer_loop_owners [OF loop, of f] by (simp add: s' db)
qed

lemma RemovePeer_effect:
  assumes "catalog_inv B s" and "\<And>db. bkt_commit B db"
  obtains eb' ab' where "fst (RemovePeer B s p) = Ok ()" and "st_db (snd (RemovePeer B s p)) = (eb', ab')"
    and "ent B eb' = (\<lambda>a f. if a = p then None else ent B (fst (st_db s)) a f)"
    and "own B ab' = (\<lambda>f. if \<exists>e. ent B (fst (st_db s)) p f = Some e \<and> \<not> e_Deleted e
           then filter (\<lambda>h. h_NodeID h \<noteq> p) (own B (snd (st_db s)) f) else own B (snd (st_db s)) f)"
proof -
  obtain eb ab where db: "st_db s = (eb, ab)" by (cases "st_db s")
  from assms(1) have inv: "keyed B eb" "hinted B ab" by (simp_all add: catalog_inv_def db_inv_def db)
  let ?es = "listByPrefixTx B eb p"
  obtain ab' where ab': "removePeer_loop B p ?es ab = Ok ab'"
    and own: "own B ab' = (\<lambda>f. if f \<in> e_FileID ` set ?es then filter (\<lambda>h. h_NodeID h \<noteq> p) (own B ab f) else own B ab f)"
    using removePeer_loop_effect [OF inv(2)] by blast
  obtain eb' where eb': "deleteByPrefix B eb p = Ok eb'" by (rule deleteByPrefix_effect)
  have "f \<in> e_FileID ` set ?es \<longleftrightarrow> (\<exists>e. ent B eb p f = Some e \<and> \<not> e_Deleted e)" for f
  proof
    assume "f \<in> e_FileID ` set ?es"
    then show "\<exists>e. ent B eb p f = Some e \<and> \<not> e_Deleted e"
      by (auto simp: set_listByPrefixTx [OF inv(1)])
  next
    assume "\<exists>e. ent B eb p f = Some e \<and> \<not> e_Deleted e"
    then obtain e where e: "ent B eb p f = Some e" "\<not> e_Deleted e" by blast
    with keyed_ent [OF inv(1) e(1)] have "e \<in> set ?es" and "f = e_FileID e"
      by (auto simp: set_listByPrefixTx [OF inv(1)])
    then show "f \<in> e_FileID ` set ?es" by blast
  qed
  then have own': "own B ab' = (\<lambda>f. if \<exists>e. ent B eb p f = Some e \<and> \<not> e_Deleted e
      then filter (\<lambda>h. h_NodeID h \<noteq> p) (own B ab f) else own B ab f)"
    by (simp add: own)
  have upd: "RemovePeer B s p = (Ok (), s\<lparr>st_db := (eb', ab')\<rparr>)"
    using ab' eb' assms(2) by (simp add: RemovePeer_def store_update_def db db_update_def)
  show ?thesis
  proof (rule that)
    show "fst (RemovePeer B s p) = Ok ()" "st_db (snd (RemovePeer B s p)) = (eb', ab')"
      by (simp_all add: upd)
    show "ent B eb' = (\<lambda>a f. if a = p then None else ent B (fst (st_db s)) a f)"
      by (simp add: db fun_eq_iff deleteByPrefix_tables(1) [OF eb'])
  qed (simp add: own' db cong: if_cong)
qed

lemma PutLocal_effect:
  assumes "catalog_inv B s" and "json_time_ok (clk 0)" and "json_time_ok (clk 1)"
    and "json_time_ok (e_ModTime e)" and "\<And>db. bkt_commit B db"
  obtains eb' ab' where "fst (PutLocal B clk s e) = Ok ()" and "st_db (snd (PutLocal B clk s e)) = (eb', ab')"
    and "ent B eb' = (\<lambda>a f. if a = st_selfID s \<and> f = e_FileID e
       then Some (stored (e\<lparr>e_OwnerNodeID := st_selfID s, e_UpdatedAt := clk 0, e_Deleted := False\<rparr>))
       else ent B (fst (st_db s)) a f)"
    and "own B ab' = (own B (snd (st_db s)))(e_FileID e := touch_hint (st_selfID s) (clk 1) (own B (snd (st_db s)) (e_FileID e)))"
proof -
  obtain eb ab where db: "st_db s = (eb, ab)" by (cases "st_db s")
  let ?e = "e\<lparr>e_OwnerNodeID := st_selfID s, e_UpdatedAt := clk 0, e_Deleted := False\<rparr>"
  from assms(1) have h: "hinted B ab" by (simp_all add: catalog_inv_def db_inv_def db)
  obtain eb' where put: "putEntry B eb ?e = Ok eb'"
    using putEntry_succeeds [of ?e eb] assms(2,4) by auto
  obtain ab' where add: "addAvailability B (clk 1) ab (e_FileID e) (st_selfID s) = Ok ab'"
    using addAvailability_succeeds [OF h assms(3)] by blast
  have upd: "PutLocal B clk s e = (Ok (), s\<lparr>st_db := (eb', ab')\<rparr>)"
    using put add assms(5) by (simp add: PutLocal_def store_update_def db db_update_def)
  show ?thesis
  proof (rule that)
    show "fst (PutLocal B clk s e) = Ok ()" "st_db (snd (PutLocal B clk s e)) = (eb', ab')"
      by (simp_all add: upd)
  qed (simp_all add: db fun_eq_iff putEntry_effect(1) [OF put] addAvailability_effect(1) [OF add])
qed

end

context bolt_laws
begin

lemma DeleteLocal_effect:
  assumes inv: "catalog_inv B s" and "json_time_ok (clk 0)" and "\<And>db. bkt_commit B db"
    and e: "ent B (fst (st_db s)) (st_selfID s) f = Some e"
  obtains eb' ab' where "fst (DeleteLocal B clk s f) = Ok ()" and "st_db (snd (DeleteLocal B clk s f)) = (eb', ab')"
    and "ent B eb' = (\<lambda>a g. if a = st_selfID s \<and> g = f
       then Some (e\<lparr>e_Deleted := True, e_UpdatedAt := clk 0\<rparr>) else ent B (fst (st_db s)) a g)"
    and "own B ab' = (own B (snd (st_db s)))(f := filter (\<lambda>h. h_NodeID h \<noteq> st_selfID s) (own B (snd (st_db s)) f))"
proof -
  obtain eb ab where db: "st_db s = (eb, ab)" by (cases "st_db s")
  from inv have k: "keyed B eb" and h: "hinted B ab" by (simp_all add: catalog_inv_def db_inv_def db)
  let ?e = "e\<lparr>e_Deleted := True, e_UpdatedAt := clk 0\<rparr>"
  from keyed_ent [OF k] e have ids: "e_OwnerNodeID e = st_selfID s" "e_FileID e = f"
    and st: "stored e = e" and mt: "json_time_ok (e_ModTime e)"
    by (auto simp: db)
  from st have st': "stored ?e = ?e" by (simp add: stored_eq_iff)
  from e obtain raw where raw: "bkt_get B eb (list_of (compositeKey (st_selfID s) f)) = Some raw"
    "unmarshal_entry raw = Some e"
    by (auto simp: ent_def db bind_eq_Some_conv)
  obtain eb' where put: "putEntry B eb ?e = Ok eb'"
    using putEntry_succeeds [of ?e eb] assms(2) mt by auto
  obtain ab' where rm: "removeAvailability B ab f (st_selfID s) = Ok ab'"
    and own: "own B ab' = (own B ab)(f := filter (\<lambda>h. h_NodeID h \<noteq> st_selfID s) (own B ab f))"
    by (rule removeAvailability_effect [OF h])
  have upd: "DeleteLocal B clk s f = (Ok (), s\<lparr>st_db := (eb', ab')\<rparr>)"
    using put rm raw assms(3) by (simp add: DeleteLocal_def store_update_def db db_update_def)
  show ?thesis
  proof (rule that)
    show "fst (DeleteLocal B clk s f) = Ok ()" "st_db (snd (DeleteLocal B clk s f)) = (eb', ab')"
      by (simp_all add: upd)
  qed (simp_all add: db own fun_eq_iff putEntry_effect(1) [OF put] st' ids)
qed

lemma ListForPeer_spec:
  assumes "catalog_inv B s"
  obtains es where "ListForPeer B s x = Ok es" and "distinct es"
    and "set es = {e. \<not> e_Deleted e \<and> ent B (fst (st_db s)) (e_OwnerNodeID e) (e_FileID e) = Some e \<and> e_OwnerNodeID e \<noteq> x}"
proof -
  from assms have k: "keyed B (fst (st_db s))" by (simp add: catalog_inv_def db_inv_def)
  let ?es = "live_entries (bkt_items B (fst (st_db s)))"
  have "distinct ?es"
    by (rule distinct_live_entries [OF items_distinct])
      (use k in \<open>fastforce simp: keyed_def in_items_iff\<close>)
  then show ?thesis
    using that [of "filter (\<lambda>e. e_OwnerNodeID e \<noteq> x) ?es"] foreach_live_ok [OF items_decode [OF k]]
    by (auto simp: ListForPeer_def set_live_items [OF k])
qed

lemma ListAll_spec:
  assumes "catalog_inv B s"
  obtains es where "ListAll B s = Ok es" and "distinct es" and "set es = {e. \<not> e_Deleted e \<and> ent B (fst (st_db s)) (e_OwnerNodeID e) (e_FileID e) = Some e}"
proof -
  from assms have k: "keyed B (fst (st_db s))" by (simp add: catalog_inv_def db_inv_def)
  have "distinct (live_entries (bkt_items B (fst (st_db s))))"
    by (rule distinct_live_entries [OF items_distinct]) (use k in \<open>fastforce simp: keyed_def in_items_iff\<close>)
  then show thesis
    using that [OF _ _ set_live_items [OF k]] foreach_live_ok [OF items_decode [OF k], of "\<lambda>e. True"] by (simp add: ListAll_def)
qed

lemma LookupLocalByPath_spec:
  assumes "catalog_inv B s"
  shows "LookupLocalByPath B s path = None \<longleftrightarrow>
      (\<forall>f e. ent B (fst (st_db s)) (st_selfID s) f = Some e \<longrightarrow> \<not> e_Deleted e \<longrightarrow> e_LocalPath e \<noteq> path)"
    and "LookupLocalByPath B s path = Some e \<Longrightarrow>
      ent B (fst (st_db s)) (st_selfID s) (e_FileID e) = Some e \<and> \<not> e_Deleted e \<and> e_LocalPath e = path"
proof -
  from assms have k: "keyed B (fst (st_db s))" by (simp add: catalog_inv_def db_inv_def)
  note set = set_listByPrefixTx [OF k, of "st_selfID s", unfolded listByPrefixTx_def]
  show "LookupLocalByPath B s path = None \<longleftrightarrow>
      (\<forall>f e. ent B (fst (st_db s)) (st_selfID s) f = Some e \<longrightarrow> \<not> e_Deleted e \<longrightarrow> e_LocalPath e \<noteq> path)"
    using keyed_ent [OF k] by (fastforce simp: LookupLocalByPath_def find_None_iff set)
  show "ent B (fst (st_db s)) (st_selfID s) (e_FileID e) = Some e \<and> \<not> e_Deleted e \<and> e_LocalPath e = path"
    if "LookupLocalByPath B s path = Some e"
  proof -
    from that have "e \<in> set (live_entries (cursor_prefix B (fst (st_db s)) (list_of (st_selfID s))))"
      and "e_LocalPath e = path"
      by (auto simp: LookupLocalByPath_def find_Some_iff)
    then show ?thesis by (simp add: set)
  qed
qed

end

section \<open>Properties\<close>

text \<open>A store with one shared file, for the witnesses.\<close>

abbreviation ex_store :: "ref_bucket store" where
  "ex_store \<equiv> \<lparr>st_db = ([], []), st_selfID = arr_of [1]\<rparr>"

abbreviation ex_entry :: "byte \<Rightarrow> entry" where
  "ex_entry n \<equiv> \<lparr>e_FileID = arr_of [n], e_Name = ''a'', e_Size = 3, e_ModTime = 0,
     e_OwnerNodeID = arr_of [9], e_LocalPath = ''/a'', e_Deleted = False, e_UpdatedAt = 0\<rparr>"

lemma ascii_ex: "to_utf8 ''a'' = ''a''" "to_utf8 ''/a'' = ''/a''"
  by (simp_all add: to_utf8_ascii char_byte_def)

lemma json_time_ok_0 [simp]: "json_time_ok 0"
  by (simp add: json_time_ok_def time_min_def time_max_def)

lemma ex_reach: "catalog_reach ref_bolt ex_store"
  by (rule reach_open [where self = "arr_of [1]"]) (simp add: Open_def create_buckets_def)

lemmas ex_inv = ref.catalog_reach_inv [OF ex_reach]

abbreviation ex_store1 :: "ref_bucket store" where
  "ex_store1 \<equiv> snd (PutLocal ref_bolt (\<lambda>_. 0) ex_store (ex_entry 7))"

lemma ex_reach1: "catalog_reach ref_bolt ex_store1"
  by (rule reach_put_local [OF ex_reach])

lemma ex_get1: "GetEntry ref_bolt ex_store1 (arr_of [1]) (arr_of [7]) = Ok (Some ((ex_entry 7)\<lparr>e_OwnerNodeID := arr_of [1]\<rparr>))"
proof -
  obtain eb' ab' where "st_db ex_store1 = (eb', ab')"
    and "ent ref_bolt eb' = (\<lambda>a f. if a = st_selfID ex_store \<and> f = e_FileID (ex_entry 7)
       then Some (stored ((ex_entry 7)\<lparr>e_OwnerNodeID := st_selfID ex_store, e_UpdatedAt := 0, e_Deleted := False\<rparr>))
       else ent ref_bolt (fst (st_db ex_store)) a f)"
    by (rule ref.PutLocal_effect [OF ex_inv, where clk = "\<lambda>_. 0" and e = "ex_entry 7"]) simp_all
  then show ?thesis
    using ref.GetEntry_ent [OF ref.catalog_reach_inv [OF ex_reach1]] by (simp add: stored_def ascii_ex)
qed

text \<open>
  C1. In every store reached from a new database by any sequence of \<open>PutLocal\<close>, \<open>DeleteLocal\<close>,
  \<open>PutPeerEntries\<close>, \<open>RemovePeer\<close> and \<open>Open\<close> calls, failed ones included, the owner of a live
  entry is among the hints \<open>GetOwners\<close> returns for its file, and no node is hinted twice: the
  availability index never misses an owner.
\<close>

theorem live_owner_is_hinted:
  assumes "bolt_laws B" and "catalog_reach B s"
    and "GetEntry B s a f = Ok (Some e)" and "\<not> e_Deleted e"
  shows "\<exists>hs. GetOwners B s f = Ok hs \<and> a \<in> h_NodeID ` set hs \<and> distinct (map h_NodeID hs)"
proof -
  note inv = bolt_laws.catalog_reach_inv [OF assms(1,2)]
  have "ent B (fst (st_db s)) a f = Some e"
    using assms(3) bolt_laws.GetEntry_ent [OF assms(1) inv] by simp
  then show ?thesis
    using bolt_laws.live_owner [OF assms(1) inv _ assms(4)] bolt_laws.GetOwners_own [OF assms(1) inv]
      bolt_laws.owners_distinct [OF assms(1) inv] by blast
qed

theorem live_owner_is_hinted_witness:
  "\<exists>hs. GetOwners ref_bolt ex_store1 (arr_of [7]) = Ok hs \<and> arr_of [1] \<in> h_NodeID ` set hs \<and>
    distinct (map h_NodeID hs)"
  by (rule live_owner_is_hinted [OF ref.bolt_laws_axioms ex_reach1 ex_get1]) simp

text \<open>
  C2. \<open>PutPeerEntries\<close> replaces the peer's entries: after a call that returned nil, the peer has
  exactly the offered entries (the last one where a file is offered twice, with the peer as owner
  whatever the offer says), and every other owner's entries are as before.
\<close>

theorem put_peer_replaces:
  assumes "bolt_laws B" and "catalog_reach B s" and "fst (PutPeerEntries B clk s p es) = Ok ()"
  shows "GetEntry B (snd (PutPeerEntries B clk s p es)) a f =
    (if a = p then Ok (offered clk p 0 es f) else GetEntry B s a f)"
proof -
  note inv = bolt_laws.catalog_reach_inv [OF assms(1,2)]
  have inv': "catalog_inv B (snd (PutPeerEntries B clk s p es))"
    by (rule bolt_laws.PutPeerEntries_inv [OF assms(1) inv])
  show ?thesis
    using bolt_laws.PutPeerEntries_ent [OF assms(1,3)]
    by (simp add: bolt_laws.GetEntry_ent [OF assms(1) inv] bolt_laws.GetEntry_ent [OF assms(1) inv'])
qed

lemma ex_put_peer_ok: "fst (PutPeerEntries ref_bolt (\<lambda>_. 0) ex_store1 (arr_of [2]) [ex_entry 7, ex_entry 8]) = Ok ()"
  by (subst ref.PutPeerEntries_ok_iff [OF ref.catalog_reach_inv [OF ex_reach1]]) simp_all

theorem put_peer_replaces_witness:
  "GetEntry ref_bolt (snd (PutPeerEntries ref_bolt (\<lambda>_. 0) ex_store1 (arr_of [2]) [ex_entry 7, ex_entry 8]))
     (arr_of [2]) (arr_of [8]) = Ok (Some ((ex_entry 8)\<lparr>e_OwnerNodeID := arr_of [2]\<rparr>))"
  by (subst put_peer_replaces [OF ref.bolt_laws_axioms ex_reach1 ex_put_peer_ok])
    (simp add: stored_def ascii_ex)

text \<open>
  With a clock and a disk that work, \<open>PutPeerEntries\<close> succeeds exactly when every offered
  modification time lies in the years 0..9999, and otherwise leaves the store as it was: one entry
  with an absurd time makes the whole offer fail, and no part of it is kept.
\<close>

lemma put_peer_all_or_nothing:
  assumes "bolt_laws B" and "catalog_reach B s" and "\<forall>j. json_time_ok (clk j)" and "\<forall>db. bkt_commit B db"
  shows "if \<forall>e \<in> set es. json_time_ok (e_ModTime e)
    then fst (PutPeerEntries B clk s p es) = Ok ()
    else fst (PutPeerEntries B clk s p es) \<noteq> Ok () \<and> snd (PutPeerEntries B clk s p es) = s"
proof -
  have ok: "fst (PutPeerEntries B clk s p es) = Ok () \<longleftrightarrow> (\<forall>e \<in> set es. json_time_ok (e_ModTime e))"
    using bolt_laws.PutPeerEntries_ok_iff [OF assms(1) bolt_laws.catalog_reach_inv [OF assms(1,2)]] assms(3,4)
    by blast
  have "fst (PutPeerEntries B clk s p es) \<noteq> Ok () \<Longrightarrow> snd (PutPeerEntries B clk s p es) = s"
    unfolding PutPeerEntries_def by (rule store_update_atomic)
  with ok show ?thesis by simp
qed

text \<open>
  After \<open>RemovePeer\<close> the peer has no entry left, every other owner's entries are as before, and
  the hints of a file lose exactly the peer when the peer had a live entry for it.
\<close>

lemma remove_peer_clears:
  assumes "bolt_laws B" and "catalog_reach B s" and "\<forall>db. bkt_commit B db"
  shows "fst (RemovePeer B s p) = Ok () \<and>
    GetEntry B (snd (RemovePeer B s p)) a f = (if a = p then Ok None else GetEntry B s a f) \<and>
    (GetEntry B s p f = Ok (Some e) \<and> \<not> e_Deleted e \<longrightarrow>
      (\<exists>hs. GetOwners B s f = Ok hs \<and>
        GetOwners B (snd (RemovePeer B s p)) f = Ok (filter (\<lambda>h. h_NodeID h \<noteq> p) hs)))"
proof -
  note inv = bolt_laws.catalog_reach_inv [OF assms(1,2)]
  note inv' = bolt_laws.RemovePeer_inv [OF assms(1) inv, of p]
  obtain eb' ab' where eff: "fst (RemovePeer B s p) = Ok ()" "st_db (snd (RemovePeer B s p)) = (eb', ab')"
    "ent B eb' = (\<lambda>a f. if a = p then None else ent B (fst (st_db s)) a f)"
    "own B ab' = (\<lambda>f. if \<exists>e. ent B (fst (st_db s)) p f = Some e \<and> \<not> e_Deleted e
       then filter (\<lambda>h. h_NodeID h \<noteq> p) (own B (snd (st_db s)) f) else own B (snd (st_db s)) f)"
    using bolt_laws.RemovePeer_effect [OF assms(1) inv, of p] assms(3) by blast
  note q = bolt_laws.GetEntry_ent [OF assms(1)] bolt_laws.GetOwners_own [OF assms(1)]
  show ?thesis
    using eff(1) by (simp add: q inv inv' eff(2-4))
qed

text \<open>
  What is offered to a peer: \<open>ListForPeer\<close> returns, without repetition, exactly the live
  entries of every owner but that peer. A node is never offered its own entries back.
\<close>

lemma list_for_peer_exact:
  assumes "bolt_laws B" and "catalog_reach B s"
  shows "\<exists>es. ListForPeer B s x = Ok es \<and> distinct es \<and>
    (\<forall>e. e \<in> set es \<longleftrightarrow> \<not> e_Deleted e \<and> e_OwnerNodeID e \<noteq> x \<and>
       GetEntry B s (e_OwnerNodeID e) (e_FileID e) = Ok (Some e))"
proof -
  note inv = bolt_laws.catalog_reach_inv [OF assms]
  show ?thesis
    by (rule bolt_laws.ListForPeer_spec [OF assms(1) inv, of x])
      (auto simp: bolt_laws.GetEntry_ent [OF assms(1) inv])
qed

text \<open>
  \<open>DeleteLocal\<close> leaves a tombstone: the entry stays, marked as deleted with the time of the
  deletion, this node is no longer hinted as an owner, and every other entry is as before.
\<close>

lemma delete_local_tombstone:
  assumes "bolt_laws B" and "catalog_reach B s" and "\<forall>db. bkt_commit B db"
    and "json_time_ok (clk 0)" and "GetEntry B s (st_selfID s) f = Ok (Some e)"
  shows "GetEntry B (snd (DeleteLocal B clk s f)) a g =
      (if a = st_selfID s \<and> g = f then Ok (Some (e\<lparr>e_Deleted := True, e_UpdatedAt := clk 0\<rparr>))
       else GetEntry B s a g) \<and>
    (\<exists>hs. GetOwners B (snd (DeleteLocal B clk s f)) f = Ok hs \<and> st_selfID s \<notin> h_NodeID ` set hs)"
proof -
  note inv = bolt_laws.catalog_reach_inv [OF assms(1,2)]
  note inv' = bolt_laws.DeleteLocal_inv [OF assms(1) inv, of clk f]
  note q = bolt_laws.GetEntry_ent [OF assms(1)] bolt_laws.GetOwners_own [OF assms(1)]
  have e: "ent B (fst (st_db s)) (st_selfID s) f = Some e" using assms(5) by (simp add: q inv)
  obtain eb' ab' where eff: "st_db (snd (DeleteLocal B clk s f)) = (eb', ab')"
    "ent B eb' = (\<lambda>a g. if a = st_selfID s \<and> g = f
       then Some (e\<lparr>e_Deleted := True, e_UpdatedAt := clk 0\<rparr>) else ent B (fst (st_db s)) a g)"
    "own B ab' = (own B (snd (st_db s)))(f := filter (\<lambda>h. h_NodeID h \<noteq> st_selfID s) (own B (snd (st_db s)) f))"
    by (rule bolt_laws.DeleteLocal_effect [where clk = clk, OF assms(1) inv assms(4) spec [OF assms(3)] e])
  show ?thesis by (auto simp: q inv inv' eff)
qed

text \<open>
  \<open>PutPeerEntries\<close> adds the peer to the hints of the live files it offers and takes nobody
  out: a file the peer no longer offers keeps its hint, although the peer's entry for it is gone.
\<close>

lemma put_peer_owners_only_grow:
  assumes "bolt_laws B" and "catalog_reach B s" and "fst (PutPeerEntries B clk s p es) = Ok ()"
  shows "\<exists>hs hs'. GetOwners B s f = Ok hs \<and> GetOwners B (snd (PutPeerEntries B clk s p es)) f = Ok hs' \<and>
    h_NodeID ` set hs' = h_NodeID ` set hs \<union> {n. n = p \<and> (\<exists>e \<in> set es. e_FileID e = f \<and> \<not> e_Deleted e)}"
proof -
  note inv = bolt_laws.catalog_reach_inv [OF assms(1,2)]
  note inv' = bolt_laws.PutPeerEntries_inv [OF assms(1) inv, of clk p es]
  show ?thesis
    using bolt_laws.PutPeerEntries_owners [OF assms(1,3), of f]
    by (simp add: bolt_laws.GetOwners_own [OF assms(1)] inv inv')
qed

lemma ex_offer_ok: "fst (PutPeerEntries ref_bolt (\<lambda>_. 0) ex_store (arr_of [2]) [ex_entry 7]) = Ok ()"
  by (subst ref.PutPeerEntries_ok_iff [OF ex_inv]) simp_all

abbreviation ex_store2 :: "ref_bucket store" where
  "ex_store2 \<equiv> snd (PutPeerEntries ref_bolt (\<lambda>_. 0) ex_store (arr_of [2]) [ex_entry 7])"

lemma ex_reach2: "catalog_reach ref_bolt ex_store2"
  by (rule reach_put_peer [OF ex_reach])

lemma ex_withdraw_ok: "fst (PutPeerEntries ref_bolt (\<lambda>_. 0) ex_store2 (arr_of [2]) []) = Ok ()"
  by (subst ref.PutPeerEntries_ok_iff [OF ref.catalog_reach_inv [OF ex_reach2]]) simp_all

text \<open>
  A file whose path is not UTF-8 is never found by \<open>LookupLocalByPath\<close>: JSON stores the path
  with the offending bytes replaced, so the path the watcher looks up on removal never matches.
\<close>

lemma lookup_misses_non_utf8:
  assumes "bolt_laws B" and "catalog_reach B s" and "to_utf8 path \<noteq> path"
  shows "LookupLocalByPath B s path = None"
proof -
  note inv = bolt_laws.catalog_reach_inv [OF assms(1,2)]
  then have "keyed B (fst (st_db s))" by (simp add: catalog_inv_def db_inv_def)
  then show ?thesis
    using bolt_laws.LookupLocalByPath_spec(1) [OF assms(1) inv] keyed_ent assms(3)
    by (metis stored_eq_iff)
qed

lemma ex_not_utf8: "to_utf8 [CHR 0xFF] \<noteq> [CHR 0xFF]"
  by code_simp

text \<open>
  An entry that goes over the wire comes back with its ids, name, size and flag, its time
  cut to whole seconds and no local path or update time: the path of a shared file is never sent.
\<close>

lemma proto_round_trip:
  assumes "time_min \<le> e_ModTime e" and "e_ModTime e < time_max"
  shows "ProtoToEntry (EntryToProto e) =
    Ok (e\<lparr>e_ModTime := e_ModTime e div second * second, e_LocalPath := '''', e_UpdatedAt := zero_time\<rparr>)"
  by (cases e) (use assms in \<open>simp add: ProtoToEntry_def EntryToProto_def time_min_def time_max_def from_unix_unix\<close>)

end
