(* ===== verification/Base64.thy ===== *)
theory Base64
  imports Kin_Prelude
begin

text \<open>
  \<open>base64.RawURLEncoding\<close>: the URL alphabet without padding. The decoder skips line breaks wherever
  they stand, and ignores the bits of the last character that do not make up a byte.
\<close>

definition b64_alphabet :: string where
  "b64_alphabet = ''ABCDEFGHIJKLMNOPQRSTUVWXYZabcdefghijklmnopqrstuvwxyz0123456789-_''"

definition b64_char :: "byte \<Rightarrow> char" where
  "b64_char v = b64_alphabet ! unat v"

fun b64_index :: "string \<Rightarrow> char \<Rightarrow> byte \<Rightarrow> byte option" where
  "b64_index [] c i = None"
| "b64_index (x # xs) c i = (if x = c then Some i else b64_index xs c (i + 1))"

definition b64_val :: "char \<Rightarrow> byte option" where
  "b64_val c = b64_index b64_alphabet c 0"

fun b64_sextets :: "bytes \<Rightarrow> bytes" where
  "b64_sextets [] = []"
| "b64_sextets [a] = [drop_bit 2 a, push_bit 4 (a AND 3)]"
| "b64_sextets [a, b] = [drop_bit 2 a, push_bit 4 (a AND 3) OR drop_bit 4 b, push_bit 2 (b AND 15)]"
| "b64_sextets (a # b # c # r) =
     drop_bit 2 a # (push_bit 4 (a AND 3) OR drop_bit 4 b) # (push_bit 2 (b AND 15) OR drop_bit 6 c)
       # (c AND 63) # b64_sextets r"

definition b64_encode :: "bytes \<Rightarrow> string" where
  "b64_encode bs = map b64_char (b64_sextets bs)"

fun b64_bytes :: "bytes \<Rightarrow> bytes option" where
  "b64_bytes [] = Some []"
| "b64_bytes [x] = None"
| "b64_bytes [x, y] = Some [push_bit 2 x OR drop_bit 4 y]"
| "b64_bytes [x, y, z] = Some [push_bit 2 x OR drop_bit 4 y, push_bit 4 y OR drop_bit 2 z]"
| "b64_bytes (x # y # z # w # r) =
     map_option (\<lambda>bs. (push_bit 2 x OR drop_bit 4 y) # (push_bit 4 y OR drop_bit 2 z) # (push_bit 6 z OR w) # bs)
       (b64_bytes r)"

definition b64_line_break :: "char \<Rightarrow> bool" where
  "b64_line_break c \<longleftrightarrow> c = CHR 0x0A \<or> c = CHR 0x0D"

definition b64_decode :: "string \<Rightarrow> bytes option" where
  "b64_decode s = Option.bind (those (map b64_val (filter (\<lambda>c. \<not> b64_line_break c) s))) b64_bytes"

section \<open>Round trip\<close>

lemma b64_table:
  "list_all (\<lambda>n. b64_val (b64_alphabet ! n) = Some (of_nat n) \<and> \<not> b64_line_break (b64_alphabet ! n)) [0..<64]"
  by code_simp

lemma b64_val_char: "v < 64 \<Longrightarrow> b64_val (b64_char v) = Some v \<and> \<not> b64_line_break (b64_char v)"
proof -
  assume "v < 64"
  then have "unat v < 64" by (simp add: word_less_nat_alt)
  then have "unat v \<in> set [0..<64]" by simp
  with b64_table [unfolded list_all_iff] have
    "b64_val (b64_alphabet ! unat v) = Some (of_nat (unat v)) \<and> \<not> b64_line_break (b64_alphabet ! unat v)"
    by blast
  then show ?thesis by (simp add: b64_char_def)
qed

text \<open>A byte is below 64 when its two high bits are clear.\<close>

lemma sextet_less: "\<not> bit v 6 \<Longrightarrow> \<not> bit v 7 \<Longrightarrow> (v :: byte) < 64"
proof -
  assume "\<not> bit v 6" and "\<not> bit v 7"
  have "v = take_bit 6 v"
  proof (rule bit_word_eqI)
    fix n assume "n < LENGTH(8)"
    then consider "n < 6" | "n = 6" | "n = 7" by fastforce
    then show "bit v n = bit (take_bit 6 v) n"
      by cases (simp_all add: bit_simps \<open>\<not> bit v 6\<close> \<open>\<not> bit v 7\<close>)
  qed
  then have "uint v = uint (take_bit 6 v)" by simp
  also have "\<dots> = take_bit 6 (uint v)" by (rule unsigned_take_bit_eq)
  also have "\<dots> < 64" by (simp add: take_bit_eq_mod)
  finally show ?thesis by (simp add: word_less_def)
qed

lemma bit_byte_high [simp]: "8 \<le> n \<Longrightarrow> \<not> bit (a :: byte) n"
  using bit_imp_le_length [of a n] by auto

lemma sextets_less:
  fixes a b c :: byte
  shows "drop_bit 2 a < 64" and "push_bit 4 (a AND 3) < 64" and "push_bit 2 (a AND 15) < 64" and "a AND 63 < 64"
    and "push_bit 4 (a AND 3) OR drop_bit 4 b < 64" and "push_bit 2 (a AND 15) OR drop_bit 6 b < 64"
  by (rule sextet_less; simp add: bit_simps bit_numeral_rec)+

lemma b64_sextets_less: "v \<in> set (b64_sextets bs) \<Longrightarrow> v < 64"
  by (induction bs rule: b64_sextets.induct) (auto simp only: b64_sextets.simps list.set insert_iff empty_iff sextets_less)

lemma byte_eqI:
  fixes a b :: byte
  assumes "bit a 0 = bit b 0" "bit a 1 = bit b 1" "bit a 2 = bit b 2" "bit a 3 = bit b 3"
    "bit a 4 = bit b 4" "bit a 5 = bit b 5" "bit a 6 = bit b 6" "bit a 7 = bit b 7"
  shows "a = b"
proof (rule bit_word_eqI)
  fix n assume "n < LENGTH(8)"
  then consider "n = 0" | "n = 1" | "n = 2" | "n = 3" | "n = 4" | "n = 5" | "n = 6" | "n = 7" by fastforce
  then show "bit a n = bit b n" by cases (simp_all only: assms)
qed

lemma sextets_join:
  fixes a b c :: byte
  shows "push_bit 2 (drop_bit 2 a) OR drop_bit 4 (push_bit 4 (a AND 3)) = a"
    and "push_bit 2 (drop_bit 2 a) OR drop_bit 4 (push_bit 4 (a AND 3) OR drop_bit 4 b) = a"
    and "push_bit 4 (push_bit 4 (a AND 3) OR drop_bit 4 b) OR drop_bit 2 (push_bit 2 (b AND 15)) = b"
    and "push_bit 4 (push_bit 4 (a AND 3) OR drop_bit 4 b) OR drop_bit 2 (push_bit 2 (b AND 15) OR drop_bit 6 c) = b"
    and "push_bit 6 (push_bit 2 (b AND 15) OR drop_bit 6 c) OR (c AND 63) = c"
  by (rule byte_eqI; simp add: bit_simps bit_numeral_rec)+

lemma b64_bytes_sextets [simp]: "b64_bytes (b64_sextets bs) = Some bs"
  by (induction bs rule: b64_sextets.induct)
    (simp_all only: b64_sextets.simps b64_bytes.simps sextets_join option.map)

lemma b64_decode_encode [simp]: "b64_decode (b64_encode bs) = Some bs"
proof -
  have "those (map b64_val (filter (\<lambda>c. \<not> b64_line_break c) (map b64_char vs))) = Some vs"
    if "\<forall>v \<in> set vs. v < 64" for vs
    using that by (induction vs) (auto simp: b64_val_char)
  then show ?thesis
    using b64_sextets_less by (simp add: b64_decode_def b64_encode_def)
qed

end
