(* ===== verification/Go_Fs.thy ===== *)
theory Go_Fs
  imports Kin_Prelude
begin

text \<open>
  Paths and files as the code uses them (\<open>path/filepath\<close> and \<open>os\<close> on Unix): lexical cleaning, joining
  and base names, and a file system of regular files and directories under clean paths.

  Every system call may fail for a reason of its own (permissions, a full disk): \<open>fs_fail\<close> tells which of
  the calls do, numbered from the start by \<open>fs_calls\<close>. A call that fails leaves the files alone.
\<close>

section \<open>Paths\<close>

abbreviation sep :: char where "sep \<equiv> CHR ''/''"

fun split_sep :: "string \<Rightarrow> string list" where
  "split_sep [] = [[]]"
| "split_sep (c # s) =
     (if c = sep then [] # split_sep s
      else case split_sep s of x # xs \<Rightarrow> (c # x) # xs | [] \<Rightarrow> [[c]])"

fun join_sep :: "string list \<Rightarrow> string" where
  "join_sep [] = []"
| "join_sep [x] = x"
| "join_sep (x # xs) = x @ [sep] @ join_sep xs"

text \<open>The components that are left, last one first, while cleaning from left to right.\<close>

fun clean_parts :: "bool \<Rightarrow> string list \<Rightarrow> string list \<Rightarrow> string list" where
  "clean_parts rooted acc [] = rev acc"
| "clean_parts rooted acc (x # xs) =
     (if x = '''' \<or> x = ''.'' then clean_parts rooted acc xs
      else if x = ''..'' then
        (case acc of
           [] \<Rightarrow> clean_parts rooted (if rooted then [] else [''..'']) xs
         | y # ys \<Rightarrow> clean_parts rooted (if y = ''..'' then ''..'' # acc else ys) xs)
      else clean_parts rooted (x # acc) xs)"

definition filepath_Clean :: "string \<Rightarrow> string" where
  "filepath_Clean p =
     (let rooted = (p \<noteq> [] \<and> hd p = sep);
          q = join_sep (clean_parts rooted [] (split_sep p))
      in if rooted then sep # q else if q = '''' then ''.'' else q)"

text \<open>\<open>filepath.Join(dir, name)\<close>.\<close>

definition filepath_Join :: "string \<Rightarrow> string \<Rightarrow> string" where
  "filepath_Join dir name =
     (if dir = '''' then (if name = '''' then '''' else filepath_Clean name)
      else if name = '''' then filepath_Clean dir
      else filepath_Clean (dir @ [sep] @ name))"

definition filepath_Base :: "string \<Rightarrow> string" where
  "filepath_Base p =
     (if p = '''' then ''.''
      else let q = rev (dropWhile (\<lambda>c. c = sep) (rev p))
           in if q = '''' then ''/'' else rev (takeWhile (\<lambda>c. c \<noteq> sep) (rev q)))"

lemma split_sep_ne [simp]: "split_sep s \<noteq> []"
  by (induction s) (auto split: list.splits)

lemma split_sep_append: "split_sep (s @ [sep] @ t) = split_sep s @ split_sep t"
proof (induction s)
  case (Cons c s)
  then show ?case by (cases "split_sep s") auto
qed simp

lemma split_sep_no_sep: "sep \<notin> set s \<Longrightarrow> split_sep s = [s]"
  by (induction s) auto

lemma sep_notin_parts: "x \<in> set (split_sep s) \<Longrightarrow> sep \<notin> set x"
proof (induction s arbitrary: x)
  case (Cons c s)
  then show ?case by (cases "split_sep s") (auto split: if_splits)
qed simp

lemma filepath_Base_no_sep: "filepath_Base p = ''/'' \<or> sep \<notin> set (filepath_Base p)"
  by (auto simp: filepath_Base_def Let_def dest: set_takeWhileD)

text \<open>
  A clean rooted path other than the root, taken apart and put together: \<open>Join\<close> of such a directory
  with a name that is no special component appends exactly that name.
\<close>

definition abs_dir :: "string \<Rightarrow> bool" where
  "abs_dir d \<longleftrightarrow> (\<exists>ps. ps \<noteq> [] \<and> d = sep # join_sep ps \<and>
     (\<forall>x \<in> set ps. sep \<notin> set x \<and> x \<noteq> '''' \<and> x \<noteq> ''.'' \<and> x \<noteq> ''..''))"

definition plain_name :: "string \<Rightarrow> bool" where
  "plain_name x \<longleftrightarrow> sep \<notin> set x \<and> x \<noteq> '''' \<and> x \<noteq> ''.'' \<and> x \<noteq> ''..''"

lemma split_join_sep:
  "ps \<noteq> [] \<Longrightarrow> \<forall>x \<in> set ps. sep \<notin> set x \<Longrightarrow> split_sep (join_sep ps) = ps"
proof (induction ps rule: join_sep.induct)
  case (3 x y ps)
  then show ?case using split_sep_append [of x "join_sep (y # ps)"] by (simp add: split_sep_no_sep)
qed (simp_all add: split_sep_no_sep)

lemma join_sep_snoc: "ps \<noteq> [] \<Longrightarrow> join_sep (ps @ [x]) = join_sep ps @ [sep] @ x"
  by (induction ps rule: join_sep.induct) auto

lemma clean_parts_plain:
  "\<forall>x \<in> set ps. x \<noteq> '''' \<and> x \<noteq> ''.'' \<and> x \<noteq> ''..'' \<Longrightarrow> clean_parts r acc ps = rev acc @ ps"
  by (induction ps arbitrary: acc) auto

lemma filepath_Join_plain:
  assumes "abs_dir d" and "plain_name x"
  shows "filepath_Join d x = d @ [sep] @ x"
proof -
  from assms(1) obtain ps where ps: "ps \<noteq> []" "d = sep # join_sep ps"
    and parts: "\<forall>y \<in> set ps. sep \<notin> set y \<and> y \<noteq> '''' \<and> y \<noteq> ''.'' \<and> y \<noteq> ''..''"
    by (auto simp: abs_dir_def)
  have "split_sep (d @ [sep] @ x) = [] # ps @ [x]"
    using ps parts assms(2) split_sep_append [of d x] split_join_sep [of ps]
    by (simp add: plain_name_def split_sep_no_sep)
  moreover have "clean_parts True [] ([] # ps @ [x]) = ps @ [x]"
    using clean_parts_plain [of "ps @ [x]" True "[]"] parts assms(2) by (simp add: plain_name_def)
  ultimately have "filepath_Clean (d @ [sep] @ x) = sep # join_sep (ps @ [x])"
    using ps by (simp add: filepath_Clean_def)
  with ps assms(2) show ?thesis by (simp add: filepath_Join_def plain_name_def join_sep_snoc)
qed

section \<open>Files\<close>

record fs =
  fs_files :: "string \<Rightarrow> bytes option"
  fs_dirs :: "string \<Rightarrow> bool"
  fs_dirsize :: nat               \<comment> \<open>the size the system reports for a directory\<close>
  fs_calls :: nat
  fs_fail :: "nat \<Rightarrow> bool"

record finfo =
  fi_size :: nat
  fi_dir :: bool

abbreviation ErrNotExist :: err where "ErrNotExist \<equiv> Sentinel ''file does not exist''"
abbreviation ErrExist :: err where "ErrExist \<equiv> Sentinel ''file already exists''"
abbreviation ErrIO :: err where "ErrIO \<equiv> Sentinel ''i/o error''"
abbreviation ErrIsDir :: err where "ErrIsDir \<equiv> Sentinel ''is a directory''"
abbreviation ErrNotDir :: err where "ErrNotDir \<equiv> Sentinel ''not a directory''"

text \<open>One system call: it fails, or it does what \<open>act\<close> says.\<close>

definition syscall :: "(fs \<Rightarrow> 'a outcome \<times> fs) \<Rightarrow> fs \<Rightarrow> 'a outcome \<times> fs" where
  "syscall act fs =
     (let fs' = fs\<lparr>fs_calls := Suc (fs_calls fs)\<rparr>
      in if fs_fail fs (fs_calls fs) then (Err ErrIO, fs') else act fs')"

definition exists_path :: "fs \<Rightarrow> string \<Rightarrow> bool" where
  "exists_path fs p \<longleftrightarrow> fs_files fs p \<noteq> None \<or> fs_dirs fs p"

lemma exists_path_calls [simp]: "exists_path (fs\<lparr>fs_calls := n\<rparr>) p = exists_path fs p"
  by (simp add: exists_path_def)

definition os_Stat :: "string \<Rightarrow> fs \<Rightarrow> finfo outcome \<times> fs" where
  "os_Stat p = syscall (\<lambda>fs.
     (case fs_files fs p of
        Some c \<Rightarrow> Ok \<lparr>fi_size = length c, fi_dir = False\<rparr>
      | None \<Rightarrow> if fs_dirs fs p then Ok \<lparr>fi_size = fs_dirsize fs, fi_dir = True\<rparr> else Err ErrNotExist, fs))"

text \<open>\<open>os.Open\<close> of a file and, for \<open>ReadFile\<close> and \<open>io.Copy\<close>, all of its content.\<close>

definition os_Open :: "string \<Rightarrow> fs \<Rightarrow> unit outcome \<times> fs" where
  "os_Open p = syscall (\<lambda>fs. (if exists_path fs p then Ok () else Err ErrNotExist, fs))"

definition os_ReadFile :: "string \<Rightarrow> fs \<Rightarrow> bytes outcome \<times> fs" where
  "os_ReadFile p = syscall (\<lambda>fs.
     (case fs_files fs p of
        Some c \<Rightarrow> Ok c
      | None \<Rightarrow> if fs_dirs fs p then Err ErrIsDir else Err ErrNotExist, fs))"

definition os_WriteFile :: "string \<Rightarrow> bytes \<Rightarrow> fs \<Rightarrow> unit outcome \<times> fs" where
  "os_WriteFile p c = syscall (\<lambda>fs.
     if fs_dirs fs p then (Err ErrIsDir, fs)
     else (Ok (), fs\<lparr>fs_files := (fs_files fs)(p \<mapsto> c)\<rparr>))"

text \<open>
  \<open>os.CreateTemp(dir, pattern)\<close>: \<open>names\<close> are the random names it tries, in that order; it opens the
  first that does not exist.
\<close>

definition os_CreateTemp :: "string \<Rightarrow> string list \<Rightarrow> fs \<Rightarrow> string outcome \<times> fs" where
  "os_CreateTemp dir names = syscall (\<lambda>fs.
     if \<not> fs_dirs fs dir then (Err ErrNotExist, fs)
     else case find (\<lambda>n. \<not> exists_path fs (dir @ [sep] @ n)) names of
            None \<Rightarrow> (Err ErrExist, fs)
          | Some n \<Rightarrow> (Ok (dir @ [sep] @ n), fs\<lparr>fs_files := (fs_files fs)(dir @ [sep] @ n \<mapsto> [])\<rparr>))"

text \<open>\<open>f.Write(bs)\<close> at the end of the open file \<open>p\<close>, and \<open>f.Close()\<close>.\<close>

definition file_Write :: "string \<Rightarrow> bytes \<Rightarrow> fs \<Rightarrow> unit outcome \<times> fs" where
  "file_Write p bs = syscall (\<lambda>fs.
     (Ok (), fs\<lparr>fs_files := (fs_files fs)(p := map_option (\<lambda>c. c @ bs) (fs_files fs p))\<rparr>))"

definition file_Close :: "fs \<Rightarrow> unit outcome \<times> fs" where
  "file_Close = syscall (\<lambda>fs. (Ok (), fs))"

definition os_Rename :: "string \<Rightarrow> string \<Rightarrow> fs \<Rightarrow> unit outcome \<times> fs" where
  "os_Rename a b = syscall (\<lambda>fs.
     case fs_files fs a of
       None \<Rightarrow> (Err ErrNotExist, fs)
     | Some c \<Rightarrow> if fs_dirs fs b then (Err ErrIsDir, fs)
                 else (Ok (), fs\<lparr>fs_files := (fs_files fs)(a := None, b \<mapsto> c)\<rparr>))"

definition os_Remove :: "string \<Rightarrow> fs \<Rightarrow> unit outcome \<times> fs" where
  "os_Remove p = syscall (\<lambda>fs.
     case fs_files fs p of
       None \<Rightarrow> (Err ErrNotExist, fs)
     | Some c \<Rightarrow> (Ok (), fs\<lparr>fs_files := (fs_files fs)(p := None)\<rparr>))"

text \<open>\<open>os.MkdirAll\<close>: the directory and the ones above it, unless one of them is a file.\<close>

definition path_prefixes :: "string \<Rightarrow> string list" where
  "path_prefixes p = filter (\<lambda>q. q = p \<or> take (Suc (length q)) p = q @ [sep]) (prefixes p)"

definition os_MkdirAll :: "string \<Rightarrow> fs \<Rightarrow> unit outcome \<times> fs" where
  "os_MkdirAll p = syscall (\<lambda>fs.
     if \<exists>q \<in> set (path_prefixes p). fs_files fs q \<noteq> None then (Err ErrNotDir, fs)
     else (Ok (), fs\<lparr>fs_dirs := (\<lambda>q. fs_dirs fs q \<or> q \<in> set (path_prefixes p))\<rparr>))"

lemmas fs_defs = syscall_def os_Stat_def os_Open_def os_ReadFile_def os_WriteFile_def os_CreateTemp_def
  file_Write_def file_Close_def os_Rename_def os_Remove_def os_MkdirAll_def Let_def

text \<open>A file system in which no call fails by itself, and one with some files to start from.\<close>

definition healthy :: "fs \<Rightarrow> bool" where
  "healthy fs \<longleftrightarrow> fs_fail fs = (\<lambda>_. False)"

definition ex_fs :: fs where
  "ex_fs = \<lparr>fs_files = [''/d/a'' \<mapsto> [1, 2, 3]], fs_dirs = (\<lambda>p. p \<in> {''/'', ''/d'', ''/e''}), fs_dirsize = 4096,
     fs_calls = 0, fs_fail = (\<lambda>_. False)\<rparr>"

lemma syscall_fail [simp]: "fs_fail (snd (syscall act fs)) = fs_fail fs"
  if "\<And>fs. fs_fail (snd (act fs)) = fs_fail fs"
  using that by (simp add: syscall_def Let_def)

lemma fs_fail_preserved [simp]:
  "fs_fail (snd (os_Stat p fs)) = fs_fail fs" "fs_fail (snd (os_Open p fs)) = fs_fail fs"
  "fs_fail (snd (os_ReadFile p fs)) = fs_fail fs" "fs_fail (snd (os_WriteFile p c fs)) = fs_fail fs"
  "fs_fail (snd (os_CreateTemp p ns fs)) = fs_fail fs" "fs_fail (snd (file_Write p c fs)) = fs_fail fs"
  "fs_fail (snd (file_Close fs)) = fs_fail fs" "fs_fail (snd (os_Rename p q fs)) = fs_fail fs"
  "fs_fail (snd (os_Remove p fs)) = fs_fail fs" "fs_fail (snd (os_MkdirAll p fs)) = fs_fail fs"
  by (auto simp: fs_defs split: option.splits)

lemma fs_dirs_preserved [simp]:
  "fs_dirs (snd (os_Stat p fs)) = fs_dirs fs" "fs_dirs (snd (os_Open p fs)) = fs_dirs fs"
  "fs_dirs (snd (os_ReadFile p fs)) = fs_dirs fs" "fs_dirs (snd (os_WriteFile p c fs)) = fs_dirs fs"
  "fs_dirs (snd (os_CreateTemp p ns fs)) = fs_dirs fs" "fs_dirs (snd (file_Write p c fs)) = fs_dirs fs"
  "fs_dirs (snd (file_Close fs)) = fs_dirs fs" "fs_dirs (snd (os_Rename p q fs)) = fs_dirs fs"
  "fs_dirs (snd (os_Remove p fs)) = fs_dirs fs"
  by (auto simp: fs_defs split: option.splits)

lemma fs_files_read_only [simp]:
  "fs_files (snd (os_Stat p fs)) = fs_files fs" "fs_files (snd (os_Open p fs)) = fs_files fs"
  "fs_files (snd (os_ReadFile p fs)) = fs_files fs" "fs_files (snd (file_Close fs)) = fs_files fs"
  "fs_files (snd (os_MkdirAll p fs)) = fs_files fs"
  by (auto simp: fs_defs split: option.splits)

text \<open>What a writing call does to the files, whether it fails or not.\<close>

lemma os_Rename_cases:
  obtains (performed) c where "fs_files fs a = Some c" "\<not> fs_dirs fs b" "fst (os_Rename a b fs) = Ok ()"
      "fs_files (snd (os_Rename a b fs)) = (fs_files fs)(a := None, b \<mapsto> c)"
    | (failed) e where "fst (os_Rename a b fs) = Err e" "fs_files (snd (os_Rename a b fs)) = fs_files fs"
  by (cases "fs_files fs a"; cases "fs_dirs fs b"; cases "fs_fail fs (fs_calls fs)")
    (use that in \<open>auto simp: os_Rename_def syscall_def Let_def\<close>)

lemma os_CreateTemp_cases:
  obtains (performed) n where "n \<in> set names" "\<not> exists_path fs (dir @ [sep] @ n)" "fs_dirs fs dir"
      "fst (os_CreateTemp dir names fs) = Ok (dir @ [sep] @ n)"
      "fs_files (snd (os_CreateTemp dir names fs)) = (fs_files fs)(dir @ [sep] @ n \<mapsto> [])"
    | (failed) e where "fst (os_CreateTemp dir names fs) = Err e"
      "fs_files (snd (os_CreateTemp dir names fs)) = fs_files fs"
proof (cases "fs_fail fs (fs_calls fs) \<or> \<not> fs_dirs fs dir")
  case True
  then show thesis by (intro failed [of "if fs_fail fs (fs_calls fs) then ErrIO else ErrNotExist"])
      (auto simp: os_CreateTemp_def syscall_def Let_def)
next
  case ok: False
  show thesis
  proof (cases "find (\<lambda>n. \<not> exists_path fs (dir @ [sep] @ n)) names")
    case None
    with ok show thesis
      by (intro failed [of ErrExist]) (simp_all add: os_CreateTemp_def syscall_def Let_def)
  next
    case (Some n)
    then have "n \<in> set names" and "\<not> exists_path fs (dir @ [sep] @ n)"
      by (auto simp: find_Some_iff)
    with ok Some show thesis
      by (intro performed [of n]) (simp_all add: os_CreateTemp_def syscall_def Let_def)
  qed
qed

lemma file_Write_cases:
  obtains (performed) "fst (file_Write p bs fs) = Ok ()"
      "fs_files (snd (file_Write p bs fs)) = (fs_files fs)(p := map_option (\<lambda>c. c @ bs) (fs_files fs p))"
    | (failed) e where "fst (file_Write p bs fs) = Err e" "fs_files (snd (file_Write p bs fs)) = fs_files fs"
  by (cases "fs_fail fs (fs_calls fs)") (use that in \<open>auto simp: file_Write_def syscall_def Let_def\<close>)

lemma os_Remove_files: "fs_files (snd (os_Remove p fs)) = (if fst (os_Remove p fs) = Ok () then (fs_files fs)(p := None) else fs_files fs)"
  by (auto simp: os_Remove_def syscall_def Let_def split: option.splits)

lemma healthy_ok:
  assumes "healthy fs"
  shows "fst (file_Write p bs fs) = Ok ()" and "fst (file_Close fs) = Ok ()"
    and "fs_files fs p = Some c \<Longrightarrow> fst (os_Remove p fs) = Ok ()"
    and "fs_files fs p = Some c \<Longrightarrow> \<not> fs_dirs fs q \<Longrightarrow> fst (os_Rename p q fs) = Ok ()"
  using assms by (simp_all add: healthy_def fs_defs)

lemma healthy_preserved [simp]:
  "healthy (snd (os_Stat p fs)) = healthy fs" "healthy (snd (os_Open p fs)) = healthy fs"
  "healthy (snd (os_ReadFile p fs)) = healthy fs" "healthy (snd (os_WriteFile p c fs)) = healthy fs"
  "healthy (snd (os_CreateTemp p ns fs)) = healthy fs" "healthy (snd (file_Write p c fs)) = healthy fs"
  "healthy (snd (file_Close fs)) = healthy fs" "healthy (snd (os_Rename p q fs)) = healthy fs"
  "healthy (snd (os_Remove p fs)) = healthy fs" "healthy (snd (os_MkdirAll p fs)) = healthy fs"
  by (simp_all add: healthy_def)

end
