(* ===== verification/Identity.thy ===== *)
theory Identity
  imports Go_Fs
begin

text \<open>
  The node's identity, \<open>internal/identity\<close>: an Ed25519 key pair rebuilt from a 32-byte seed on disk, and
  the node id, the SHA-256 of the public key.

  The primitives are a parameter: \<open>cr_pub\<close> gives the public key of a seed, \<open>cr_sign\<close> and \<open>cr_verify\<close> are
  \<open>ed25519.Sign\<close> and \<open>ed25519.Verify\<close>, \<open>cr_sha\<close> is \<open>sha256.Sum256\<close>. \<open>crypto_laws\<close> is what their documentation
  promises: the sizes, and that a signature verifies under the public key of the signer. The format of a
  private key (seed, then public key) and the panics on wrong key sizes are written out.
\<close>

record crypto =
  cr_pub :: "bytes \<Rightarrow> bytes"
  cr_sign :: "bytes \<Rightarrow> bytes \<Rightarrow> bytes"
  cr_verify :: "bytes \<Rightarrow> bytes \<Rightarrow> bytes \<Rightarrow> bool"
  cr_sha :: "bytes \<Rightarrow> id32"

definition crypto_laws :: "crypto \<Rightarrow> bool" where
  "crypto_laws C \<longleftrightarrow>
     (\<forall>seed. length seed = 32 \<longrightarrow> length (cr_pub C seed) = 32 \<and>
        (\<forall>m. length (cr_sign C (seed @ cr_pub C seed) m) = 64 \<and>
             cr_verify C (cr_pub C seed) m (cr_sign C (seed @ cr_pub C seed) m)))"

text \<open>Primitives that satisfy the laws: the signature is the public key followed by a sum of the message.\<close>

definition ex_crypto :: crypto where
  "ex_crypto = \<lparr>cr_pub = (\<lambda>seed. map (\<lambda>b. b + 1) seed),
     cr_sign = (\<lambda>priv m. replicate 63 0 @ [sum_list m]),
     cr_verify = (\<lambda>pub m s. s = replicate 63 0 @ [sum_list m]),
     cr_sha = (\<lambda>m. arr_of [sum_list m])\<rparr>"

lemma ex_crypto_laws: "crypto_laws ex_crypto"
  by (simp add: crypto_laws_def ex_crypto_def)

definition ed25519_NewKeyFromSeed :: "crypto \<Rightarrow> bytes \<Rightarrow> bytes outcome" where
  "ed25519_NewKeyFromSeed C seed = (if length seed = 32 then Ok (seed @ cr_pub C seed) else Panic)"

text \<open>\<open>priv.Public()\<close> copies \<open>priv[32:]\<close> into a new key of 32 bytes; \<open>priv.Seed()\<close> is \<open>priv[:32]\<close>.\<close>

definition ed25519_Public :: "bytes \<Rightarrow> bytes outcome" where
  "ed25519_Public priv = obind (go_slice_from priv 32) (\<lambda>p. Ok (list_of (arr_of p :: id32)))"

definition ed25519_Seed :: "bytes \<Rightarrow> bytes outcome" where
  "ed25519_Seed priv = go_slice priv 0 32"

definition ed25519_Sign :: "crypto \<Rightarrow> bytes \<Rightarrow> bytes \<Rightarrow> bytes outcome" where
  "ed25519_Sign C priv m = (if length priv = 64 then Ok (cr_sign C priv m) else Panic)"

definition ed25519_Verify :: "crypto \<Rightarrow> bytes \<Rightarrow> bytes \<Rightarrow> bytes \<Rightarrow> bool outcome" where
  "ed25519_Verify C pub m sig =
     (if length pub \<noteq> 32 then Panic else Ok (length sig = 64 \<and> cr_verify C pub m sig))"

section \<open>Identities\<close>

record identity =
  id_PrivKey :: bytes
  id_PubKey :: bytes
  id_NodeID :: id32

definition NodeIDHex :: "identity \<Rightarrow> string" where
  "NodeIDHex ident = hex_encode (list_of (id_NodeID ident))"

definition fromSeed :: "crypto \<Rightarrow> bytes \<Rightarrow> identity outcome" where
  "fromSeed C seed =
     obind (ed25519_NewKeyFromSeed C seed) (\<lambda>priv.
     obind (ed25519_Public priv) (\<lambda>pub.
     Ok \<lparr>id_PrivKey = priv, id_PubKey = pub, id_NodeID = cr_sha C pub\<rparr>))"

text \<open>\<open>rnd\<close> is what \<open>rand.Read\<close> puts in the 32-byte seed.\<close>

definition Generate :: "crypto \<Rightarrow> id32 outcome \<Rightarrow> identity outcome" where
  "Generate C rnd = obind (owrap ''generate seed'' rnd) (\<lambda>seed. fromSeed C (list_of seed))"

definition keyFile :: string where
  "keyFile = ''identity.key''"

definition Save :: "identity \<Rightarrow> string \<Rightarrow> fs \<Rightarrow> unit outcome \<times> fs" where
  "Save ident configDir fs =
     (let (r, fs1) = os_MkdirAll configDir fs
      in case owrap ''create config dir'' r of
           Ok _ \<Rightarrow>
             (case ed25519_Seed (id_PrivKey ident) of
                Ok seed \<Rightarrow>
                  (let (r2, fs2) = os_WriteFile (filepath_Join configDir keyFile) seed fs1
                   in (owrap ''write identity file'' r2, fs2))
              | Err e \<Rightarrow> (Err e, fs1)
              | Panic \<Rightarrow> (Panic, fs1))
         | r' \<Rightarrow> (r', fs1))"

definition Load :: "crypto \<Rightarrow> string \<Rightarrow> fs \<Rightarrow> identity outcome \<times> fs" where
  "Load C configDir fs =
     (let (r, fs1) = os_ReadFile (filepath_Join configDir keyFile) fs
      in (obind r (\<lambda>seed.
            if length seed \<noteq> 32 then Err (Message ''identity file corrupt'') else fromSeed C seed), fs1))"

definition LoadOrGenerate :: "crypto \<Rightarrow> id32 outcome \<Rightarrow> string \<Rightarrow> fs \<Rightarrow> identity outcome \<times> fs" where
  "LoadOrGenerate C rnd configDir fs =
     (let (r, fs1) = Load C configDir fs
      in case r of
           Ok ident \<Rightarrow> (Ok ident, fs1)
         | Panic \<Rightarrow> (Panic, fs1)
         | Err e \<Rightarrow>
             if \<not> errors_is e ''file does not exist'' then (Err (Wrap ''load identity'' e), fs1)
             else case owrap ''generate identity'' (Generate C rnd) of
                    Ok ident \<Rightarrow>
                      (let (s, fs2) = Save ident configDir fs1
                       in (obind (owrap ''save identity'' s) (\<lambda>_. Ok ident), fs2))
                  | r' \<Rightarrow> (r', fs1))"

section \<open>Properties\<close>

definition has_identity :: "crypto \<Rightarrow> string \<Rightarrow> identity \<Rightarrow> fs \<Rightarrow> bool" where
  "has_identity C configDir ident fs \<longleftrightarrow>
     (\<exists>seed. fs_files fs (filepath_Join configDir keyFile) = Some seed \<and> length seed = 32 \<and> fromSeed C seed = Ok ident)"

lemma fromSeed_ok:
  "crypto_laws C \<Longrightarrow> length seed = 32 \<Longrightarrow>
   fromSeed C seed = Ok \<lparr>id_PrivKey = seed @ cr_pub C seed, id_PubKey = cr_pub C seed,
     id_NodeID = cr_sha C (cr_pub C seed)\<rparr>"
  by (simp add: fromSeed_def ed25519_NewKeyFromSeed_def ed25519_Public_def crypto_laws_def)

lemma Load_has_identity:
  "healthy fs \<Longrightarrow> has_identity C d ident fs \<Longrightarrow> fst (Load C d fs) = Ok ident"
  by (auto simp: has_identity_def Load_def os_ReadFile_def syscall_def healthy_def)

lemma Load_ok_has_identity:
  "Load C d fs = (Ok ident, fs') \<Longrightarrow> has_identity C d ident fs'"
  by (auto simp: has_identity_def Load_def os_ReadFile_def syscall_def outcome_simps Let_def
      split: if_splits option.splits)

lemma Save_ok_has_identity:
  assumes "crypto_laws C" and "Generate C rnd = Ok ident" and "Save ident d fs = (Ok (), fs')"
  shows "has_identity C d ident fs'"
proof -
  from assms(2) obtain seed :: id32 where ident: "fromSeed C (list_of seed) = Ok ident"
    by (auto simp: Generate_def outcome_simps)
  with fromSeed_ok [OF assms(1), of "list_of seed"] have "id_PrivKey ident = list_of seed @ cr_pub C (list_of seed)"
    by auto
  with assms(3) have "fs_files fs' (filepath_Join d keyFile) = Some (list_of seed)"
    by (auto simp: Save_def ed25519_Seed_def os_WriteFile_def syscall_def Let_def outcome_simps
        split: prod.splits outcome.splits if_splits)
  with ident show ?thesis by (auto simp: has_identity_def)
qed

text \<open>
  C32. The identity is stable: once \<open>LoadOrGenerate\<close> has returned an identity, every later call on the
  files it left returns the same one, whatever the random source would give, and the node id is the hash
  of the public key.
\<close>

theorem load_or_generate_stable:
  assumes "crypto_laws C" and "LoadOrGenerate C rnd d fs = (Ok ident, fs')"
    and "healthy fs2" and "fs_files fs2 = fs_files fs'"
  shows "fst (LoadOrGenerate C rnd' d fs2) = Ok ident \<and> id_NodeID ident = cr_sha C (id_PubKey ident)"
proof -
  have "has_identity C d ident fs'"
    using assms(2) Load_ok_has_identity Save_ok_has_identity [OF assms(1)]
    by (auto simp: LoadOrGenerate_def outcome_simps split: prod.splits outcome.splits if_splits)
  with assms(4) have has: "has_identity C d ident fs2" by (simp add: has_identity_def)
  then have "id_NodeID ident = cr_sha C (id_PubKey ident)"
    by (auto simp: has_identity_def fromSeed_ok [OF assms(1)])
  with Load_has_identity [OF assms(3) has] show ?thesis
    by (simp add: LoadOrGenerate_def split_beta Let_def)
qed

abbreviation ex_dir :: string where "ex_dir \<equiv> ''/e''"

lemma ex_first_start:
  "LoadOrGenerate ex_crypto (Ok (arr_of [7])) ex_dir ex_fs =
    (fromSeed ex_crypto (list_of (arr_of [7] :: id32)), snd (LoadOrGenerate ex_crypto (Ok (arr_of [7])) ex_dir ex_fs))"
proof -
  have p: "filepath_Join ex_dir keyFile = ''/e/identity.key''" unfolding keyFile_def by code_simp
  have pp: "set (path_prefixes ex_dir) = {'''', ''/e''}" by code_simp
  show ?thesis
    unfolding LoadOrGenerate_def Load_def Save_def p
    by (simp add: pp fs_defs ex_fs_def Generate_def fromSeed_ok [OF ex_crypto_laws] ed25519_Seed_def)
qed

lemma LoadOrGenerate_healthy [simp]: "healthy (snd (LoadOrGenerate C rnd d fs)) = healthy fs"
proof -
  have "healthy (snd (Load C d fs)) = healthy fs" for d fs
    by (simp add: Load_def split_beta Let_def)
  moreover have "healthy (snd (Save ident d fs)) = healthy fs" for ident d fs
    by (simp add: Save_def Let_def split_beta split: outcome.splits)
  ultimately show ?thesis
    by (simp add: LoadOrGenerate_def Let_def split_beta split: outcome.splits)
qed

lemma ex_fs_healthy [simp]: "healthy ex_fs"
  by (simp add: healthy_def ex_fs_def)

theorem load_or_generate_stable_witness:
  "fst (LoadOrGenerate ex_crypto (Err ErrIO) ex_dir (snd (LoadOrGenerate ex_crypto (Ok (arr_of [7])) ex_dir ex_fs))) =
    fromSeed ex_crypto (list_of (arr_of [7] :: id32))"
proof -
  let ?seed = "list_of (arr_of [7] :: id32)"
  obtain ident where id: "fromSeed ex_crypto ?seed = Ok ident"
    using fromSeed_ok [OF ex_crypto_laws, of ?seed] by simp
  note first = ex_first_start [unfolded id]
  have "healthy (snd (LoadOrGenerate ex_crypto (Ok (arr_of [7])) ex_dir ex_fs))"
    by simp
  from load_or_generate_stable [OF ex_crypto_laws first this refl, of "Err ErrIO"] show ?thesis
    unfolding id by blast
qed

end
