(* ===== verification/Invite.thy ===== *)
theory Invite
  imports Base64 Identity
begin

text \<open>
  Invite links, \<open>internal/invite/invite.go\<close>: the binary token, its base64 text, signing and the
  validation that uses a token up. Slices are taken with \<open>go_slice\<close>, so an index out of range is the
  outcome \<open>Panic\<close>. The interface \<open>NonceStore\<close> is the locale \<open>nonce_store\<close>.
\<close>

record token =
  t_PublicKey :: bytes
  t_Endpoints :: "string list"
  t_Nonce :: id16
  t_ExpiresAt :: gotime

definition link_prefix :: string where "link_prefix = ''kin:''"

lemma length_link_prefix [simp]: "length link_prefix = 4"
  by (simp add: link_prefix_def)

definition DefaultTTL :: gotime where
  "DefaultTTL = 24 * 3600 * second"

text \<open>\<open>nonce\<close> is what \<open>rand.Read\<close> gives, \<open>now\<close> the clock.\<close>

definition Create :: "bytes \<Rightarrow> string list \<Rightarrow> gotime \<Rightarrow> id16 outcome \<Rightarrow> gotime \<Rightarrow> token outcome" where
  "Create privKey endpoints ttl nonce now =
     (let ttl' = (if ttl \<le> 0 then DefaultTTL else ttl)
      in obind (owrap ''generate nonce'' nonce) (\<lambda>n.
         obind (ed25519_Public privKey) (\<lambda>pub.
         Ok \<lparr>t_PublicKey = pub, t_Endpoints = endpoints, t_Nonce = n, t_ExpiresAt = now + ttl'\<rparr>)))"

section \<open>Binary form\<close>

fun marshal_endpoints :: "string list \<Rightarrow> bytes outcome" where
  "marshal_endpoints [] = Ok []"
| "marshal_endpoints (ep # eps) =
     (if 65535 < length ep then Err (Message ''invite: endpoint string too long'')
      else obind (marshal_endpoints eps) (\<lambda>r. Ok (be16 (of_nat (length ep)) @ string_bytes ep @ r)))"

definition marshalPayload :: "token \<Rightarrow> bytes outcome" where
  "marshalPayload t =
     (if length (t_PublicKey t) \<noteq> 32 then Err (Message ''invite: public key must be 32 bytes'')
      else if 65535 < length (t_Endpoints t) then Err (Message ''invite: too many endpoints'')
      else obind (marshal_endpoints (t_Endpoints t)) (\<lambda>eps.
        Ok (t_PublicKey t @ be16 (of_nat (length (t_Endpoints t))) @ eps @ list_of (t_Nonce t)
            @ be64 (unix (t_ExpiresAt t)))))"

text \<open>
  The loop over the endpoints: \<open>n\<close> of them are left, \<open>offset\<close> is the position in \<open>data\<close>. The token is at
  least 122 bytes here, so \<open>len(data)-nonceSize-expirySize-sigSize\<close> is not negative.
\<close>

fun unmarshal_endpoints :: "bytes \<Rightarrow> nat \<Rightarrow> nat \<Rightarrow> (string list \<times> nat) outcome" where
  "unmarshal_endpoints data 0 offset = Ok ([], offset)"
| "unmarshal_endpoints data (Suc n) offset =
     (if length data - 16 - 8 - 64 < offset + 2 then Err (Message ''invite: truncated endpoint'')
      else obind (go_slice data offset (offset + 2)) (\<lambda>l.
        let epLen = unat (un16 l); offset = offset + 2
        in if length data - 16 - 8 - 64 < offset + epLen then Err (Message ''invite: truncated endpoint data'')
           else obind (go_slice data offset (offset + epLen)) (\<lambda>ep.
             obind (unmarshal_endpoints data n (offset + epLen)) (\<lambda>(eps, off).
             Ok (bytes_string ep # eps, off)))))"

definition unmarshal_token :: "bytes \<Rightarrow> token outcome" where
  "unmarshal_token data =
     (if length data < 32 + 2 + 16 + 8 + 64 then Err (Message ''invite: token too short'')
      else
        obind (go_slice data 0 32) (\<lambda>pubkey.
        obind (go_slice data 32 34) (\<lambda>c.
        obind (unmarshal_endpoints data (unat (un16 c)) 34) (\<lambda>(endpoints, offset).
        if length data - 8 - 64 < offset + 16 then Err (Message ''invite: truncated nonce'')
        else obind (go_slice data offset (offset + 16)) (\<lambda>nonce.
          if length data - 64 < offset + 16 + 8 then Err (Message ''invite: truncated expiry'')
          else obind (go_slice data (offset + 16) (offset + 16 + 8)) (\<lambda>x.
            Ok \<lparr>t_PublicKey = pubkey, t_Endpoints = endpoints, t_Nonce = arr_of nonce,
                t_ExpiresAt = from_unix (un64 x)\<rparr>))))))"

section \<open>Text form\<close>

definition Encode :: "crypto \<Rightarrow> token \<Rightarrow> bytes \<Rightarrow> string outcome" where
  "Encode C t privKey =
     obind (marshalPayload t) (\<lambda>payload.
     obind (ed25519_Sign C privKey payload) (\<lambda>sig.
     Ok (link_prefix @ b64_encode (payload @ sig))))"

definition Decode :: "string \<Rightarrow> token outcome" where
  "Decode raw =
     (if \<not> prefix link_prefix raw then Err (Message ''invite: missing prefix'')
      else case b64_decode (drop (length link_prefix) raw) of
             None \<Rightarrow> Err (Wrap ''invite: base64 decode'' (Message ''illegal base64 data''))
           | Some data \<Rightarrow> unmarshal_token data)"

text \<open>
  \<open>Validate\<close>, with the two methods of the \<open>NonceStore\<close>, the clock, and the state of the store.
\<close>

definition Validate ::
  "crypto \<Rightarrow> ('s \<Rightarrow> id16 \<Rightarrow> bool outcome) \<Rightarrow> ('s \<Rightarrow> id16 \<Rightarrow> unit outcome \<times> 's) \<Rightarrow> gotime \<Rightarrow>
   token \<Rightarrow> string \<Rightarrow> 's \<Rightarrow> unit outcome \<times> 's" where
  "Validate C hasNonce saveNonce now t raw s =
     (if t_ExpiresAt t < now then (Err (Message ''invite: token expired''), s)
      else
        case obind (go_slice_from raw (length link_prefix)) (\<lambda>txt.
               case b64_decode txt of
                 None \<Rightarrow> Err (Wrap ''invite: decode for validation'' (Message ''illegal base64 data''))
               | Some data \<Rightarrow>
                   if length data < 64 then Err (Message ''invite: data too short for signature'')
                   else obind (go_slice data 0 (length data - 64)) (\<lambda>payload.
                        obind (go_slice_from data (length data - 64)) (\<lambda>sig.
                        obind (ed25519_Verify C (t_PublicKey t) payload sig) (\<lambda>ok.
                        if \<not> ok then Err (Message ''invite: invalid signature'')
                        else obind (owrap ''invite: nonce check'' (hasNonce s (t_Nonce t))) (\<lambda>has.
                          if has then Err (Message ''invite: nonce already used'') else Ok ()))))) of
          Ok _ \<Rightarrow> (let (r, s') = saveNonce s (t_Nonce t) in (owrap ''invite: save nonce'' r, s'))
        | Err e \<Rightarrow> (Err e, s)
        | Panic \<Rightarrow> (Panic, s))"

section \<open>Round trip\<close>

lemma unat_of_nat16: "n \<le> 65535 \<Longrightarrow> unat (of_nat n :: 16 word) = n"
  by (simp add: unat_of_nat)

text \<open>The loop reads back the endpoints that stand at its offset, up to what follows them.\<close>

lemma unmarshal_endpoints_back:
  assumes "marshal_endpoints eps = Ok mid" and "88 \<le> length post"
  shows "unmarshal_endpoints (pre @ mid @ post) (length eps) (length pre) = Ok (eps, length pre + length mid)"
  using assms(1)
proof (induction eps arbitrary: pre mid)
  case Nil
  then show ?case by simp
next
  case (Cons ep eps)
  from Cons.prems obtain r where r: "marshal_endpoints eps = Ok r" and len: "length ep \<le> 65535"
    and mid: "mid = be16 (of_nat (length ep)) @ string_bytes ep @ r"
    by (auto simp: outcome_simps split: if_splits)
  let ?data = "pre @ mid @ post"
  have "unmarshal_endpoints ?data (length eps) (length pre + 2 + length ep) = Ok (eps, length pre + length mid)"
    using Cons.IH [OF r, of "pre @ be16 (of_nat (length ep)) @ string_bytes ep"] by (simp add: mid)
  then show ?case
    using len assms(2) by (simp add: mid unat_of_nat16 Let_def)
qed

lemma unmarshal_marshalPayload:
  assumes "marshalPayload t = Ok payload" and "length sig = 64"
  shows "unmarshal_token (payload @ sig) = Ok (t\<lparr>t_ExpiresAt := from_unix (unix (t_ExpiresAt t))\<rparr>)"
proof -
  from assms(1) obtain eps where pk: "length (t_PublicKey t) = 32" and n: "length (t_Endpoints t) \<le> 65535"
    and eps: "marshal_endpoints (t_Endpoints t) = Ok eps"
    and p: "payload = t_PublicKey t @ be16 (of_nat (length (t_Endpoints t))) @ eps @ list_of (t_Nonce t)
        @ be64 (unix (t_ExpiresAt t))"
    by (auto simp: marshalPayload_def outcome_simps split: if_splits)
  let ?pre = "t_PublicKey t @ be16 (of_nat (length (t_Endpoints t)))"
  let ?post = "list_of (t_Nonce t) @ be64 (unix (t_ExpiresAt t)) @ sig"
  have loop: "unmarshal_endpoints (?pre @ eps @ ?post) (length (t_Endpoints t)) 34 = Ok (t_Endpoints t, 34 + length eps)"
    using unmarshal_endpoints_back [OF eps, of ?post ?pre] assms(2) pk by simp
  have "payload @ sig = ?pre @ eps @ ?post" by (simp add: p)
  then show ?thesis
    using loop pk n assms(2) by (cases t) (simp add: unmarshal_token_def unat_of_nat16)
qed


section \<open>Arbitrary input\<close>

lemma go_slice_append: "b \<le> length p \<Longrightarrow> go_slice (p @ s) a b = go_slice p a b"
  by (simp add: go_slice_def)

text \<open>The loop stays in the bytes before nonce, expiry and signature, so it never panics.\<close>

lemma unmarshal_endpoints_safe:
  assumes "88 \<le> length data" and "off \<le> length data - 88"
  shows "unmarshal_endpoints data n off \<noteq> Panic \<and>
    (\<forall>eps off'. unmarshal_endpoints data n off = Ok (eps, off') \<longrightarrow> off' \<le> length data - 88)"
  using assms(2)
proof (induction n arbitrary: off)
  case 0
  then show ?case by simp
next
  case (Suc n)
  show ?case
  proof (cases "length data - 88 < off + 2")
    case True
    then show ?thesis by simp
  next
    case False
    define len where "len = unat (un16 (take 2 (drop off data)))"
    have s1: "go_slice data off (off + 2) = Ok (take 2 (drop off data))" using False by simp
    show ?thesis
    proof (cases "length data - 88 < off + 2 + len")
      case True
      with False s1 show ?thesis by (simp add: len_def)
    next
      case fits: False
      then have s2: "go_slice data (off + 2) (off + 2 + len) = Ok (take len (drop (off + 2) data))" by simp
      from Suc.IH [of "off + 2 + len"] fits show ?thesis
        using False s1 s2 by (auto simp: len_def [symmetric] outcome_simps Let_def)
    qed
  qed
qed

lemma unmarshal_token_no_panic: "unmarshal_token data \<noteq> Panic"
proof (cases "length data < 122")
  case True
  then show ?thesis by (simp add: unmarshal_token_def)
next
  case False
  define n where "n = unat (un16 (take 2 (drop 32 data)))"
  have slices: "go_slice data 0 32 = Ok (take 32 data)" "go_slice data 32 34 = Ok (take 2 (drop 32 data))"
    using False by simp_all
  from False have safe: "unmarshal_endpoints data n 34 \<noteq> Panic"
    "\<And>eps off. unmarshal_endpoints data n 34 = Ok (eps, off) \<Longrightarrow> off \<le> length data - 88"
    using unmarshal_endpoints_safe [of data 34 n] by auto
  then show ?thesis
    using False by (auto simp: unmarshal_token_def slices n_def [symmetric] outcome_simps go_slice_def)
qed

lemma Decode_no_panic: "Decode raw \<noteq> Panic"
  by (simp add: Decode_def unmarshal_token_no_panic split: option.splits)

text \<open>What is read from a token does not depend on the 64 bytes of the signature.\<close>

lemma unmarshal_endpoints_payload:
  assumes "length sig = 64" and "length sig' = 64" and "24 \<le> length p"
  shows "unmarshal_endpoints (p @ sig) n off = unmarshal_endpoints (p @ sig') n off"
proof (induction n arbitrary: off)
  case (Suc n)
  show ?case
  proof (cases "length p - 24 < off + 2")
    case True
    with assms show ?thesis by simp
  next
    case False
    define len where "len = unat (un16 (take 2 (drop off p)))"
    have s1: "go_slice (p @ s) off (off + 2) = Ok (take 2 (drop off p))" for s
      using False by (simp add: go_slice_append)
    show ?thesis
    proof (cases "length p - 24 < off + 2 + len")
      case True
      with False s1 assms show ?thesis by (simp add: len_def Let_def)
    next
      case fits: False
      then have "go_slice (p @ s) (off + 2) (off + 2 + len) = Ok (take len (drop (off + 2) p))" for s
        by (simp add: go_slice_append)
      with False s1 fits assms Suc show ?thesis by (simp add: len_def [symmetric] Let_def)
    qed
  qed
qed simp

lemma unmarshal_token_payload:
  assumes "length sig = 64" and "length sig' = 64"
  shows "unmarshal_token (p @ sig) = unmarshal_token (p @ sig')"
proof (cases "length p < 58")
  case True
  with assms show ?thesis by (simp add: unmarshal_token_def)
next
  case False
  note slice = go_slice_append [of _ p sig] go_slice_append [of _ p sig']
  have loop: "unmarshal_endpoints (p @ sig) n off = unmarshal_endpoints (p @ sig') n off" for n off
    using False by (intro unmarshal_endpoints_payload assms) simp
  have fields: "go_slice (p @ sig) 0 32 = go_slice (p @ sig') 0 32" "go_slice (p @ sig) 32 34 = go_slice (p @ sig') 32 34"
    using False by (simp_all add: slice)
  show ?thesis
    using False assms by (simp add: unmarshal_token_def loop fields slice cong: if_cong)
qed


section \<open>Validation\<close>

lemma Validate_okE:
  assumes "Validate C has save now t raw s = (Ok (), s')"
  obtains data where "now \<le> t_ExpiresAt t" and "4 \<le> length raw" and "b64_decode (drop 4 raw) = Some data"
    and "64 \<le> length data" and "length (t_PublicKey t) = 32"
    and "cr_verify C (t_PublicKey t) (take (length data - 64) data) (drop (length data - 64) data)"
    and "has s (t_Nonce t) = Ok False" and "save s (t_Nonce t) = (Ok (), s')"
proof -
  note defs = Validate_def go_slice_def go_slice_from_def ed25519_Verify_def outcome_simps
  show thesis
    using assms that
    by (auto simp: defs split: if_splits outcome.splits option.splits prod.splits)
qed

lemma Validate_okI:
  assumes "now \<le> t_ExpiresAt t" and "4 \<le> length raw" and "b64_decode (drop 4 raw) = Some (payload @ sig)"
    and "length sig = 64" and "length (t_PublicKey t) = 32" and "cr_verify C (t_PublicKey t) payload sig"
    and "has s (t_Nonce t) = Ok False" and "save s (t_Nonce t) = (Ok (), s')"
  shows "Validate C has save now t raw s = (Ok (), s')"
  using assms by (simp add: Validate_def ed25519_Verify_def)

lemma Validate_state: "snd (Validate C has save now t raw s) \<in> {s, snd (save s (t_Nonce t))}"
  by (simp add: Validate_def split: prod.splits outcome.splits)

lemma Validate_no_panic:
  assumes "4 \<le> length raw" and "length (t_PublicKey t) = 32" and "\<And>n. has s n \<noteq> Panic" and "\<And>n. fst (save s n) \<noteq> Panic"
  shows "fst (Validate C has save now t raw s) \<noteq> Panic"
  using assms
  by (auto simp: Validate_def ed25519_Verify_def outcome_simps split_beta Let_def
      split: outcome.splits option.splits if_splits)

text \<open>The contract of \<open>NonceStore\<close>, and a sequence of validations of any tokens against one store.\<close>

type_synonym validation = "gotime \<times> token \<times> string"

fun validate_all ::
  "crypto \<Rightarrow> ('s \<Rightarrow> id16 \<Rightarrow> bool outcome) \<Rightarrow> ('s \<Rightarrow> id16 \<Rightarrow> unit outcome \<times> 's) \<Rightarrow>
   validation list \<Rightarrow> 's \<Rightarrow> (id16 \<times> unit outcome) list \<times> 's" where
  "validate_all C has save [] s = ([], s)"
| "validate_all C has save ((now, t, raw) # vs) s =
     (let (r, s1) = Validate C has save now t raw s; (rs, s2) = validate_all C has save vs s1
      in ((t_Nonce t, r) # rs, s2))"

definition accepted :: "(id16 \<times> unit outcome) list \<Rightarrow> id16 list" where
  "accepted rs = map fst (filter (\<lambda>r. snd r = Ok ()) rs)"

locale nonce_store =
  fixes has :: "'s \<Rightarrow> id16 \<Rightarrow> bool outcome"
    and save :: "'s \<Rightarrow> id16 \<Rightarrow> unit outcome \<times> 's"
  assumes saved: "save s n = (Ok (), s') \<Longrightarrow> has s' n = Ok True"
    and kept: "has s m = Ok True \<Longrightarrow> has (snd (save s n)) m = Ok True"
begin

lemma Validate_keeps: "has s n = Ok True \<Longrightarrow> has (snd (Validate C has save now t raw s)) n = Ok True"
  using Validate_state [of C has save now t raw s] kept by auto

lemma Validate_saves: "Validate C has save now t raw s = (Ok (), s') \<Longrightarrow> has s' (t_Nonce t) = Ok True"
  by (auto elim!: Validate_okE intro: saved)

lemma used_not_accepted:
  "has s n = Ok True \<Longrightarrow> n \<notin> set (accepted (fst (validate_all C has save vs s)))"
proof (induction vs arbitrary: s)
  case (Cons v vs)
  obtain now t raw where v: "v = (now, t, raw)" by (cases v)
  obtain r s1 where val: "Validate C has save now t raw s = (r, s1)" by (cases "Validate C has save now t raw s")
  have "t_Nonce t \<noteq> n" if "r = Ok ()"
    using that val Cons.prems by (auto elim!: Validate_okE)
  with Cons.IH [of s1] Cons.prems Validate_keeps [of s n C now t raw] show ?case
    by (auto simp: v val accepted_def split: prod.splits)
qed (simp add: accepted_def)

lemma accepted_distinct: "distinct (accepted (fst (validate_all C has save vs s)))"
proof (induction vs arbitrary: s)
  case (Cons v vs)
  obtain now t raw where v: "v = (now, t, raw)" by (cases v)
  obtain r s1 where val: "Validate C has save now t raw s = (r, s1)" by (cases "Validate C has save now t raw s")
  have "t_Nonce t \<notin> set (accepted (fst (validate_all C has save vs s1)))" if "r = Ok ()"
    using that val Validate_saves [of C now t raw s s1] used_not_accepted by simp
  with Cons.IH [of s1] show ?case
    by (auto simp: v val accepted_def split: prod.splits) force
qed (simp add: accepted_def)

end


section \<open>Properties\<close>

lemma marshal_endpoints_ok: "\<forall>ep \<in> set eps. length ep \<le> 65535 \<Longrightarrow> \<exists>bs. marshal_endpoints eps = Ok bs"
  by (induction eps) auto

lemma Create_ok:
  "length seed = 32 \<Longrightarrow> length pub = 32 \<Longrightarrow>
   Create (seed @ pub) eps ttl (Ok nonce) now =
     Ok \<lparr>t_PublicKey = pub, t_Endpoints = eps, t_Nonce = nonce, t_ExpiresAt = now + (if ttl \<le> 0 then DefaultTTL else ttl)\<rparr>"
  by (simp add: Create_def ed25519_Public_def)

lemma invite_valid:
  assumes laws: "crypto_laws C" and seed: "length seed = 32"
    and t: "Create (seed @ cr_pub C seed) eps ttl (Ok nonce) now = Ok t"
    and eps: "length eps \<le> 65535" "\<forall>ep \<in> set eps. length ep \<le> 65535"
    and has: "has s nonce = Ok False" and save: "save s nonce = (Ok (), s')"
    and now': "now' \<le> from_unix (unix (t_ExpiresAt t))"
  shows "\<exists>raw. Encode C t (seed @ cr_pub C seed) = Ok raw \<and>
    Decode raw = Ok (t\<lparr>t_ExpiresAt := from_unix (unix (t_ExpiresAt t))\<rparr>) \<and>
    Validate C has save now' (t\<lparr>t_ExpiresAt := from_unix (unix (t_ExpiresAt t))\<rparr>) raw s = (Ok (), s')"
proof -
  let ?priv = "seed @ cr_pub C seed" and ?t = "t\<lparr>t_ExpiresAt := from_unix (unix (t_ExpiresAt t))\<rparr>"
  from laws seed have pub: "length (cr_pub C seed) = 32"
    and sig: "\<And>m. length (cr_sign C ?priv m) = 64" "\<And>m. cr_verify C (cr_pub C seed) m (cr_sign C ?priv m)"
    by (auto simp: crypto_laws_def)
  from t pub seed have tf: "t_PublicKey t = cr_pub C seed" "t_Endpoints t = eps" "t_Nonce t = nonce"
    by (auto simp: Create_ok)
  obtain payload where p: "marshalPayload t = Ok payload"
    using marshal_endpoints_ok [OF eps(2)] eps(1) pub by (auto simp: marshalPayload_def tf)
  let ?raw = "link_prefix @ b64_encode (payload @ cr_sign C ?priv payload)"
  have enc: "Encode C t ?priv = Ok ?raw" using pub seed by (simp add: Encode_def p ed25519_Sign_def)
  have dec: "Decode ?raw = Ok ?t"
    using unmarshal_marshalPayload [OF p sig(1) [of payload]] by (simp add: Decode_def)
  have "Validate C has save now' ?t ?raw s = (Ok (), s')"
    by (rule Validate_okI [OF _ _ _ sig(1) [of payload]]) (use pub now' sig(2) has save in \<open>simp_all add: tf\<close>)
  with enc dec show ?thesis by blast
qed

text \<open>
  C16. An invite works: the token \<open>Create\<close> makes for a key pair encodes to a link, the link decodes to
  the same token with its expiry cut to whole seconds, and \<open>Validate\<close> accepts it at any time up to that
  expiry when its nonce is unused and can be saved.
\<close>

theorem invite_accepted:
  assumes laws: "crypto_laws C" and seed: "length seed = 32"
    and t: "Create (seed @ cr_pub C seed) eps ttl (Ok nonce) now = Ok t"
    and eps: "length eps \<le> 65535" "\<forall>ep \<in> set eps. length ep \<le> 65535"
    and has: "has s nonce = Ok False" and save: "save s nonce = (Ok (), s')"
    and now': "now' \<le> from_unix (unix (t_ExpiresAt t))"
  shows "\<exists>raw. Encode C t (seed @ cr_pub C seed) = Ok raw \<and>
    Decode raw = Ok (t\<lparr>t_ExpiresAt := from_unix (unix (t_ExpiresAt t))\<rparr>) \<and>
    Validate C has save now' (t\<lparr>t_ExpiresAt := from_unix (unix (t_ExpiresAt t))\<rparr>) raw s = (Ok (), s')"
  using assms by (rule invite_valid)

theorem invite_accepted_witness:
  "\<exists>t raw. Create (replicate 32 5 @ cr_pub ex_crypto (replicate 32 5)) [''host:1''] 0 (Ok (arr_of [9])) 0 = Ok t \<and>
    Encode ex_crypto t (replicate 32 5 @ cr_pub ex_crypto (replicate 32 5)) = Ok raw \<and>
    Validate ex_crypto (\<lambda>s n. Ok (n \<in> s)) (\<lambda>s n. (Ok (), insert n s)) 7 (t\<lparr>t_ExpiresAt := from_unix (unix (t_ExpiresAt t))\<rparr>)
      raw {} = (Ok (), {arr_of [9]})"
proof -
  let ?seed = "replicate 32 5 :: bytes" and ?has = "\<lambda>(s :: id16 set) n. Ok (n \<in> s)" and ?save = "\<lambda>(s :: id16 set) n. (Ok (), insert n s)"
  define t where "t = \<lparr>t_PublicKey = cr_pub ex_crypto ?seed, t_Endpoints = [''host:1''], t_Nonce = arr_of [9] :: id16, t_ExpiresAt = DefaultTTL\<rparr>"
  have c: "Create (?seed @ cr_pub ex_crypto ?seed) [''host:1''] 0 (Ok (arr_of [9])) 0 = Ok t"
    by (subst Create_ok) (simp_all add: t_def ex_crypto_def)
  have "7 \<le> from_unix (unix (t_ExpiresAt t))"
    by (simp add: t_def DefaultTTL_def from_unix_unix)
  with invite_accepted [OF ex_crypto_laws _ c, of ?has "{}" ?save "{arr_of [9]}" 7] c show ?thesis by auto
qed

text \<open>
  C17. No text makes the code panic: \<open>Decode\<close> returns a token or an error for every string, and
  \<open>Validate\<close> of a decoded token does not panic either, as long as the nonce store does not.
\<close>

theorem decode_validate_no_panic:
  assumes "\<forall>n. has s n \<noteq> Panic" and "\<forall>n. fst (save s n) \<noteq> Panic"
  shows "Decode raw \<noteq> Panic \<and> (\<forall>t. Decode raw = Ok t \<longrightarrow> fst (Validate C has save now t raw s) \<noteq> Panic)"
proof (intro conjI allI impI)
  show "Decode raw \<noteq> Panic" by (rule Decode_no_panic)
  fix t assume d: "Decode raw = Ok t"
  then have raw: "prefix link_prefix raw" by (simp add: Decode_def split: if_splits)
  then have "4 \<le> length raw" using prefix_length_le [OF raw] by simp
  moreover have "length (t_PublicKey t) = 32"
    using d by (auto simp: Decode_def unmarshal_token_def outcome_simps go_slice_def split: if_splits option.splits prod.splits)
  ultimately show "fst (Validate C has save now t raw s) \<noteq> Panic"
    using assms by (intro Validate_no_panic) auto
qed

theorem decode_validate_no_panic_witness:
  "Decode (link_prefix @ b64_encode (replicate 200 255)) \<noteq> Panic"
  using decode_validate_no_panic [of "\<lambda>s n. Ok (n \<in> s)" "{}" "\<lambda>s n. (Ok (), insert n s)"] by simp

text \<open>
  C18. The signature covers every field: when \<open>Validate\<close> accepts what \<open>Decode\<close> returned for a link,
  the signature in the link verifies, under the key the token names, over a payload that alone determines
  the token. No field of an accepted token can be changed under the same signed payload.
\<close>

theorem signature_covers_token:
  assumes "Decode raw = Ok t" and "Validate C has save now t raw s = (Ok (), s')"
  shows "\<exists>payload sig. length sig = 64 \<and> b64_decode (drop 4 raw) = Some (payload @ sig) \<and>
    cr_verify C (t_PublicKey t) payload sig \<and> t_PublicKey t = take 32 payload \<and>
    (\<forall>sig'. length sig' = 64 \<longrightarrow> unmarshal_token (payload @ sig') = Ok t)"
proof -
  from assms(2) obtain data where d: "b64_decode (drop 4 raw) = Some data" "64 \<le> length data"
    and v: "cr_verify C (t_PublicKey t) (take (length data - 64) data) (drop (length data - 64) data)"
    by (rule Validate_okE)
  let ?p = "take (length data - 64) data" and ?s = "drop (length data - 64) data"
  from d have ps: "data = ?p @ ?s" "length ?s = 64" by simp_all
  from assms(1) d have u: "unmarshal_token data = Ok t" by (simp add: Decode_def split: if_splits)
  then have "t_PublicKey t = take 32 data" and "122 \<le> length data"
    by (auto simp: unmarshal_token_def outcome_simps split: if_splits prod.splits)
  then have "t_PublicKey t = take 32 ?p" by (simp add: min_def)
  moreover have "unmarshal_token (?p @ sig') = Ok t" if "length sig' = 64" for sig'
    using unmarshal_token_payload [OF ps(2) that, of ?p] u ps(1) by simp
  ultimately show ?thesis using d v ps by metis
qed

theorem signature_covers_token_witness:
  "\<exists>t raw payload sig. Decode raw = Ok t \<and> cr_verify ex_crypto (t_PublicKey t) payload sig \<and> t_PublicKey t = take 32 payload"
proof -
  let ?seed = "replicate 32 5 :: bytes" and ?has = "\<lambda>(s :: id16 set) n. Ok (n \<in> s)" and ?save = "\<lambda>(s :: id16 set) n. (Ok (), insert n s)"
  define t where "t = \<lparr>t_PublicKey = cr_pub ex_crypto ?seed, t_Endpoints = [], t_Nonce = arr_of [9] :: id16, t_ExpiresAt = second\<rparr>"
  have t: "t\<lparr>t_ExpiresAt := from_unix (unix (t_ExpiresAt t))\<rparr> = t" by (simp add: t_def from_unix_unix)
  obtain payload where p: "marshalPayload t = Ok payload"
    by (simp add: marshalPayload_def t_def ex_crypto_def)
  let ?sig = "cr_sign ex_crypto (?seed @ cr_pub ex_crypto ?seed) payload"
  let ?raw = "link_prefix @ b64_encode (payload @ ?sig)"
  have sig: "length ?sig = 64" "cr_verify ex_crypto (t_PublicKey t) payload ?sig" by (simp_all add: ex_crypto_def)
  have dec: "Decode ?raw = Ok t"
    using unmarshal_marshalPayload [OF p sig(1)] t by (simp add: Decode_def)
  have "Validate ex_crypto ?has ?save 0 t ?raw {} = (Ok (), {t_Nonce t})"
    by (rule Validate_okI [OF _ _ _ sig(1) _ sig(2)]) (simp_all add: t_def ex_crypto_def)
  from signature_covers_token [OF dec this] dec show ?thesis by blast
qed

end
