(* ===== verification/Peerstore.thy ===== *)
theory Peerstore
  imports Bolt_Bucket Invite
begin

text \<open>
  Known peers and used invite nonces, \<open>internal/peerstore\<close>: the record \<open>Peer\<close> and its JSON form
  (\<open>peer.go\<close>) and the store over the buckets \<open>peers\<close> and \<open>nonces\<close> (\<open>store.go\<close>). Keys are pinned on
  first use; the store provides the \<open>nonce_store\<close> the invites rely on.
\<close>

section \<open>Peers\<close>

record peer =
  p_NodeID :: id32
  p_PublicKey :: bytes
  p_Endpoints :: "string list"
  p_TrustState :: string
  p_LastSeen :: gotime

definition TrustTOFU :: string where "TrustTOFU = ''tofu''"
definition TrustSuspect :: string where "TrustSuspect = ''suspect''"
definition TrustBlocked :: string where "TrustBlocked = ''blocked''"

definition peer_json :: "peer \<Rightarrow> json" where
  "peer_json p = JObj
     [(''node_id'', enc_arr (p_NodeID p)),
      (''public_key'', JB64 (p_PublicKey p)),
      (''endpoints'', JArr (map enc_str (p_Endpoints p))),
      (''trust_state'', enc_str (p_TrustState p)),
      (''last_seen'', JTime (p_LastSeen p))]"

definition marshal_peer :: "peer \<Rightarrow> raw outcome" where
  "marshal_peer p =
     (if json_time_ok (p_LastSeen p) then Ok (Json (peer_json p))
      else Err (Message ''json: year outside of range [0,9999]''))"

definition zero_peer :: peer where
  "zero_peer = \<lparr>p_NodeID = arr_of [], p_PublicKey = [], p_Endpoints = [], p_TrustState = '''', p_LastSeen = zero_time\<rparr>"

fun peer_of_json :: "json \<Rightarrow> peer option" where
  "peer_of_json (JObj fs) =
     Option.bind (dec_arr (jfield fs ''node_id'')) (\<lambda>n.
     Option.bind (dec_bytes (jfield fs ''public_key'')) (\<lambda>pk.
     Option.bind (dec_list dec_str (jfield fs ''endpoints'')) (\<lambda>eps.
     Option.bind (dec_str (jfield fs ''trust_state'')) (\<lambda>ts.
     Option.bind (dec_time (jfield fs ''last_seen'')) (\<lambda>ls.
     Some \<lparr>p_NodeID = n, p_PublicKey = pk, p_Endpoints = eps, p_TrustState = ts, p_LastSeen = ls\<rparr>)))))"
| "peer_of_json JNull = Some zero_peer"
| "peer_of_json _ = None"

fun unmarshal_peer :: "raw \<Rightarrow> peer option" where
  "unmarshal_peer (Json j) = peer_of_json j"
| "unmarshal_peer (Text _) = None"

definition stored_peer :: "peer \<Rightarrow> peer" where
  "stored_peer p = p\<lparr>p_Endpoints := map to_utf8 (p_Endpoints p), p_TrustState := to_utf8 (p_TrustState p)\<rparr>"

lemma stored_peer_sel [simp]:
  "p_NodeID (stored_peer p) = p_NodeID p" "p_PublicKey (stored_peer p) = p_PublicKey p"
  "p_LastSeen (stored_peer p) = p_LastSeen p"
  by (simp_all add: stored_peer_def)

lemma unmarshal_marshal_peer: "marshal_peer p = Ok r \<Longrightarrow> unmarshal_peer r = Some (stored_peer p)"
  using dec_all_map [of "p_Endpoints p" dec_str enc_str to_utf8]
  by (auto simp: marshal_peer_def peer_json_def stored_peer_def split: if_splits)

section \<open>The store\<close>

record 'b peerstore =
  ps_db :: "'b \<times> 'b"       \<comment> \<open>the buckets \<open>peers\<close> and \<open>nonces\<close>\<close>

abbreviation ErrKeyChanged :: err where
  "ErrKeyChanged \<equiv> Sentinel ''peerstore: public key changed for known node (TOFU violation)''"

definition OpenPeers :: "'b bolt \<Rightarrow> ('b option \<times> 'b option) outcome \<Rightarrow> 'b peerstore outcome" where
  "OpenPeers B opened =
     obind (owrap ''open peerstore'' opened) (\<lambda>found.
     obind (owrap ''init buckets'' (create_buckets B found)) (\<lambda>db.
     Ok \<lparr>ps_db = db\<rparr>))"

text \<open>\<open>OpenReadOnly\<close> makes no buckets: they are those that an earlier \<open>Open\<close> has left in the file.\<close>

definition OpenReadOnly :: "('b \<times> 'b) outcome \<Rightarrow> 'b peerstore outcome" where
  "OpenReadOnly opened = obind (owrap ''open peerstore'' opened) (\<lambda>db. Ok \<lparr>ps_db = db\<rparr>)"

text \<open>The union in order; duplicates inside \<open>incoming\<close> stay.\<close>

definition mergeEndpoints :: "string list \<Rightarrow> string list \<Rightarrow> string list" where
  "mergeEndpoints existing incoming = existing @ filter (\<lambda>ep. ep \<notin> set existing) incoming"

definition peers_update :: "'b bolt \<Rightarrow> ('b \<times> 'b \<Rightarrow> ('b \<times> 'b) outcome) \<Rightarrow> 'b peerstore \<Rightarrow> unit outcome \<times> 'b peerstore" where
  "peers_update B fn s = (let (r, db) = db_update B fn (ps_db s) in (r, s\<lparr>ps_db := db\<rparr>))"

text \<open>The part of \<open>PutPeer\<close> that looks at the known peer, and the whole transaction.\<close>

definition merge_known :: "raw option \<Rightarrow> peer \<Rightarrow> peer outcome" where
  "merge_known found p =
     (case found of
        None \<Rightarrow> Ok p
      | Some existing \<Rightarrow>
          (case unmarshal_peer existing of
             None \<Rightarrow> Err (Wrap ''unmarshal existing peer'' (Message ''json''))
           | Some prev \<Rightarrow>
               if p_PublicKey prev \<noteq> p_PublicKey p then Err ErrKeyChanged
               else Ok (p\<lparr>p_Endpoints := mergeEndpoints (p_Endpoints prev) (p_Endpoints p)\<rparr>)))"

definition putPeer_tx :: "'b bolt \<Rightarrow> gotime \<Rightarrow> peer \<Rightarrow> 'b \<times> 'b \<Rightarrow> ('b \<times> 'b) outcome" where
  "putPeer_tx B now p = (\<lambda>(pb, nb).
     obind (merge_known (bkt_get B pb (list_of (p_NodeID p))) p) (\<lambda>updated.
     let updated = (if p_TrustState updated = '''' then updated\<lparr>p_TrustState := TrustTOFU\<rparr> else updated);
         updated = updated\<lparr>p_LastSeen := now\<rparr>
     in obind (owrap ''marshal peer'' (marshal_peer updated)) (\<lambda>data.
        obind (b_put B pb (list_of (p_NodeID p)) data) (\<lambda>pb'. Ok (pb', nb)))))"

definition PutPeer :: "'b bolt \<Rightarrow> gotime \<Rightarrow> 'b peerstore \<Rightarrow> peer \<Rightarrow> unit outcome \<times> 'b peerstore" where
  "PutPeer B now s p = peers_update B (putPeer_tx B now p) s"

definition GetPeer :: "'b bolt \<Rightarrow> 'b peerstore \<Rightarrow> id32 \<Rightarrow> peer option outcome" where
  "GetPeer B s nodeID =
     (case bkt_get B (fst (ps_db s)) (list_of nodeID) of
        None \<Rightarrow> Ok None
      | Some data \<Rightarrow> (case unmarshal_peer data of
                        None \<Rightarrow> Err (Wrap ''get peer'' (Message ''json'')) | Some p \<Rightarrow> Ok (Some p)))"

fun foreach_peer :: "(bytes \<times> raw) list \<Rightarrow> peer list outcome" where
  "foreach_peer [] = Ok []"
| "foreach_peer ((k, v) # kvs) =
     (case unmarshal_peer v of
        None \<Rightarrow> Err (Message ''json'')
      | Some p \<Rightarrow> obind (foreach_peer kvs) (\<lambda>ps. Ok (p # ps)))"

definition ListPeers :: "'b bolt \<Rightarrow> 'b peerstore \<Rightarrow> peer list outcome" where
  "ListPeers B s = owrap ''list peers'' (foreach_peer (bkt_items B (fst (ps_db s))))"

definition updateLastSeen_tx :: "'b bolt \<Rightarrow> gotime \<Rightarrow> id32 \<Rightarrow> 'b \<times> 'b \<Rightarrow> ('b \<times> 'b) outcome" where
  "updateLastSeen_tx B now nodeID = (\<lambda>(pb, nb).
     case bkt_get B pb (list_of nodeID) of
       None \<Rightarrow> Ok (pb, nb)
     | Some data \<Rightarrow>
         (case unmarshal_peer data of
            None \<Rightarrow> Err (Wrap ''unmarshal peer'' (Message ''json''))
          | Some p \<Rightarrow>
              obind (owrap ''marshal peer'' (marshal_peer (p\<lparr>p_LastSeen := now\<rparr>))) (\<lambda>updated.
              obind (b_put B pb (list_of nodeID) updated) (\<lambda>pb'. Ok (pb', nb)))))"

definition UpdateLastSeen :: "'b bolt \<Rightarrow> gotime \<Rightarrow> 'b peerstore \<Rightarrow> id32 \<Rightarrow> unit outcome \<times> 'b peerstore" where
  "UpdateLastSeen B now s nodeID = peers_update B (updateLastSeen_tx B now nodeID) s"

definition HasNonce :: "'b bolt \<Rightarrow> 'b peerstore \<Rightarrow> id16 \<Rightarrow> bool outcome" where
  "HasNonce B s nonce = Ok (bkt_get B (snd (ps_db s)) (list_of nonce) \<noteq> None)"

definition SaveNonce :: "'b bolt \<Rightarrow> 'b peerstore \<Rightarrow> id16 \<Rightarrow> unit outcome \<times> 'b peerstore" where
  "SaveNonce B s nonce =
     peers_update B (\<lambda>(pb, nb). obind (b_put B nb (list_of nonce) (Text [])) (\<lambda>nb'. Ok (pb, nb'))) s"

lemma peers_update_cases:
  obtains (commit) db' where "fn (ps_db s) = Ok db'" "peers_update B fn s = (Ok (), s\<lparr>ps_db := db'\<rparr>)" "bkt_commit B db'"
    | (abort) r where "r \<noteq> Ok ()" "peers_update B fn s = (r, s)"
proof (cases "\<exists>db'. fn (ps_db s) = Ok db' \<and> bkt_commit B db'")
  case True
  then show thesis by (auto simp: peers_update_def db_update_def intro: commit)
next
  case False
  then have "\<exists>r. r \<noteq> Ok () \<and> peers_update B fn s = (r, s)"
    by (cases "fn (ps_db s)") (auto simp: peers_update_def db_update_def)
  with abort show thesis by blast
qed

lemma list_of_key_ok [simp]: "key_ok (list_of (n :: id32))" "key_ok (list_of (m :: id16))"
  by (simp_all add: key_ok_def flip: length_greater_0_conv)

section \<open>Tables\<close>

text \<open>The peers as a table by node id, and the nonces as a set.\<close>

definition known :: "'b bolt \<Rightarrow> 'b peerstore \<Rightarrow> id32 \<Rightarrow> peer option" where
  "known B s n = Option.bind (bkt_get B (fst (ps_db s)) (list_of n)) unmarshal_peer"

definition used_nonce :: "'b bolt \<Rightarrow> 'b peerstore \<Rightarrow> id16 \<Rightarrow> bool" where
  "used_nonce B s n \<longleftrightarrow> bkt_get B (snd (ps_db s)) (list_of n) \<noteq> None"

text \<open>Every value of the bucket \<open>peers\<close> is a peer stored under its own node id.\<close>

definition peers_inv :: "'b bolt \<Rightarrow> 'b peerstore \<Rightarrow> bool" where
  "peers_inv B s \<longleftrightarrow> (\<forall>k r. bkt_get B (fst (ps_db s)) k = Some r \<longrightarrow>
     (\<exists>p. unmarshal_peer r = Some p \<and> k = list_of (p_NodeID p)))"

lemma peers_invD:
  "peers_inv B s \<Longrightarrow> bkt_get B (fst (ps_db s)) (list_of n) = Some r \<Longrightarrow>
   \<exists>p. unmarshal_peer r = Some p \<and> p_NodeID p = n"
  unfolding peers_inv_def by (metis list_of_eq_iff)

lemma GetPeer_known: "peers_inv B s \<Longrightarrow> GetPeer B s n = Ok (known B s n)"
  using peers_invD [of B s n]
  by (cases "bkt_get B (fst (ps_db s)) (list_of n)") (auto simp: GetPeer_def known_def)

definition put_result :: "gotime \<Rightarrow> peer option \<Rightarrow> peer \<Rightarrow> peer" where
  "put_result now prev p = p\<lparr>
     p_Endpoints := (case prev of None \<Rightarrow> p_Endpoints p | Some q \<Rightarrow> mergeEndpoints (p_Endpoints q) (p_Endpoints p)),
     p_TrustState := (if p_TrustState p = '''' then TrustTOFU else p_TrustState p),
     p_LastSeen := now\<rparr>"

lemma merge_known_ok:
  "peers_inv B s \<Longrightarrow> merge_known (bkt_get B (fst (ps_db s)) (list_of (p_NodeID p))) p = Ok u \<Longrightarrow>
   (case known B s (p_NodeID p) of None \<Rightarrow> u = p
    | Some q \<Rightarrow> p_PublicKey q = p_PublicKey p \<and> u = p\<lparr>p_Endpoints := mergeEndpoints (p_Endpoints q) (p_Endpoints p)\<rparr>)"
  using peers_invD [of B s "p_NodeID p"]
  by (cases "bkt_get B (fst (ps_db s)) (list_of (p_NodeID p))")
    (auto simp: merge_known_def known_def split: if_splits)

context bolt_laws
begin

lemma put_peer_raw:
  assumes "peers_inv B s" and "marshal_peer p = Ok data" and "b_put B (fst (ps_db s)) (list_of (p_NodeID p)) data = Ok pb'"
  shows "known B (s\<lparr>ps_db := (pb', nb)\<rparr>) = (known B s)(p_NodeID p \<mapsto> stored_peer p)"
    and "peers_inv B (s\<lparr>ps_db := (pb', nb)\<rparr>)"
proof -
  have get: "bkt_get B pb' = (bkt_get B (fst (ps_db s)))(list_of (p_NodeID p) \<mapsto> data)"
    by (rule put_get [OF _ assms(3)]) simp
  show "known B (s\<lparr>ps_db := (pb', nb)\<rparr>) = (known B s)(p_NodeID p \<mapsto> stored_peer p)"
    by (auto simp: fun_eq_iff known_def get unmarshal_marshal_peer [OF assms(2)])
  show "peers_inv B (s\<lparr>ps_db := (pb', nb)\<rparr>)"
    using assms(1) unmarshal_marshal_peer [OF assms(2)] by (auto simp: peers_inv_def get)
qed

lemma PutPeer_effect:
  assumes inv: "peers_inv B s"
  obtains (stored) "fst (PutPeer B now s p) = Ok ()"
      "\<forall>q. known B s (p_NodeID p) = Some q \<longrightarrow> p_PublicKey q = p_PublicKey p"
      "known B (snd (PutPeer B now s p)) =
        (known B s)(p_NodeID p \<mapsto> stored_peer (put_result now (known B s (p_NodeID p)) p))"
      "snd (ps_db (snd (PutPeer B now s p))) = snd (ps_db s)" "peers_inv B (snd (PutPeer B now s p))"
    | (rejected) "fst (PutPeer B now s p) \<noteq> Ok ()" "snd (PutPeer B now s p) = s"
proof (cases rule: peers_update_cases [of "putPeer_tx B now p" s B])
  case (commit db')
  obtain pb nb where db: "ps_db s = (pb, nb)" by (cases "ps_db s")
  from commit(1) obtain u data pb' where u: "merge_known (bkt_get B pb (list_of (p_NodeID p))) p = Ok u"
    and m: "marshal_peer ((if p_TrustState u = '''' then u\<lparr>p_TrustState := TrustTOFU\<rparr> else u)\<lparr>p_LastSeen := now\<rparr>) = Ok data"
    and put: "b_put B pb (list_of (p_NodeID p)) data = Ok pb'" and db': "db' = (pb', nb)"
    by (auto simp: putPeer_tx_def db outcome_simps Let_def)
  let ?r = "put_result now (known B s (p_NodeID p)) p"
  from merge_known_ok [OF inv, of p u] u have k:
    "\<forall>q. known B s (p_NodeID p) = Some q \<longrightarrow> p_PublicKey q = p_PublicKey p"
    and r: "?r = (if p_TrustState u = '''' then u\<lparr>p_TrustState := TrustTOFU\<rparr> else u)\<lparr>p_LastSeen := now\<rparr>"
    by (auto simp: db put_result_def split: option.splits)
  have id: "p_NodeID ?r = p_NodeID p" by (simp add: put_result_def)
  note raw = put_peer_raw [OF inv m [folded r], unfolded id db fst_conv, OF put, of nb]
  show thesis
    by (rule stored) (use commit(2) k raw in \<open>simp_all add: PutPeer_def db' db\<close>)
next
  case (abort r)
  then show thesis by (intro rejected) (simp_all add: PutPeer_def)
qed

lemma UpdateLastSeen_effect:
  assumes inv: "peers_inv B s"
  shows "peers_inv B (snd (UpdateLastSeen B now s n))"
    and "map_option p_PublicKey (known B (snd (UpdateLastSeen B now s n)) m) = map_option p_PublicKey (known B s m)"
    and "snd (ps_db (snd (UpdateLastSeen B now s n))) = snd (ps_db s)"
proof -
  obtain pb nb where db: "ps_db s = (pb, nb)" by (cases "ps_db s")
  have "peers_inv B s' \<and> map_option p_PublicKey (known B s' m) = map_option p_PublicKey (known B s m) \<and>
      snd (ps_db s') = snd (ps_db s)" if s': "s' = snd (UpdateLastSeen B now s n)" for s'
  proof (cases rule: peers_update_cases [of "updateLastSeen_tx B now n" s B])
    case (commit db')
    show ?thesis
    proof (cases "bkt_get B pb (list_of n)")
      case None
      with commit(1) have "s\<lparr>ps_db := db'\<rparr> = s" by (cases s) (use db in \<open>auto simp: updateLastSeen_tx_def\<close>)
      with commit(2) show ?thesis using inv by (simp add: s' UpdateLastSeen_def)
    next
      case (Some data)
      with peers_invD [OF inv, of n data] db obtain p where p: "unmarshal_peer data = Some p" "p_NodeID p = n" by auto
      with commit(1) Some obtain d pb' where m: "marshal_peer (p\<lparr>p_LastSeen := now\<rparr>) = Ok d"
        and put: "b_put B pb (list_of n) d = Ok pb'" and db': "db' = (pb', nb)"
        by (auto simp: updateLastSeen_tx_def db outcome_simps)
      from put_peer_raw [OF inv m, of pb' nb] put commit(2) p Some show ?thesis
        by (simp add: s' UpdateLastSeen_def db db' known_def)
    qed
  next
    case (abort r)
    then show ?thesis using inv by (simp add: s' UpdateLastSeen_def)
  qed
  from this [OF refl] show "peers_inv B (snd (UpdateLastSeen B now s n))"
    "map_option p_PublicKey (known B (snd (UpdateLastSeen B now s n)) m) = map_option p_PublicKey (known B s m)"
    "snd (ps_db (snd (UpdateLastSeen B now s n))) = snd (ps_db s)"
    by simp_all
qed

end


section \<open>Nonces\<close>

text \<open>The store keeps the contract of \<open>NonceStore\<close>.\<close>

sublocale bolt_laws \<subseteq> nonces: nonce_store "HasNonce B" "SaveNonce B"
proof
  note defs = SaveNonce_def HasNonce_def
  fix s s' :: "'b peerstore" and n m :: id16
  let ?tx = "\<lambda>(pb, nb). obind (b_put B nb (list_of n) (Text [])) (\<lambda>nb'. Ok (pb, nb'))"
  have get: "bkt_get B nb' = (bkt_get B nb)(list_of n \<mapsto> Text [])"
    if "b_put B nb (list_of n) (Text []) = Ok nb'" for nb nb'
    by (rule put_get [OF _ that]) simp
  show "HasNonce B s' n = Ok True" if "SaveNonce B s n = (Ok (), s')"
    by (cases rule: peers_update_cases [of ?tx s B])
      (use that get in \<open>auto simp: defs outcome_simps split: prod.splits\<close>)
  show "HasNonce B (snd (SaveNonce B s n)) m = Ok True" if "HasNonce B s m = Ok True"
    by (cases rule: peers_update_cases [of ?tx s B])
      (use that get in \<open>auto simp: defs outcome_simps split: prod.splits\<close>)
qed

section \<open>Reachable stores\<close>

text \<open>What no operation of the store breaks: a known peer stays known and keeps its key.\<close>

definition keys_kept :: "'b bolt \<Rightarrow> 'b peerstore \<Rightarrow> 'b peerstore \<Rightarrow> bool" where
  "keys_kept B s s' \<longleftrightarrow> (\<forall>n p. known B s n = Some p \<longrightarrow> (\<exists>p'. known B s' n = Some p' \<and> p_PublicKey p' = p_PublicKey p))"

inductive peers_step :: "'b bolt \<Rightarrow> 'b peerstore \<Rightarrow> 'b peerstore \<Rightarrow> bool" for B :: "'b bolt" where
  step_put: "peers_step B s (snd (PutPeer B now s p))"
| step_seen: "peers_step B s (snd (UpdateLastSeen B now s n))"
| step_nonce: "peers_step B s (snd (SaveNonce B s nonce))"
| step_validate: "peers_step B s (snd (Validate C (HasNonce B) (SaveNonce B) now t raw s))"
| step_reopen: "OpenPeers B (Ok (Some (fst (ps_db s)), Some (snd (ps_db s)))) = Ok s' \<Longrightarrow> peers_step B s s'"

definition peers_reach :: "'b bolt \<Rightarrow> 'b peerstore \<Rightarrow> bool" where
  "peers_reach B s \<longleftrightarrow> (\<exists>s0. OpenPeers B (Ok (None, None)) = Ok s0 \<and> (peers_step B)\<^sup>*\<^sup>* s0 s)"

context bolt_laws
begin

lemma SaveNonce_peers: "fst (ps_db (snd (SaveNonce B s n))) = fst (ps_db s)"
  by (cases rule: peers_update_cases [of "\<lambda>(pb, nb). obind (b_put B nb (list_of n) (Text [])) (\<lambda>nb'. Ok (pb, nb'))" s B])
    (auto simp: SaveNonce_def outcome_simps split: prod.splits)

lemma same_peers: "fst (ps_db s') = fst (ps_db s) \<Longrightarrow> peers_inv B s' = peers_inv B s \<and> known B s' = known B s"
  by (simp add: peers_inv_def known_def fun_eq_iff)

lemma OpenPeers_new: "OpenPeers B (Ok (None, None)) = Ok s \<Longrightarrow> peers_inv B s"
  by (auto simp: OpenPeers_def create_buckets_def Let_def outcome_simps peers_inv_def get_items new_law split: if_splits)

lemma OpenPeers_again:
  "OpenPeers B (Ok (Some (fst (ps_db s)), Some (snd (ps_db s)))) = Ok s' \<Longrightarrow> ps_db s' = ps_db s"
  by (auto simp: OpenPeers_def create_buckets_def Let_def outcome_simps split: if_splits)

text \<open>A step keeps the invariant, never changes the key of a known peer, and never forgets one.\<close>

lemma peers_step_keeps:
  assumes "peers_step B s s'" and "peers_inv B s"
  shows "peers_inv B s' \<and> keys_kept B s s'"
  using assms
proof cases
  case (step_put now p)
  show ?thesis
    using assms(2)
  proof (cases rule: PutPeer_effect [where now = now and p = p])
    case stored
    have "p_PublicKey (stored_peer (put_result now k p)) = p_PublicKey p" for k
      by (simp add: put_result_def)
    with stored(2,3,5) show ?thesis unfolding step_put keys_kept_def by fastforce
  next
    case rejected
    with assms(2) show ?thesis by (simp add: step_put keys_kept_def)
  qed
next
  case (step_seen now n)
  have "\<exists>p'. known B s' m = Some p' \<and> p_PublicKey p' = p_PublicKey p" if "known B s m = Some p" for m p
    using UpdateLastSeen_effect(2) [OF assms(2), of now n m] that by (auto simp: step_seen)
  with UpdateLastSeen_effect(1) [OF assms(2)] show ?thesis by (simp add: step_seen keys_kept_def)
next
  case (step_nonce nonce)
  with same_peers [OF SaveNonce_peers] assms(2) show ?thesis by (simp add: keys_kept_def)
next
  case (step_validate C now t raw)
  with Validate_state [of C "HasNonce B" "SaveNonce B" now t raw s] have "fst (ps_db s') = fst (ps_db s)"
    using SaveNonce_peers by auto
  with same_peers [of s' s] assms(2) show ?thesis by (simp add: keys_kept_def)
next
  case step_reopen
  with same_peers [of s' s] OpenPeers_again [of s s'] assms(2) show ?thesis by (simp add: keys_kept_def)
qed

end

sublocale bolt_laws \<subseteq> peers_run: guarded_steps "peers_step B" "peers_inv B" "keys_kept B"
  using peers_step_keeps by unfold_locales (auto simp: keys_kept_def, metis)

context bolt_laws
begin

lemma peers_steps_keep: "(peers_step B)\<^sup>*\<^sup>* s s' \<Longrightarrow> peers_inv B s \<Longrightarrow> peers_inv B s' \<and> keys_kept B s s'"
  by (rule peers_run.steps_keep)

lemma peers_reach_inv: "peers_reach B s \<Longrightarrow> peers_inv B s"
  unfolding peers_reach_def using OpenPeers_new peers_steps_keep by blast

end


section \<open>Properties\<close>

context bolt_laws
begin

lemma peers_update_not_ok: "fn (ps_db s) = Err e \<Longrightarrow> peers_update B fn s = (Err e, s)"
  by (simp add: peers_update_def db_update_def)

lemma nonce_accepted_once: "distinct (accepted (fst (validate_all C (HasNonce B) (SaveNonce B) vs s)))"
  by (rule nonces.accepted_distinct)

lemma PutPeer_key_changed:
  assumes "peers_inv B s" and "known B s (p_NodeID p) = Some q" and "p_PublicKey q \<noteq> p_PublicKey p"
  shows "PutPeer B now s p = (Err ErrKeyChanged, s)"
proof -
  obtain pb nb where db: "ps_db s = (pb, nb)" by (cases "ps_db s")
  from assms(2) obtain r where "bkt_get B pb (list_of (p_NodeID p)) = Some r" "unmarshal_peer r = Some q"
    by (auto simp: known_def db bind_eq_Some_conv)
  with assms(3) have "putPeer_tx B now p (ps_db s) = Err ErrKeyChanged"
    by (simp add: putPeer_tx_def merge_known_def db)
  then show ?thesis unfolding PutPeer_def by (rule peers_update_not_ok)
qed

lemma PutPeer_succeeds:
  assumes "peers_inv B s" and "json_time_ok now" and "\<And>db. bkt_commit B db"
    and "\<And>q. known B s (p_NodeID p) = Some q \<Longrightarrow> p_PublicKey q = p_PublicKey p"
  shows "fst (PutPeer B now s p) = Ok ()"
proof -
  obtain pb nb where db: "ps_db s = (pb, nb)" by (cases "ps_db s")
  have "\<exists>u. merge_known (bkt_get B pb (list_of (p_NodeID p))) p = Ok u"
  proof (cases "bkt_get B pb (list_of (p_NodeID p))")
    case (Some r)
    with peers_invD [OF assms(1)] db obtain q where "unmarshal_peer r = Some q" by fastforce
    with Some assms(4) [of q] show ?thesis by (simp add: merge_known_def known_def db)
  qed (simp add: merge_known_def)
  then obtain u where u: "merge_known (bkt_get B pb (list_of (p_NodeID p))) p = Ok u" by blast
  let ?u = "(if p_TrustState u = '''' then u\<lparr>p_TrustState := TrustTOFU\<rparr> else u)\<lparr>p_LastSeen := now\<rparr>"
  obtain pb' where "b_put B pb (list_of (p_NodeID p)) (Json (peer_json ?u)) = Ok pb'"
    using put_ok [of "list_of (p_NodeID p)" pb "Json (peer_json ?u)"] by auto
  then have "putPeer_tx B now p (ps_db s) = Ok (pb', nb)"
    using assms(2) by (simp add: putPeer_tx_def db u Let_def marshal_peer_def)
  with assms(3) show ?thesis by (simp add: PutPeer_def peers_update_def db_update_def)
qed

end

abbreviation ex_peers :: "ref_bucket peerstore" where
  "ex_peers \<equiv> \<lparr>ps_db = ([], [])\<rparr>"

abbreviation ex_peer :: "byte \<Rightarrow> string list \<Rightarrow> peer" where
  "ex_peer k eps \<equiv> \<lparr>p_NodeID = arr_of [1], p_PublicKey = [k], p_Endpoints = eps, p_TrustState = '''', p_LastSeen = 0\<rparr>"

lemma ex_peers_reach: "peers_reach ref_bolt ex_peers"
  by (auto simp: peers_reach_def OpenPeers_def create_buckets_def)

abbreviation ex_peers1 :: "ref_bucket peerstore" where
  "ex_peers1 \<equiv> snd (PutPeer ref_bolt 0 ex_peers (ex_peer 7 []))"

lemma ex_peers1_reach: "peers_reach ref_bolt ex_peers1"
  using ex_peers_reach step_put [of ref_bolt ex_peers 0 "ex_peer 7 []"]
  unfolding peers_reach_def by (meson rtranclp.rtrancl_into_rtrancl)

lemma ex_known1: "known ref_bolt ex_peers1 (arr_of [1]) = Some (stored_peer (put_result 0 None (ex_peer 7 [])))"
proof -
  have inv: "peers_inv ref_bolt ex_peers" by (rule ref.peers_reach_inv [OF ex_peers_reach])
  have "json_time_ok 0" by (simp add: json_time_ok_def time_min_def time_max_def)
  then have "fst (PutPeer ref_bolt 0 ex_peers (ex_peer 7 [])) = Ok ()"
    by (intro ref.PutPeer_succeeds [OF inv]) (auto simp: known_def)
  with inv show ?thesis
    by (cases rule: ref.PutPeer_effect [where now = 0 and p = "ex_peer 7 []"]) (auto simp: known_def)
qed

lemma foreach_peer_map:
  "\<forall>kv \<in> set kvs. unmarshal_peer (snd kv) \<noteq> None \<Longrightarrow> foreach_peer kvs = Ok (map (\<lambda>kv. the (unmarshal_peer (snd kv))) kvs)"
  by (induction kvs rule: foreach_peer.induct) auto

context bolt_laws
begin

lemma peer_items:
  "peers_inv B s \<Longrightarrow> (k, r) \<in> set (bkt_items B (fst (ps_db s))) \<Longrightarrow> \<exists>p. unmarshal_peer r = Some p \<and> k = list_of (p_NodeID p)"
  by (simp add: peers_inv_def in_items_iff)

lemma ListPeers_known:
  assumes "peers_inv B s"
  obtains ps where "ListPeers B s = Ok ps" "distinct (map p_NodeID ps)" "\<And>p. p \<in> set ps \<longleftrightarrow> known B s (p_NodeID p) = Some p"
proof -
  let ?items = "bkt_items B (fst (ps_db s))" and ?peer = "\<lambda>kv. the (unmarshal_peer (snd kv))"
  note item = peer_items [OF assms]
  have key: "list_of (p_NodeID (?peer kv)) = fst kv" "unmarshal_peer (snd kv) = Some (?peer kv)" if "kv \<in> set ?items" for kv
    using item [of "fst kv" "snd kv"] that by auto
  have "map (list_of \<circ> p_NodeID \<circ> ?peer) ?items = map fst ?items"
    using key by (intro map_cong) auto
  then have "distinct (map (list_of \<circ> p_NodeID \<circ> ?peer) ?items)" by (simp only: items_distinct)
  then have dist: "distinct (map p_NodeID (map ?peer ?items))"
    by (auto simp: distinct_map inj_on_def)
  have mem: "p \<in> set (map ?peer ?items) \<longleftrightarrow> known B s (p_NodeID p) = Some p" for p
  proof
    assume "p \<in> set (map ?peer ?items)"
    then obtain kv where "kv \<in> set ?items" "p = ?peer kv" by auto
    then show "known B s (p_NodeID p) = Some p"
      using key [of kv] in_items_iff [of "fst kv" "snd kv" "fst (ps_db s)"] by (simp add: known_def)
  next
    assume "known B s (p_NodeID p) = Some p"
    then obtain r where "bkt_get B (fst (ps_db s)) (list_of (p_NodeID p)) = Some r" "unmarshal_peer r = Some p"
      by (auto simp: known_def bind_eq_Some_conv)
    then show "p \<in> set (map ?peer ?items)"
      using in_items_iff [of "list_of (p_NodeID p)" r "fst (ps_db s)"] by force
  qed
  have "ListPeers B s = Ok (map ?peer ?items)"
    unfolding ListPeers_def by (subst foreach_peer_map) (use key(2) in auto)
  then show thesis using dist mem by (rule that)
qed

end



text \<open>
  C3. Trust on first use: once a peer is known, no sequence of \<open>PutPeer\<close>, \<open>UpdateLastSeen\<close>,
  \<open>SaveNonce\<close>, \<open>Validate\<close> and reopening of the database changes its public key or forgets the peer.
\<close>

theorem tofu_key_pinned:
  assumes "bolt_laws B" and "peers_reach B s" and "(peers_step B)\<^sup>*\<^sup>* s s'" and "GetPeer B s n = Ok (Some p)"
  shows "\<exists>p'. GetPeer B s' n = Ok (Some p') \<and> p_PublicKey p' = p_PublicKey p"
proof -
  note inv = bolt_laws.peers_reach_inv [OF assms(1,2)]
  note keep = bolt_laws.peers_steps_keep [OF assms(1,3) inv, unfolded keys_kept_def]
  from assms(4) have "known B s n = Some p" by (simp add: GetPeer_known [OF inv])
  with keep obtain p' where "known B s' n = Some p'" "p_PublicKey p' = p_PublicKey p" by blast
  with keep show ?thesis by (simp add: GetPeer_known)
qed

theorem tofu_key_pinned_witness:
  "\<exists>p'. GetPeer ref_bolt (snd (PutPeer ref_bolt 5 ex_peers1 (ex_peer 8 [''h:1'']))) (arr_of [1]) = Ok (Some p') \<and> p_PublicKey p' = [7]"
proof -
  have "GetPeer ref_bolt ex_peers1 (arr_of [1]) = Ok (Some (stored_peer (put_result 0 None (ex_peer 7 []))))"
    using ex_known1 by (simp add: GetPeer_known [OF ref.peers_reach_inv [OF ex_peers1_reach]])
  from tofu_key_pinned [OF ref.bolt_laws_axioms ex_peers1_reach _ this,
      OF r_into_rtranclp, OF step_put [where now = 5 and p = "ex_peer 8 [''h:1'']"]] show ?thesis
    by (simp add: put_result_def)
qed

text \<open>
  \<open>PutPeer\<close> on every branch, with a clock and a disk that work: a known node with another key is
  refused with \<open>ErrKeyChanged\<close> and nothing changes; otherwise the peer is stored with the known endpoints
  first, the new ones after them, the trust state it came with (\<open>tofu\<close> for none, whatever was stored) and the
  time of the call, and no other peer changes.
\<close>

lemma put_peer_outcome:
  assumes "bolt_laws B" and "peers_reach B s" and "json_time_ok now" and "\<forall>db. bkt_commit B db"
    and "GetPeer B s (p_NodeID p) = Ok prev"
  shows "if \<exists>q. prev = Some q \<and> p_PublicKey q \<noteq> p_PublicKey p
    then PutPeer B now s p = (Err ErrKeyChanged, s)
    else fst (PutPeer B now s p) = Ok () \<and>
      (\<forall>n. GetPeer B (snd (PutPeer B now s p)) n =
         (if n = p_NodeID p then Ok (Some (stored_peer (put_result now prev p))) else GetPeer B s n))"
proof -
  note inv = bolt_laws.peers_reach_inv [OF assms(1,2)]
  from assms(5) have prev: "known B s (p_NodeID p) = prev" by (simp add: GetPeer_known [OF inv])
  show ?thesis
  proof (cases "\<exists>q. prev = Some q \<and> p_PublicKey q \<noteq> p_PublicKey p")
    case True
    with prev bolt_laws.PutPeer_key_changed [OF assms(1) inv] show ?thesis by auto
  next
    case False
    then have ok: "fst (PutPeer B now s p) = Ok ()"
      using prev assms(4) by (intro bolt_laws.PutPeer_succeeds [OF assms(1) inv assms(3)]) auto
    obtain k: "known B (snd (PutPeer B now s p)) = (known B s)(p_NodeID p \<mapsto> stored_peer (put_result now prev p))"
      and inv': "peers_inv B (snd (PutPeer B now s p))"
      by (rule bolt_laws.PutPeer_effect [OF assms(1) inv, where now = now and p = p]) (use ok prev in auto)
    show ?thesis using False ok by (auto simp: GetPeer_known [OF inv] GetPeer_known [OF inv'] k)
  qed
qed

text \<open>
  C4. An invite is used once: in any sequence of validations of any links against the peer store, at
  any times, no nonce is accepted twice.
\<close>

theorem invite_used_once:
  assumes "bolt_laws B"
  shows "distinct (accepted (fst (validate_all C (HasNonce B) (SaveNonce B) vs s)))"
  by (rule bolt_laws.nonce_accepted_once [OF assms])

abbreviation ex_token :: token where
  "ex_token \<equiv> \<lparr>t_PublicKey = replicate 32 6, t_Endpoints = [], t_Nonce = arr_of [9], t_ExpiresAt = second\<rparr>"

abbreviation ex_link :: string where
  "ex_link \<equiv> link_prefix @ b64_encode (replicate 58 0 @ replicate 64 0)"

lemma ex_sig: "replicate 64 (0 :: byte) = replicate 63 0 @ [0]"
  by code_simp

lemma ex_link_valid: "fst (Validate ex_crypto (HasNonce ref_bolt) (SaveNonce ref_bolt) 0 ex_token ex_link ex_peers) = Ok ()"
  by (subst Validate_okI [where payload = "replicate 58 0" and sig = "replicate 64 0"
        and s' = "snd (SaveNonce ref_bolt ex_peers (arr_of [9]))"])
    (simp_all add: ex_crypto_def HasNonce_def SaveNonce_def peers_update_def db_update_def b_put_def sum_list_replicate
      flip: ex_sig)

theorem invite_used_once_witness:
  "accepted (fst (validate_all ex_crypto (HasNonce ref_bolt) (SaveNonce ref_bolt)
     [(0, ex_token, ex_link), (1, ex_token, ex_link)] ex_peers)) = [arr_of [9]]"
  using invite_used_once [OF ref.bolt_laws_axioms, of ex_crypto "[(0, ex_token, ex_link), (1, ex_token, ex_link)]" ex_peers] ex_link_valid
  by (auto simp: accepted_def split_beta Let_def split: if_splits)

end
