(* ===== verification/Store_Spec.thy ===== *)
theory Store_Spec
  imports Catalog_Spec Peerstore
begin

text \<open>
  The two stores seen from outside. What \<open>internal/catalog/store.go\<close> and \<open>internal/peerstore/store.go\<close> promise is stated without
  buckets, keys and JSON: a catalog is a table of entries by owner and file with a list of owner hints per file, a peer store is
  a table of peers by node id with a set of used nonces. Each transaction of the code has a specification on these tables, and a
  sequence of calls that succeed or fail in any pattern leaves the store at the tables that the successful ones make.
\<close>

section \<open>Transactions that commit or leave no trace\<close>

text \<open>A sequence of calls: the operations that returned nil, in order, and the state after all of them.\<close>

fun run_ops :: "('op \<Rightarrow> 's \<Rightarrow> unit outcome \<times> 's) \<Rightarrow> 'op list \<Rightarrow> 's \<Rightarrow> 'op list \<times> 's" where
  "run_ops run [] s = ([], s)"
| "run_ops run (x # xs) s =
     (let (r, s1) = run x s; (committed, s2) = run_ops run xs s1
      in (if r = Ok () then x # committed else committed, s2))"

text \<open>
  The contract: an operation that returns nil has the specified effect on the abstract state, and one that returns an error
  has none at all.
\<close>

locale transactional =
  fixes run :: "'op \<Rightarrow> 's \<Rightarrow> unit outcome \<times> 's" and spec :: "'op \<Rightarrow> 'a \<Rightarrow> 'a"
    and abs :: "'s \<Rightarrow> 'a" and inv :: "'s \<Rightarrow> bool"
  assumes commits: "inv s \<Longrightarrow> fst (run x s) = Ok () \<Longrightarrow> abs (snd (run x s)) = spec x (abs s)"
    and aborts: "inv s \<Longrightarrow> fst (run x s) \<noteq> Ok () \<Longrightarrow> snd (run x s) = s"
    and keeps: "inv s \<Longrightarrow> inv (snd (run x s))"
begin

lemma run_ops_refine:
  "run_ops run xs s = (committed, s') \<Longrightarrow> inv s \<Longrightarrow> abs s' = fold spec committed (abs s) \<and> inv s'"
proof (induction xs arbitrary: s committed)
  case (Cons x xs)
  obtain more where rest: "run_ops run xs (snd (run x s)) = (more, s')"
    and more: "committed = (if fst (run x s) = Ok () then x # more else more)"
    using Cons.prems(1) by (auto simp: Let_def split: prod.splits)
  note IH = Cons.IH [OF rest keeps [OF Cons.prems(2)]]
  show ?case
    using IH commits [OF Cons.prems(2), of x] aborts [OF Cons.prems(2), of x] by (cases "fst (run x s) = Ok ()") (simp_all add: more)
qed simp

end

section \<open>The catalog\<close>

record tables =
  tb_ent :: "id32 \<Rightarrow> id32 \<Rightarrow> entry option"
  tb_own :: "id32 \<Rightarrow> owner_hint list"

definition no_tables :: tables where
  "no_tables = \<lparr>tb_ent = (\<lambda>_ _. None), tb_own = (\<lambda>_. [])\<rparr>"

text \<open>The specification of the four transactions.\<close>

definition spec_put_local :: "id32 \<Rightarrow> (nat \<Rightarrow> gotime) \<Rightarrow> entry \<Rightarrow> tables \<Rightarrow> tables" where
  "spec_put_local self clk e T = T\<lparr>
     tb_ent := (\<lambda>a f. if a = self \<and> f = e_FileID e
       then Some (stored (e\<lparr>e_OwnerNodeID := self, e_UpdatedAt := clk 0, e_Deleted := False\<rparr>)) else tb_ent T a f),
     tb_own := (tb_own T)(e_FileID e := touch_hint self (clk 1) (tb_own T (e_FileID e)))\<rparr>"

definition spec_delete_local :: "id32 \<Rightarrow> (nat \<Rightarrow> gotime) \<Rightarrow> id32 \<Rightarrow> tables \<Rightarrow> tables" where
  "spec_delete_local self clk f T =
     (case tb_ent T self f of
        None \<Rightarrow> T
      | Some e \<Rightarrow> T\<lparr>
          tb_ent := (\<lambda>a g. if a = self \<and> g = f then Some (e\<lparr>e_Deleted := True, e_UpdatedAt := clk 0\<rparr>) else tb_ent T a g),
          tb_own := (tb_own T)(f := filter (\<lambda>h. h_NodeID h \<noteq> self) (tb_own T f))\<rparr>)"

fun spec_hints :: "(nat \<Rightarrow> gotime) \<Rightarrow> id32 \<Rightarrow> nat \<Rightarrow> entry list \<Rightarrow> (id32 \<Rightarrow> owner_hint list) \<Rightarrow> id32 \<Rightarrow> owner_hint list" where
  "spec_hints clk p i [] hints = hints"
| "spec_hints clk p i (e # es) hints =
     spec_hints clk p (Suc i) es
       (if e_Deleted e then hints else hints(e_FileID e := touch_hint p (clk (2 * i + 1)) (hints (e_FileID e))))"

definition spec_put_peer :: "(nat \<Rightarrow> gotime) \<Rightarrow> id32 \<Rightarrow> entry list \<Rightarrow> tables \<Rightarrow> tables" where
  "spec_put_peer clk p es T = T\<lparr>
     tb_ent := (\<lambda>a f. if a = p then offered clk p 0 es f else tb_ent T a f),
     tb_own := spec_hints clk p 0 es (tb_own T)\<rparr>"

definition spec_remove_peer :: "id32 \<Rightarrow> tables \<Rightarrow> tables" where
  "spec_remove_peer p T = T\<lparr>
     tb_ent := (\<lambda>a f. if a = p then None else tb_ent T a f),
     tb_own := (\<lambda>f. case tb_ent T p f of
        None \<Rightarrow> tb_own T f
      | Some e \<Rightarrow> if e_Deleted e then tb_own T f else filter (\<lambda>h. h_NodeID h \<noteq> p) (tb_own T f))\<rparr>"

datatype catalog_op =
    OpPutLocal "nat \<Rightarrow> gotime" entry
  | OpDeleteLocal "nat \<Rightarrow> gotime" id32
  | OpPutPeer "nat \<Rightarrow> gotime" id32 "entry list"
  | OpRemovePeer id32

fun do_catalog :: "'b bolt \<Rightarrow> catalog_op \<Rightarrow> 'b store \<Rightarrow> unit outcome \<times> 'b store" where
  "do_catalog B (OpPutLocal clk e) s = PutLocal B clk s e"
| "do_catalog B (OpDeleteLocal clk f) s = DeleteLocal B clk s f"
| "do_catalog B (OpPutPeer clk p es) s = PutPeerEntries B clk s p es"
| "do_catalog B (OpRemovePeer p) s = RemovePeer B s p"

fun spec_catalog :: "id32 \<Rightarrow> catalog_op \<Rightarrow> tables \<Rightarrow> tables" where
  "spec_catalog self (OpPutLocal clk e) T = spec_put_local self clk e T"
| "spec_catalog self (OpDeleteLocal clk f) T = spec_delete_local self clk f T"
| "spec_catalog self (OpPutPeer clk p es) T = spec_put_peer clk p es T"
| "spec_catalog self (OpRemovePeer p) T = spec_remove_peer p T"

definition tables_of :: "'b bolt \<Rightarrow> 'b store \<Rightarrow> tables" where
  "tables_of B s = \<lparr>tb_ent = ent B (fst (st_db s)), tb_own = own B (snd (st_db s))\<rparr>"

lemma do_catalog_aborts: "fst (do_catalog B x s) \<noteq> Ok () \<Longrightarrow> snd (do_catalog B x s) = s"
  by (cases x) (auto simp: PutLocal_def DeleteLocal_def PutPeerEntries_def RemovePeer_def Let_def store_update_atomic)

lemma do_catalog_selfID [simp]: "st_selfID (snd (do_catalog B x s)) = st_selfID s"
  by (cases x) (simp_all add: PutLocal_def DeleteLocal_def PutPeerEntries_def RemovePeer_def Let_def)

context bolt_laws
begin

lemma do_catalog_inv: "catalog_inv B s \<Longrightarrow> catalog_inv B (snd (do_catalog B x s))"
  by (cases x) (simp_all add: PutLocal_inv DeleteLocal_inv PutPeerEntries_inv RemovePeer_inv)

lemma PutLocal_tables:
  assumes "fst (PutLocal B clk s e) = Ok ()"
  shows "tables_of B (snd (PutLocal B clk s e)) = spec_put_local (st_selfID s) clk e (tables_of B s)"
proof -
  let ?e = "e\<lparr>e_OwnerNodeID := st_selfID s, e_UpdatedAt := clk 0, e_Deleted := False\<rparr>"
  from assms [unfolded PutLocal_def Let_def] obtain eb ab db' where db: "st_db s = (eb, ab)"
    and tx: "obind (owrap ''put local'' (putEntry B eb ?e)) (\<lambda>eb'.
        obind (addAvailability B (clk 1) ab (e_FileID ?e) (st_selfID s)) (\<lambda>ab'. Ok (eb', ab'))) = Ok db'"
    and s': "st_db (snd (PutLocal B clk s e)) = db'"
    unfolding PutLocal_def Let_def by (rule store_update_okE) auto
  from tx obtain eb' ab' where "putEntry B eb ?e = Ok eb'" "addAvailability B (clk 1) ab (e_FileID e) (st_selfID s) = Ok ab'"
    "db' = (eb', ab')"
    by (auto simp: outcome_simps)
  then show ?thesis
    by (simp add: tables_of_def spec_put_local_def s' db fun_eq_iff putEntry_effect(1) addAvailability_effect(1))
qed

lemma DeleteLocal_tables:
  assumes inv: "catalog_inv B s" and ok: "fst (DeleteLocal B clk s f) = Ok ()"
  shows "tables_of B (snd (DeleteLocal B clk s f)) = spec_delete_local (st_selfID s) clk f (tables_of B s)"
proof -
  let ?key = "list_of (compositeKey (st_selfID s) f)"
  from ok [unfolded DeleteLocal_def] obtain eb ab db' where db: "st_db s = (eb, ab)"
    and tx: "(case bkt_get B eb ?key of None \<Rightarrow> Ok (eb, ab)
       | Some raw \<Rightarrow> (case unmarshal_entry raw of
              None \<Rightarrow> Err (Wrap ''delete local unmarshal'' (Message ''json''))
            | Some e \<Rightarrow> obind (owrap ''delete local'' (putEntry B eb (e\<lparr>e_Deleted := True, e_UpdatedAt := clk 0\<rparr>))) (\<lambda>eb'.
                obind (removeAvailability B ab f (st_selfID s)) (\<lambda>ab'. Ok (eb', ab'))))) = Ok db'"
    and s': "st_db (snd (DeleteLocal B clk s f)) = db'"
    unfolding DeleteLocal_def by (rule store_update_okE) auto
  from inv have k: "keyed B eb" and h: "hinted B ab" by (simp_all add: catalog_inv_def db_inv_def db)
  show ?thesis
  proof (cases "ent B eb (st_selfID s) f")
    case None
    then have "db' = (eb, ab)" using tx by (auto simp: ent_def split: option.splits)
    then show ?thesis using None by (simp add: tables_of_def spec_delete_local_def s' db)
  next
    case (Some e)
    let ?e = "e\<lparr>e_Deleted := True, e_UpdatedAt := clk 0\<rparr>"
    from keyed_ent [OF k Some] have ids: "e_OwnerNodeID e = st_selfID s" "e_FileID e = f" and st: "stored ?e = ?e"
      by (auto simp: stored_eq_iff)
    from tx Some obtain eb' ab' where put: "putEntry B eb ?e = Ok eb'"
      and rm: "removeAvailability B ab f (st_selfID s) = Ok ab'" and db': "db' = (eb', ab')"
      by (auto simp: ent_def bind_eq_Some_conv outcome_simps split: option.splits)
    have own: "own B ab' = (own B ab)(f := filter (\<lambda>h. h_NodeID h \<noteq> st_selfID s) (own B ab f))"
      by (rule removeAvailability_effect [OF h, of f "st_selfID s"]) (use rm in simp)
    show ?thesis
      by (simp add: tables_of_def spec_delete_local_def s' db db' Some own fun_eq_iff putEntry_effect(1) [OF put] ids st)
  qed
qed

lemma putPeer_loop_hints:
  "putPeer_loop B clk p i es (eb, ab) = Ok db' \<Longrightarrow> own B (snd db') = spec_hints clk p i es (own B ab)"
proof (induction es arbitrary: i eb ab)
  case (Cons e es)
  then obtain eb' ab' where avail: "if e_Deleted e then ab' = ab
      else addAvailability B (clk (2 * i + 1)) ab (e_FileID e) p = Ok ab'"
    and rest: "putPeer_loop B clk p (Suc i) es (eb', ab') = Ok db'"
    by (auto simp: Let_def outcome_simps split: if_splits)
  from Cons.IH [OF rest] avail show ?case by (auto simp: addAvailability_effect(1))
qed auto

lemma PutPeerEntries_tables:
  assumes ok: "fst (PutPeerEntries B clk s p es) = Ok ()"
  shows "tables_of B (snd (PutPeerEntries B clk s p es)) = spec_put_peer clk p es (tables_of B s)"
proof -
  from ok [unfolded PutPeerEntries_def] obtain eb ab db' where db: "st_db s = (eb, ab)"
    and tx: "obind (owrap ''put peer clear'' (deleteByPrefix B eb p)) (\<lambda>eb'. putPeer_loop B clk p 0 es (eb', ab)) = Ok db'"
    and s': "st_db (snd (PutPeerEntries B clk s p es)) = db'"
    unfolding PutPeerEntries_def by (rule store_update_okE) auto
  from tx obtain eb1 where "putPeer_loop B clk p 0 es (eb1, ab) = Ok db'" by (auto simp: outcome_simps)
  from putPeer_loop_hints [OF this] PutPeerEntries_ent [OF ok] show ?thesis
    by (simp add: tables_of_def spec_put_peer_def s' db fun_eq_iff)
qed

lemma RemovePeer_tables:
  assumes inv: "catalog_inv B s" and ok: "fst (RemovePeer B s p) = Ok ()"
  shows "tables_of B (snd (RemovePeer B s p)) = spec_remove_peer p (tables_of B s)"
proof -
  from ok [unfolded RemovePeer_def] obtain eb ab db' where db: "st_db s = (eb, ab)"
    and tx: "obind (removePeer_loop B p (listByPrefixTx B eb p) ab) (\<lambda>ab'.
       obind (deleteByPrefix B eb p) (\<lambda>eb'. Ok (eb', ab'))) = Ok db'"
    and s': "st_db (snd (RemovePeer B s p)) = db'"
    unfolding RemovePeer_def by (rule store_update_okE) auto
  from inv have k: "keyed B eb" and h: "hinted B ab" by (simp_all add: catalog_inv_def db_inv_def db)
  from tx obtain eb' ab' where rm: "removePeer_loop B p (listByPrefixTx B eb p) ab = Ok ab'"
    and del: "deleteByPrefix B eb p = Ok eb'" and db': "db' = (eb', ab')"
    by (auto simp: outcome_simps)
  from removePeer_loop_effect [OF h, of p "listByPrefixTx B eb p"] rm
  have own: "own B ab' = (\<lambda>f. if f \<in> e_FileID ` set (listByPrefixTx B eb p)
      then filter (\<lambda>h. h_NodeID h \<noteq> p) (own B ab f) else own B ab f)" by auto
  have "f \<in> e_FileID ` set (listByPrefixTx B eb p) \<longleftrightarrow> (\<exists>e. ent B eb p f = Some e \<and> \<not> e_Deleted e)" for f
    using keyed_ent [OF k, of p f] by (force simp: set_listByPrefixTx [OF k] image_iff)
  then show ?thesis
    by (auto simp: tables_of_def spec_remove_peer_def s' db db' own fun_eq_iff deleteByPrefix_tables(1) [OF del] split: option.split)
qed

lemma do_catalog_commits:
  "catalog_inv B s \<Longrightarrow> fst (do_catalog B x s) = Ok () \<Longrightarrow>
   tables_of B (snd (do_catalog B x s)) = spec_catalog (st_selfID s) x (tables_of B s)"
  by (cases x) (simp_all add: PutLocal_tables DeleteLocal_tables PutPeerEntries_tables RemovePeer_tables)

end

sublocale bolt_laws \<subseteq> catalog_tx: transactional "do_catalog B" "spec_catalog self" "tables_of B"
    "\<lambda>s. catalog_inv B s \<and> st_selfID s = self" for self
  by unfold_locales (auto simp: do_catalog_commits do_catalog_aborts do_catalog_inv)

context bolt_laws
begin

lemmas catalog_runs = catalog_tx.run_ops_refine

lemma tables_new: "Open B (Ok (None, None)) self = Ok s \<Longrightarrow> tables_of B s = no_tables \<and> st_selfID s = self"
  by (auto simp: Open_def create_buckets_def Let_def outcome_simps tables_of_def no_tables_def ent_def own_def
      get_items new_law fun_eq_iff split: if_splits)

lemma queries_read_tables:
  assumes "catalog_inv B s"
  shows "GetEntry B s a f = Ok (tb_ent (tables_of B s) a f)" and "GetOwners B s f = Ok (tb_own (tables_of B s) f)"
    and "set (ListByOwner B s a) = {e. \<not> e_Deleted e \<and> e_OwnerNodeID e = a \<and> tb_ent (tables_of B s) a (e_FileID e) = Some e}"
  using GetEntry_ent [OF assms] GetOwners_own [OF assms] set_listByPrefixTx [of "fst (st_db s)" a] assms
  by (simp_all add: tables_of_def catalog_inv_def db_inv_def ListByOwner_def listByPrefix_def)

end

section \<open>The peer store\<close>

record peer_tables =
  pt_known :: "id32 \<rightharpoonup> peer"
  pt_used :: "id16 set"

definition no_peers :: peer_tables where
  "no_peers = \<lparr>pt_known = Map.empty, pt_used = {}\<rparr>"

datatype peers_op = OpPut gotime peer | OpSeen gotime id32 | OpNonce id16

fun do_peers :: "'b bolt \<Rightarrow> peers_op \<Rightarrow> 'b peerstore \<Rightarrow> unit outcome \<times> 'b peerstore" where
  "do_peers B (OpPut now p) s = PutPeer B now s p"
| "do_peers B (OpSeen now n) s = UpdateLastSeen B now s n"
| "do_peers B (OpNonce n) s = SaveNonce B s n"

fun spec_peers :: "peers_op \<Rightarrow> peer_tables \<Rightarrow> peer_tables" where
  "spec_peers (OpPut now p) T =
     T\<lparr>pt_known := (pt_known T)(p_NodeID p \<mapsto> stored_peer (put_result now (pt_known T (p_NodeID p)) p))\<rparr>"
| "spec_peers (OpSeen now n) T =
     (case pt_known T n of
        None \<Rightarrow> T
      | Some p \<Rightarrow> T\<lparr>pt_known := (pt_known T)(n \<mapsto> stored_peer (p\<lparr>p_LastSeen := now\<rparr>))\<rparr>)"
| "spec_peers (OpNonce n) T = T\<lparr>pt_used := insert n (pt_used T)\<rparr>"

definition peer_tables_of :: "'b bolt \<Rightarrow> 'b peerstore \<Rightarrow> peer_tables" where
  "peer_tables_of B s = \<lparr>pt_known = known B s, pt_used = {n. used_nonce B s n}\<rparr>"

lemma do_peers_aborts: "fst (do_peers B x s) \<noteq> Ok () \<Longrightarrow> snd (do_peers B x s) = s"
proof -
  have "fst (peers_update B fn s) \<noteq> Ok () \<Longrightarrow> snd (peers_update B fn s) = s" for fn
    by (cases rule: peers_update_cases [of fn s B]) auto
  then show "fst (do_peers B x s) \<noteq> Ok () \<Longrightarrow> snd (do_peers B x s) = s"
    by (cases x) (auto simp: PutPeer_def UpdateLastSeen_def SaveNonce_def)
qed

context bolt_laws
begin

lemma SaveNonce_tables:
  assumes "fst (SaveNonce B s n) = Ok ()"
  shows "peer_tables_of B (snd (SaveNonce B s n)) = spec_peers (OpNonce n) (peer_tables_of B s)"
    and "fst (ps_db (snd (SaveNonce B s n))) = fst (ps_db s)"
proof -
  let ?tx = "\<lambda>(pb, nb). obind (b_put B nb (list_of n) (Text [])) (\<lambda>nb'. Ok (pb, nb'))"
  obtain pb nb where db: "ps_db s = (pb, nb)" by (cases "ps_db s")
  obtain nb' where put: "b_put B nb (list_of n) (Text []) = Ok nb'" and s': "snd (SaveNonce B s n) = s\<lparr>ps_db := (pb, nb')\<rparr>"
    by (cases rule: peers_update_cases [of ?tx s B]) (use assms db in \<open>auto simp: SaveNonce_def outcome_simps\<close>)
  have "bkt_get B nb' = (bkt_get B nb)(list_of n \<mapsto> Text [])" by (rule put_get [OF _ put]) simp
  then show "peer_tables_of B (snd (SaveNonce B s n)) = spec_peers (OpNonce n) (peer_tables_of B s)"
    and "fst (ps_db (snd (SaveNonce B s n))) = fst (ps_db s)"
    by (auto simp: peer_tables_of_def s' db known_def used_nonce_def fun_eq_iff)
qed

lemma UpdateLastSeen_tables:
  assumes inv: "peers_inv B s" and ok: "fst (UpdateLastSeen B now s n) = Ok ()"
  shows "peer_tables_of B (snd (UpdateLastSeen B now s n)) = spec_peers (OpSeen now n) (peer_tables_of B s)"
proof -
  obtain pb nb where db: "ps_db s = (pb, nb)" by (cases "ps_db s")
  obtain db' where tx: "updateLastSeen_tx B now n (pb, nb) = Ok db'" and s': "snd (UpdateLastSeen B now s n) = s\<lparr>ps_db := db'\<rparr>"
    by (cases rule: peers_update_cases [of "updateLastSeen_tx B now n" s B]) (use ok db in \<open>auto simp: UpdateLastSeen_def\<close>)
  show ?thesis
  proof (cases "bkt_get B pb (list_of n)")
    case None
    then have "db' = (pb, nb)" using tx by (simp add: updateLastSeen_tx_def)
    then show ?thesis using None by (simp add: peer_tables_of_def s' db known_def used_nonce_def fun_eq_iff)
  next
    case (Some data)
    with peers_invD [OF inv, of n data] obtain p where p: "unmarshal_peer data = Some p" "p_NodeID p = n" by (auto simp: db)
    with tx Some obtain d pb' where m: "marshal_peer (p\<lparr>p_LastSeen := now\<rparr>) = Ok d"
      and put: "b_put B pb (list_of n) d = Ok pb'" and db': "db' = (pb', nb)"
      by (auto simp: updateLastSeen_tx_def outcome_simps)
    from put_peer_raw [OF inv m, of pb' nb] put p Some show ?thesis
      by (simp add: peer_tables_of_def s' db db' known_def used_nonce_def)
  qed
qed

lemma do_peers_commits:
  assumes inv: "peers_inv B s" and ok: "fst (do_peers B x s) = Ok ()"
  shows "peer_tables_of B (snd (do_peers B x s)) = spec_peers x (peer_tables_of B s)"
proof (cases x)
  case (OpPut now p)
  show ?thesis
    by (cases rule: PutPeer_effect [OF inv, of now p]) (use ok OpPut in \<open>auto simp: peer_tables_of_def used_nonce_def\<close>)
next
  case (OpSeen now n)
  then show ?thesis using UpdateLastSeen_tables [OF inv] ok by simp
next
  case (OpNonce n)
  then show ?thesis using SaveNonce_tables(1) ok by simp
qed

lemma do_peers_inv:
  assumes inv: "peers_inv B s"
  shows "peers_inv B (snd (do_peers B x s))"
proof (cases "fst (do_peers B x s) = Ok ()")
  case True
  show ?thesis
  proof (cases x)
    case (OpPut now p)
    show ?thesis by (cases rule: PutPeer_effect [OF inv, of now p]) (use inv OpPut in auto)
  next
    case (OpSeen now n)
    then show ?thesis using UpdateLastSeen_effect(1) [OF inv] by simp
  next
    case (OpNonce n)
    then show ?thesis using SaveNonce_tables(2) [of s n] True inv by (simp add: peers_inv_def)
  qed
qed (simp add: do_peers_aborts inv)

end

sublocale bolt_laws \<subseteq> peers_tx: transactional "do_peers B" spec_peers "peer_tables_of B" "peers_inv B"
  by unfold_locales (auto simp: do_peers_commits do_peers_aborts do_peers_inv)

context bolt_laws
begin

lemmas peers_runs = peers_tx.run_ops_refine

lemma peer_tables_new: "OpenPeers B (Ok (None, None)) = Ok s \<Longrightarrow> peer_tables_of B s = no_peers \<and> peers_inv B s"
  by (auto simp: OpenPeers_def create_buckets_def Let_def outcome_simps peer_tables_of_def no_peers_def known_def used_nonce_def
      peers_inv_def get_items new_law fun_eq_iff split: if_splits)

end

section \<open>Properties\<close>

text \<open>
  C13. The catalog store implements its tables. After any sequence of calls on a new database, of which any may have failed, every
  query answers as the tables do that the successful calls alone make by their specifications: \<open>GetEntry\<close> and \<open>GetOwners\<close>
  return what stands there, and the three listings return exactly the live entries they are asked for.
\<close>

theorem catalog_is_tables:
  assumes "bolt_laws B" and "Open B (Ok (None, None)) self = Ok s0" and "run_ops (do_catalog B) calls s0 = (committed, s)"
    and "T = fold (spec_catalog self) committed no_tables"
  shows "GetEntry B s a f = Ok (tb_ent T a f) \<and> GetOwners B s f = Ok (tb_own T f)
    \<and> set (ListByOwner B s a) = {e. \<not> e_Deleted e \<and> e_OwnerNodeID e = a \<and> tb_ent T a (e_FileID e) = Some e}
    \<and> (\<exists>es. ListAll B s = Ok es \<and> distinct es \<and> set es = {e. \<not> e_Deleted e \<and> tb_ent T (e_OwnerNodeID e) (e_FileID e) = Some e})
    \<and> (\<exists>es. ListForPeer B s a = Ok es \<and> distinct es
         \<and> set es = {e. \<not> e_Deleted e \<and> tb_ent T (e_OwnerNodeID e) (e_FileID e) = Some e \<and> e_OwnerNodeID e \<noteq> a})"
proof -
  have new: "tables_of B s0 = no_tables" "catalog_inv B s0" "st_selfID s0 = self"
    using bolt_laws.tables_new [OF assms(1,2)] bolt_laws.Open_new_inv [OF assms(1,2)] by simp_all
  from bolt_laws.catalog_runs [OF assms(1,3), of self] new have T: "tables_of B s = T" and inv: "catalog_inv B s"
    by (simp_all add: assms(4))
  obtain all where "ListAll B s = Ok all" "distinct all"
    "set all = {e. \<not> e_Deleted e \<and> tb_ent T (e_OwnerNodeID e) (e_FileID e) = Some e}"
    by (rule bolt_laws.ListAll_spec [OF assms(1) inv]) (auto simp: tables_of_def simp flip: T)
  moreover obtain some where "ListForPeer B s a = Ok some" "distinct some"
    "set some = {e. \<not> e_Deleted e \<and> tb_ent T (e_OwnerNodeID e) (e_FileID e) = Some e \<and> e_OwnerNodeID e \<noteq> a}"
    by (rule bolt_laws.ListForPeer_spec [OF assms(1) inv, of a]) (auto simp: tables_of_def simp flip: T)
  ultimately show ?thesis using bolt_laws.queries_read_tables [OF assms(1) inv] by (simp add: T)
qed

lemma ex_open: "Open ref_bolt (Ok (None, None)) (arr_of [1]) = Ok ex_store"
  by (simp add: Open_def create_buckets_def)

lemma ex_put_ok: "fst (PutLocal ref_bolt (\<lambda>_. 0) ex_store (ex_entry 7)) = Ok ()"
  by (rule ref.PutLocal_effect [OF ex_inv, where clk = "\<lambda>_. 0" and e = "ex_entry 7"]) simp_all

theorem catalog_is_tables_witness:
  "GetOwners ref_bolt (snd (run_ops (do_catalog ref_bolt) [OpPutLocal (\<lambda>_. 0) (ex_entry 7)] ex_store)) (arr_of [7]) =
    Ok [\<lparr>h_NodeID = arr_of [1], h_SeenAt = 0\<rparr>]"
proof -
  have run: "run_ops (do_catalog ref_bolt) [OpPutLocal (\<lambda>_. 0) (ex_entry 7)] ex_store =
      ([OpPutLocal (\<lambda>_. 0) (ex_entry 7)], snd (PutLocal ref_bolt (\<lambda>_. 0) ex_store (ex_entry 7)))"
    using ex_put_ok by (simp add: split_beta Let_def)
  from catalog_is_tables [OF ref.bolt_laws_axioms ex_open run refl, of "arr_of [1]" "arr_of [7]"] show ?thesis
    by (simp add: run spec_put_local_def no_tables_def del: run_ops.simps)
qed

text \<open>
  C25. The peer store implements its tables. After any sequence of calls on a new database, of which any may have failed,
  \<open>GetPeer\<close> returns the peer that the successful calls alone make (endpoints merged, a missing trust state filled in, the time
  set), \<open>ListPeers\<close> returns exactly these peers, each once, and a nonce counts as used just when it was saved.
\<close>

theorem peers_is_tables:
  assumes "bolt_laws B" and "OpenPeers B (Ok (None, None)) = Ok s0" and "run_ops (do_peers B) calls s0 = (committed, s)"
    and "T = fold spec_peers committed no_peers"
  shows "GetPeer B s n = Ok (pt_known T n) \<and> HasNonce B s m = Ok (m \<in> pt_used T)
    \<and> (\<exists>ps. ListPeers B s = Ok ps \<and> distinct (map p_NodeID ps) \<and> set ps = {p. pt_known T (p_NodeID p) = Some p})"
proof -
  from bolt_laws.peers_runs [OF assms(1,3)] bolt_laws.peer_tables_new [OF assms(1,2)]
  have T: "peer_tables_of B s = T" and inv: "peers_inv B s" by (simp_all add: assms(4))
  obtain ps where "ListPeers B s = Ok ps" "distinct (map p_NodeID ps)" "set ps = {p. pt_known T (p_NodeID p) = Some p}"
    by (rule bolt_laws.ListPeers_known [OF assms(1) inv]) (auto simp: peer_tables_of_def simp flip: T)
  then show ?thesis using GetPeer_known [OF inv] by (auto simp: HasNonce_def used_nonce_def peer_tables_of_def simp flip: T)
qed

theorem peers_is_tables_witness:
  "HasNonce ref_bolt (snd (run_ops (do_peers ref_bolt) [OpNonce (arr_of [3]), OpSeen 0 (arr_of [1])] ex_peers)) (arr_of [3]) = Ok True"
proof -
  let ?calls = "[OpNonce (arr_of [3]), OpSeen 0 (arr_of [1])]"
  have "fst (run_ops (do_peers ref_bolt) ?calls ex_peers) = ?calls"
    by (simp add: SaveNonce_def UpdateLastSeen_def peers_update_def db_update_def updateLastSeen_tx_def b_put_def split_beta Let_def)
  then have run: "run_ops (do_peers ref_bolt) ?calls ex_peers = (?calls, snd (run_ops (do_peers ref_bolt) ?calls ex_peers))"
    by (metis prod.collapse)
  have "OpenPeers ref_bolt (Ok (None, None)) = Ok ex_peers" by (simp add: OpenPeers_def create_buckets_def)
  from peers_is_tables [OF ref.bolt_laws_axioms this run refl, of _ "arr_of [3]"] show ?thesis
    by (simp add: no_peers_def del: run_ops.simps)
qed

end
