(* ===== verification/Proto_Wire.thy ===== *)
theory Proto_Wire
  imports Kinpb
begin

text \<open>
  The wire format of the messages of \<open>kinpb/kin.pb.go\<close>. The encoder belongs to the protobuf runtime and is a parameter of the theories
  that use it; what the repository fixes are the fields: their numbers, their kinds and their order, which stand in the struct tags
  of \<open>kin.pb.go\<close>. This theory writes the documented proto3 encoding out for these fields. The laws of the parameter are shown
  to hold for it, and the size of a message is the size it has here.

  A field is its number with a varint (wire type 0) or with bytes (wire type 2). A field with the zero value is not written; of a field
  that comes twice the last one counts; unknown fields are passed over. Strings must be UTF-8, and a message has less than 2 GiB.
\<close>

section \<open>Varints\<close>

fun varint :: "nat \<Rightarrow> bytes" where
  "varint n = (if n < 128 then [of_nat n] else of_nat (n mod 128 + 128) # varint (n div 128))"

declare varint.simps [simp del]

text \<open>Reading a varint of at most \<open>k\<close> bytes.\<close>

fun get_varint :: "nat \<Rightarrow> bytes \<Rightarrow> (nat \<times> bytes) option" where
  "get_varint 0 bs = None"
| "get_varint (Suc k) [] = None"
| "get_varint (Suc k) (b # bs) =
     (if b < 128 then Some (unat b, bs)
      else map_option (\<lambda>(n, rest). (unat b - 128 + 128 * n, rest)) (get_varint k bs))"

lemma unat_low: "n < 256 \<Longrightarrow> unat (of_nat n :: byte) = n"
  by (simp add: unat_of_nat)

lemma less_128: "n < 256 \<Longrightarrow> (of_nat n :: byte) < 128 \<longleftrightarrow> n < 128"
  by (simp add: word_less_nat_alt unat_low)

lemma get_varint_Suc: "n < 128 ^ Suc k \<Longrightarrow> get_varint (Suc k) (varint n @ rest) = Some (n, rest)"
proof (induction k arbitrary: n)
  case 0
  then show ?case by (subst varint.simps) (simp add: less_128 unat_low)
next
  case (Suc k)
  show ?case
  proof (cases "n < 128")
    case True
    then show ?thesis by (subst varint.simps) (simp add: less_128 unat_low)
  next
    case False
    have b: "n mod 128 + 128 < 256" by simp
    have high: "\<not> (of_nat (n mod 128 + 128) :: byte) < 128" "unat (of_nat (n mod 128 + 128) :: byte) = n mod 128 + 128"
      using less_128 [OF b] unat_low [OF b] by simp_all
    have "n div 128 < 128 ^ Suc k" using Suc.prems by (simp add: less_mult_imp_div_less mult.commute)
    then have "get_varint (Suc k) (varint (n div 128) @ rest) = Some (n div 128, rest)" by (rule Suc.IH)
    moreover have "varint n = of_nat (n mod 128 + 128) # varint (n div 128)" using False by (subst varint.simps) simp
    ultimately show ?thesis using high by (simp del: of_nat_add)
  qed
qed

lemma get_varint_varint: "n < 128 ^ 10 \<Longrightarrow> get_varint 10 (varint n @ rest) = Some (n, rest)"
  using get_varint_Suc [of n 9 rest] by simp

lemma varint_not_Nil [simp]: "varint n \<noteq> []"
  by (subst varint.simps) simp

lemma length_varint: "n < 128 ^ Suc k \<Longrightarrow> length (varint n) \<le> Suc k"
proof (induction k arbitrary: n)
  case 0
  then show ?case by (subst varint.simps) simp
next
  case (Suc k)
  then have "n div 128 < 128 ^ Suc k" by (simp add: less_mult_imp_div_less mult.commute)
  from Suc.IH [OF this] show ?case by (subst varint.simps) simp
qed

lemma get_varint_shorter: "get_varint k bs = Some (n, rest) \<Longrightarrow> length rest < length bs"
proof (induction k bs arbitrary: n rest rule: get_varint.induct)
  case (3 k b bs)
  then show ?case by (cases "b < 128") (auto intro: less_SucI)
qed simp_all

section \<open>Fields\<close>

datatype wval = WVarint "64 word" | WBytes bytes

type_synonym field = "nat \<times> wval"

fun enc_field :: "field \<Rightarrow> bytes" where
  "enc_field (n, WVarint v) = varint (8 * n) @ varint (unat v)"
| "enc_field (n, WBytes b) = varint (8 * n + 2) @ varint (length b) @ b"

definition enc_fields :: "field list \<Rightarrow> bytes" where
  "enc_fields fs = concat (map enc_field fs)"

text \<open>One field off the front.\<close>

definition get_field :: "bytes \<Rightarrow> (field \<times> bytes) option" where
  "get_field bs =
     (case get_varint 10 bs of
        None \<Rightarrow> None
      | Some (tag, rest) \<Rightarrow>
          if tag mod 8 = 0 then map_option (\<lambda>(v, rest). ((tag div 8, WVarint (of_nat v)), rest)) (get_varint 10 rest)
          else if tag mod 8 = 2 then
            (case get_varint 10 rest of
               None \<Rightarrow> None
             | Some (len, rest) \<Rightarrow> if length rest < len then None else Some ((tag div 8, WBytes (take len rest)), drop len rest))
          else None)"

lemma get_field_shorter: "get_field bs = Some (f, rest) \<Longrightarrow> length rest < length bs"
  by (fastforce simp: get_field_def dest!: get_varint_shorter split: option.splits if_splits)

function dec_fields :: "bytes \<Rightarrow> field list option" where
  "dec_fields bs =
     (if bs = [] then Some []
      else case get_field bs of
             None \<Rightarrow> None
           | Some (f, rest) \<Rightarrow> map_option (Cons f) (dec_fields rest))"
  by pat_completeness auto
termination
  by (relation "measure length") (auto dest: get_field_shorter)

declare dec_fields.simps [simp del]

fun field_ok :: "field \<Rightarrow> bool" where
  "field_ok (n, v) \<longleftrightarrow> n < 16 \<and> (case v of WVarint _ \<Rightarrow> True | WBytes b \<Rightarrow> length b < 2 ^ 31)"

lemma get_field_enc:
  assumes "field_ok f"
  shows "get_field (enc_field f @ rest) = Some (f, rest)"
proof (cases f)
  case (Pair n v)
  have n: "8 * n + 2 < 128 ^ 10" "8 * n < 128 ^ 10" using assms by (simp_all add: Pair)
  show ?thesis
  proof (cases v)
    case (WVarint w)
    have "unat w < 128 ^ 10" using unsigned_less [of w, where ?'a = nat] by simp
    then show ?thesis using n by (simp add: Pair WVarint get_field_def get_varint_varint)
  next
    case (WBytes b)
    have "length b < 128 ^ 10" using assms by (simp add: Pair WBytes)
    moreover have "(8 * n + 2) mod 8 = 2" "(8 * n + 2) div 8 = n" by presburger+
    ultimately show ?thesis using n by (simp add: Pair WBytes get_field_def get_varint_varint del: mult_Suc_right)
  qed
qed

lemma enc_field_not_Nil [simp]: "enc_field f \<noteq> []"
  by (cases f rule: enc_field.cases) simp_all

lemma dec_enc_fields: "list_all field_ok fs \<Longrightarrow> dec_fields (enc_fields fs) = Some fs"
proof (induction fs)
  case (Cons f fs)
  then show ?case by (subst dec_fields.simps) (simp add: enc_fields_def get_field_enc)
qed (simp add: enc_fields_def dec_fields.simps)

text \<open>The fields of a message by kind, and what is read back.\<close>

definition f_bytes :: "nat \<Rightarrow> bytes \<Rightarrow> field list" where
  "f_bytes n b = (if b = [] then [] else [(n, WBytes b)])"

definition f_string :: "nat \<Rightarrow> string \<Rightarrow> field list" where
  "f_string n s = f_bytes n (string_bytes s)"

definition f_int :: "nat \<Rightarrow> 64 word \<Rightarrow> field list" where
  "f_int n v = (if v = 0 then [] else [(n, WVarint v)])"

definition f_bool :: "nat \<Rightarrow> bool \<Rightarrow> field list" where
  "f_bool n b = (if b then [(n, WVarint 1)] else [])"

fun last_bytes :: "nat \<Rightarrow> field list \<Rightarrow> bytes \<Rightarrow> bytes" where
  "last_bytes n [] b = b"
| "last_bytes n ((m, v) # fs) b = last_bytes n fs (case v of WBytes x \<Rightarrow> if m = n then x else b | _ \<Rightarrow> b)"

fun last_int :: "nat \<Rightarrow> field list \<Rightarrow> 64 word \<Rightarrow> 64 word" where
  "last_int n [] i = i"
| "last_int n ((m, v) # fs) i = last_int n fs (case v of WVarint x \<Rightarrow> if m = n then x else i | _ \<Rightarrow> i)"

definition u_bytes :: "nat \<Rightarrow> field list \<Rightarrow> bytes" where
  "u_bytes n fs = last_bytes n fs []"

definition u_string :: "nat \<Rightarrow> field list \<Rightarrow> string" where
  "u_string n fs = bytes_string (u_bytes n fs)"

definition u_int :: "nat \<Rightarrow> field list \<Rightarrow> 64 word" where
  "u_int n fs = last_int n fs 0"

definition u_bool :: "nat \<Rightarrow> field list \<Rightarrow> bool" where
  "u_bool n fs = (u_int n fs \<noteq> 0)"

lemma last_append [simp]:
  "last_bytes n (xs @ ys) b = last_bytes n ys (last_bytes n xs b)" "last_int n (xs @ ys) i = last_int n ys (last_int n xs i)"
  by (induction xs arbitrary: b i) auto

lemma last_fields [simp]:
  "last_bytes n (f_bytes m x) b = (if m = n \<and> x \<noteq> [] then x else b)" "last_bytes n (f_string m s) b = (if m = n \<and> s \<noteq> [] then string_bytes s else b)"
  "last_bytes n (f_int m v) b = b" "last_bytes n (f_bool m c) b = b"
  "last_int n (f_bytes m x) i = i" "last_int n (f_string m s) i = i" "last_int n (f_int m v) i = (if m = n \<and> v \<noteq> 0 then v else i)"
  "last_int n (f_bool m c) i = (if m = n \<and> c then 1 else i)"
  by (simp_all add: f_bytes_def f_string_def f_int_def f_bool_def string_bytes_def)

lemma bytes_string_Nil [simp]: "bytes_string [] = []"
  by (simp add: bytes_string_def)

lemmas u_defs = u_bytes_def u_string_def u_int_def u_bool_def

text \<open>All field numbers of the messages are below 16, so a tag is one byte; and no field of a message is larger than the message.\<close>

definition nums_ok :: "field list \<Rightarrow> bool" where
  "nums_ok fs = list_all (\<lambda>f. fst f < 16) fs"

lemma nums_ok_simps [simp]:
  "nums_ok []" "nums_ok (f # fs) \<longleftrightarrow> fst f < 16 \<and> nums_ok fs" "nums_ok (fs @ gs) \<longleftrightarrow> nums_ok fs \<and> nums_ok gs"
  "n < 16 \<Longrightarrow> nums_ok (f_bytes n b)" "n < 16 \<Longrightarrow> nums_ok (f_string n s)" "n < 16 \<Longrightarrow> nums_ok (f_int n v)" "n < 16 \<Longrightarrow> nums_ok (f_bool n c)"
  by (simp_all add: nums_ok_def f_bytes_def f_string_def f_int_def f_bool_def)

lemma length_enc_fields: "length (enc_fields fs) = sum_list (map (length \<circ> enc_field) fs)"
  by (simp add: enc_fields_def length_concat comp_def)

lemma enc_fields_append [simp]: "enc_fields (fs @ gs) = enc_fields fs @ enc_fields gs" "enc_fields [] = []"
  by (simp_all add: enc_fields_def)

lemma bytes_field_le: "(n, WBytes b) \<in> set fs \<Longrightarrow> length b \<le> length (enc_fields fs)"
  using member_le_sum_list [of "length (enc_field (n, WBytes b))" "map (length \<circ> enc_field) fs"]
  by (force simp: length_enc_fields)

lemma dec_enc_message:
  assumes "nums_ok fs" and "length (enc_fields fs) < 2 ^ 31"
  shows "dec_fields (enc_fields fs) = Some fs"
proof (rule dec_enc_fields)
  have "field_ok (n, v)" if f: "(n, v) \<in> set fs" for n v
  proof -
    have "n < 16" using assms(1) f by (force simp: nums_ok_def list_all_iff)
    moreover have "length b < 2 ^ 31" if "v = WBytes b" for b
      using bytes_field_le [of n b fs] f that assms(2) by simp
    ultimately show ?thesis by (simp split: wval.splits)
  qed
  then show "list_all field_ok fs" by (auto simp: list_all_iff)
qed

section \<open>Messages\<close>

text \<open>The fields of each message, numbered as the struct tags of \<open>kin.pb.go\<close> number them.\<close>

definition handshake_fields :: "handshake \<Rightarrow> field list" where
  "handshake_fields h = f_bytes 1 (hs_NodeId h) @ f_bytes 2 (hs_PublicKey h)"

definition handshake_of :: "field list \<Rightarrow> handshake" where
  "handshake_of fs = \<lparr>hs_NodeId = u_bytes 1 fs, hs_PublicKey = u_bytes 2 fs\<rparr>"

definition file_response_fields :: "file_response \<Rightarrow> field list" where
  "file_response_fields r = f_bytes 1 (frs_FileId r) @ f_int 2 (frs_Size r) @ f_bool 3 (frs_NotFound r)"

definition file_response_of :: "field list \<Rightarrow> file_response" where
  "file_response_of fs = \<lparr>frs_FileId = u_bytes 1 fs, frs_Size = u_int 2 fs, frs_NotFound = u_bool 3 fs\<rparr>"

definition file_chunk_fields :: "file_chunk \<Rightarrow> field list" where
  "file_chunk_fields c = f_bytes 1 (fc_FileId c) @ f_bytes 2 (fc_Data c) @ f_bool 3 (fc_Eof c)"

definition file_chunk_of :: "field list \<Rightarrow> file_chunk" where
  "file_chunk_of fs = \<lparr>fc_FileId = u_bytes 1 fs, fc_Data = u_bytes 2 fs, fc_Eof = u_bool 3 fs\<rparr>"

definition pb_error_fields :: "pb_error \<Rightarrow> field list" where
  "pb_error_fields e = f_string 1 (pe_Code e) @ f_string 2 (pe_Message e)"

definition pb_error_of :: "field list \<Rightarrow> pb_error" where
  "pb_error_of fs = \<lparr>pe_Code = u_string 1 fs, pe_Message = u_string 2 fs\<rparr>"

definition relay_register_fields :: "relay_register \<Rightarrow> field list" where
  "relay_register_fields r = f_bytes 1 (rr_NodeId r) @ f_bytes 2 (rr_PublicKey r) @ f_int 3 (ucast (rr_ListenPort r))"

definition relay_register_of :: "field list \<Rightarrow> relay_register" where
  "relay_register_of fs = \<lparr>rr_NodeId = u_bytes 1 fs, rr_PublicKey = u_bytes 2 fs, rr_ListenPort = ucast (u_int 3 fs)\<rparr>"

definition relay_rendezvous_fields :: "relay_rendezvous \<Rightarrow> field list" where
  "relay_rendezvous_fields r = f_bytes 1 (rv_PeerNodeId r) @ f_bytes 2 (rv_PeerPublicKey r) @ f_string 3 (rv_PeerExternalAddr r)"

definition relay_rendezvous_of :: "field list \<Rightarrow> relay_rendezvous" where
  "relay_rendezvous_of fs = \<lparr>rv_PeerNodeId = u_bytes 1 fs, rv_PeerPublicKey = u_bytes 2 fs, rv_PeerExternalAddr = u_string 3 fs\<rparr>"

definition catalog_file_fields :: "catalog_file \<Rightarrow> field list" where
  "catalog_file_fields f =
     f_bytes 1 (cf_FileId f) @ f_string 2 (cf_Name f) @ f_int 3 (cf_Size f) @ f_int 4 (cf_ModTimeUnix f) @
     f_bytes 5 (cf_OwnerNodeId f) @ f_bool 6 (cf_Deleted f)"

definition catalog_file_of :: "field list \<Rightarrow> catalog_file" where
  "catalog_file_of fs =
     \<lparr>cf_FileId = u_bytes 1 fs, cf_Name = u_string 2 fs, cf_Size = u_int 3 fs, cf_ModTimeUnix = u_int 4 fs,
      cf_OwnerNodeId = u_bytes 5 fs, cf_Deleted = u_bool 6 fs\<rparr>"

text \<open>The elements of a repeated message field.\<close>

definition all_bytes :: "nat \<Rightarrow> field list \<Rightarrow> bytes list" where
  "all_bytes n fs = List.map_filter (\<lambda>(m, v). case v of WBytes b \<Rightarrow> if m = n then Some b else None | _ \<Rightarrow> None) fs"

fun decode_all :: "bytes list \<Rightarrow> catalog_file list option" where
  "decode_all [] = Some []"
| "decode_all (b # bs) =
     (case dec_fields b of
        None \<Rightarrow> None
      | Some fs \<Rightarrow> map_option (Cons (catalog_file_of fs)) (decode_all bs))"

text \<open>The envelope: a oneof, whose message is written even when all its fields are zero.\<close>

fun payload_fields :: "envelope \<Rightarrow> (nat \<times> field list) option" where
  "payload_fields EmptyEnvelope = None"
| "payload_fields (Handshake h) = Some (1, handshake_fields h)"
| "payload_fields (HandshakeAck h) = Some (2, handshake_fields h)"
| "payload_fields (FileRequest r) = Some (3, f_bytes 1 (frq_FileId r))"
| "payload_fields (FileResponse r) = Some (4, file_response_fields r)"
| "payload_fields (FileChunk c) = Some (5, file_chunk_fields c)"
| "payload_fields (RelayRegister r) = Some (6, relay_register_fields r)"
| "payload_fields (RelayRegistered a) = Some (7, f_string 1 a)"
| "payload_fields (RelayConnect t) = Some (8, f_bytes 1 t)"
| "payload_fields (RelayRendezvous r) = Some (9, relay_rendezvous_fields r)"
| "payload_fields (RelayError r) = Some (10, f_string 1 r)"
| "payload_fields (CatalogOffer fs) = Some (11, map (\<lambda>f. (1, WBytes (enc_fields (catalog_file_fields f)))) fs)"
| "payload_fields (CatalogAck n) = Some (12, f_int 1 (ucast n))"
| "payload_fields (PbError e) = Some (15, pb_error_fields e)"

definition enc_envelope :: "envelope \<Rightarrow> bytes" where
  "enc_envelope env = (case payload_fields env of None \<Rightarrow> [] | Some (n, fs) \<Rightarrow> enc_field (n, WBytes (enc_fields fs)))"

definition payload_of :: "nat \<Rightarrow> field list \<Rightarrow> envelope option" where
  "payload_of n fs =
     (if n = 1 then Some (Handshake (handshake_of fs))
      else if n = 2 then Some (HandshakeAck (handshake_of fs))
      else if n = 3 then Some (FileRequest \<lparr>frq_FileId = u_bytes 1 fs\<rparr>)
      else if n = 4 then Some (FileResponse (file_response_of fs))
      else if n = 5 then Some (FileChunk (file_chunk_of fs))
      else if n = 6 then Some (RelayRegister (relay_register_of fs))
      else if n = 7 then Some (RelayRegistered (u_string 1 fs))
      else if n = 8 then Some (RelayConnect (u_bytes 1 fs))
      else if n = 9 then Some (RelayRendezvous (relay_rendezvous_of fs))
      else if n = 10 then Some (RelayError (u_string 1 fs))
      else if n = 11 then map_option CatalogOffer (decode_all (all_bytes 1 fs))
      else if n = 12 then Some (CatalogAck (ucast (u_int 1 fs)))
      else if n = 15 then Some (PbError (pb_error_of fs))
      else None)"

definition oneof_nums :: "nat list" where
  "oneof_nums = [1, 2, 3, 4, 5, 6, 7, 8, 9, 10, 11, 12, 15]"

text \<open>Reading the oneof: the last known field counts, the others are passed over.\<close>

fun dec_oneof :: "field list \<Rightarrow> envelope \<Rightarrow> envelope option" where
  "dec_oneof [] env = Some env"
| "dec_oneof ((n, WVarint v) # fs) env = dec_oneof fs env"
| "dec_oneof ((n, WBytes b) # fs) env =
     (if n \<in> set oneof_nums then
        (case dec_fields b of
           None \<Rightarrow> None
         | Some gs \<Rightarrow> (case payload_of n gs of None \<Rightarrow> None | Some e \<Rightarrow> dec_oneof fs e))
      else dec_oneof fs env)"

fun envelope_strings :: "envelope \<Rightarrow> string list" where
  "envelope_strings (RelayRegistered a) = [a]"
| "envelope_strings (RelayRendezvous r) = [rv_PeerExternalAddr r]"
| "envelope_strings (RelayError r) = [r]"
| "envelope_strings (CatalogOffer fs) = map cf_Name fs"
| "envelope_strings (PbError e) = [pe_Code e, pe_Message e]"
| "envelope_strings _ = []"

definition proto_marshal :: "envelope \<Rightarrow> bytes outcome" where
  "proto_marshal env =
     (if list_all (\<lambda>s. to_utf8 s = s) (envelope_strings env) then
        if length (enc_envelope env) < 2 ^ 31 then Ok (enc_envelope env) else Err (Message ''proto: message too large'')
      else Err (Message ''proto: string field contains invalid UTF-8''))"

definition proto_unmarshal :: "bytes \<Rightarrow> envelope outcome" where
  "proto_unmarshal data =
     (case Option.bind (dec_fields data) (\<lambda>fs. dec_oneof fs EmptyEnvelope) of
        None \<Rightarrow> Err (Message ''proto: cannot parse invalid wire-format data'')
      | Some env \<Rightarrow>
          if list_all (\<lambda>s. to_utf8 s = s) (envelope_strings env) then Ok env
          else Err (Message ''proto: string field contains invalid UTF-8''))"

section \<open>Round trip\<close>

lemmas message_defs =
  handshake_fields_def handshake_of_def file_response_fields_def file_response_of_def file_chunk_fields_def file_chunk_of_def
  pb_error_fields_def pb_error_of_def relay_register_fields_def relay_register_of_def relay_rendezvous_fields_def
  relay_rendezvous_of_def catalog_file_fields_def catalog_file_of_def

lemma ucast_32_64 [simp]: "(ucast (ucast w :: 64 word) :: 32 word) = w" "(ucast w :: 64 word) = 0 \<longleftrightarrow> w = 0" for w :: "32 word"
proof -
  show id: "(ucast (ucast w :: 64 word) :: 32 word) = w" by (rule bit_word_eqI) (simp add: bit_simps)
  show "(ucast w :: 64 word) = 0 \<longleftrightarrow> w = 0" using id by (metis unsigned_0)
qed

lemma message_of_fields [simp]:
  "handshake_of (handshake_fields h) = h" "file_response_of (file_response_fields fr) = fr" "file_chunk_of (file_chunk_fields c) = c"
  "pb_error_of (pb_error_fields e) = e" "relay_register_of (relay_register_fields rr) = rr"
  "relay_rendezvous_of (relay_rendezvous_fields rv) = rv"
  by (cases h; cases fr; cases c; cases e; cases rr; cases rv; auto simp: message_defs u_defs)+

lemma catalog_file_of_fields [simp]: "catalog_file_of (catalog_file_fields f) = f"
  by (cases f) (auto simp: message_defs u_defs)

lemma nums_ok_messages [simp]:
  "nums_ok (handshake_fields h)" "nums_ok (file_response_fields fr)" "nums_ok (file_chunk_fields c)" "nums_ok (pb_error_fields e)"
  "nums_ok (relay_register_fields rr)" "nums_ok (relay_rendezvous_fields rv)" "nums_ok (catalog_file_fields f)"
  by (simp_all add: message_defs)

lemma decode_all_files:
  assumes "\<forall>f\<in>set fs. length (enc_fields (catalog_file_fields f)) < 2 ^ 31"
  shows "decode_all (all_bytes 1 (map (\<lambda>f. (1, WBytes (enc_fields (catalog_file_fields f)))) fs)) = Some fs"
  using assms by (induction fs) (simp_all add: all_bytes_def List.map_filter_simps dec_enc_message)

lemma file_in_offer:
  assumes "f \<in> set fs"
  shows "length (enc_fields (catalog_file_fields f)) \<le> length (enc_fields (map (\<lambda>f. (1, WBytes (enc_fields (catalog_file_fields f)))) fs))"
  using assms by (intro bytes_field_le [where n = 1]) auto

lemma payload_of_fields:
  assumes "payload_fields env = Some (n, fs)" and "length (enc_fields fs) < 2 ^ 31"
  shows "payload_of n fs = Some env \<and> n \<in> set oneof_nums \<and> nums_ok fs"
proof (cases env)
  case (CatalogOffer files)
  have "\<forall>f\<in>set files. length (enc_fields (catalog_file_fields f)) < 2 ^ 31"
    using assms file_in_offer [of _ files] by (fastforce simp: CatalogOffer)
  from decode_all_files [OF this] show ?thesis
    using assms(1) by (auto simp: CatalogOffer payload_of_def oneof_nums_def nums_ok_def list_all_iff)
qed (use assms in \<open>auto simp: payload_of_def oneof_nums_def u_defs\<close>)

lemma marshal_round_trip:
  assumes "proto_marshal env = Ok data"
  shows "proto_unmarshal data = Ok env" and "data = [] \<longleftrightarrow> env = EmptyEnvelope"
proof -
  have utf8: "list_all (\<lambda>s. to_utf8 s = s) (envelope_strings env)" and data: "data = enc_envelope env" and len: "length data < 2 ^ 31"
    using assms by (simp_all add: proto_marshal_def split: if_splits)
  have "proto_unmarshal data = Ok env \<and> (data = [] \<longleftrightarrow> env = EmptyEnvelope)"
  proof (cases "payload_fields env")
    case None
    then have "env = EmptyEnvelope" by (cases env) simp_all
    then show ?thesis by (simp add: data enc_envelope_def proto_unmarshal_def dec_fields.simps)
  next
    case (Some p)
    obtain n fs where p: "payload_fields env = Some (n, fs)" using Some by (cases p) simp
    have data': "data = enc_fields [(n, WBytes (enc_fields fs))]" by (simp add: data enc_envelope_def p enc_fields_def)
    have small: "length (enc_fields fs) < 2 ^ 31"
      using bytes_field_le [of n "enc_fields fs" "[(n, WBytes (enc_fields fs))]"] len by (simp add: data')
    note of = payload_of_fields [OF p small]
    have "dec_fields data = Some [(n, WBytes (enc_fields fs))]"
      unfolding data' using of len by (intro dec_enc_message) (auto simp: data' oneof_nums_def)
    moreover have "dec_fields (enc_fields fs) = Some fs" using of small by (intro dec_enc_message) auto
    ultimately have "proto_unmarshal data = Ok env" using of utf8 by (simp add: proto_unmarshal_def)
    moreover have "data \<noteq> []" by (simp add: data' enc_fields_def)
    moreover have "env \<noteq> EmptyEnvelope" using p by auto
    ultimately show ?thesis by simp
  qed
  then show "proto_unmarshal data = Ok env" and "data = [] \<longleftrightarrow> env = EmptyEnvelope" by simp_all
qed

end
