(* ===== verification/Wire.thy ===== *)
theory Wire
  imports Proto_Wire Go_Json
begin

text \<open>
  Byte streams and the two framings over them: \<open>internal/protocol/framing.go\<close> (protobuf envelopes
  between peers) and \<open>internal/daemon/framing.go\<close> (JSON between the daemon and its clients), and the
  connection of \<open>internal/transport/conn.go\<close> that carries envelopes.

  A writer is what was written and how many more bytes the stream takes before it fails (\<open>None\<close>: it
  does not fail); a reader is the bytes that will arrive and the error after them. The protobuf
  runtime is a pair of parameters \<open>marshal\<close>, \<open>unmarshal\<close>; \<open>pb_laws\<close> is what its documentation promises.
  Both framings write a big-endian length and the payload; the locale \<open>frame_codec\<close> is the contract
  \<open>write a message, read it back, leave the rest of the stream alone\<close>, and carries the lemmas on whole
  sequences of messages.
\<close>

section \<open>Streams\<close>

record writer =
  w_out :: bytes
  w_room :: "nat option"

record reader =
  r_in :: bytes
  r_end :: err

abbreviation io_EOF :: err where "io_EOF \<equiv> Sentinel ''EOF''"
abbreviation io_ErrUnexpectedEOF :: err where "io_ErrUnexpectedEOF \<equiv> Sentinel ''unexpected EOF''"
abbreviation io_ErrWrite :: err where "io_ErrWrite \<equiv> Sentinel ''write''"

text \<open>\<open>w.Write(bs)\<close>: all of it, or the part that fits and an error.\<close>

definition stream_write :: "bytes \<Rightarrow> writer \<Rightarrow> unit outcome \<times> writer" where
  "stream_write bs w =
     (case w_room w of
        None \<Rightarrow> (Ok (), w\<lparr>w_out := w_out w @ bs\<rparr>)
      | Some n \<Rightarrow>
          if length bs \<le> n then (Ok (), w\<lparr>w_out := w_out w @ bs, w_room := Some (n - length bs)\<rparr>)
          else (Err io_ErrWrite, w\<lparr>w_out := w_out w @ take n bs, w_room := Some 0\<rparr>))"

text \<open>
  \<open>io.ReadFull(r, buf)\<close> for a buffer of \<open>n\<close> bytes: the stream's own error when nothing was read,
  \<open>ErrUnexpectedEOF\<close> when it ended in the middle.
\<close>

definition read_full :: "nat \<Rightarrow> reader \<Rightarrow> bytes outcome \<times> reader" where
  "read_full n r =
     (if n \<le> length (r_in r) then (Ok (take n (r_in r)), r\<lparr>r_in := drop n (r_in r)\<rparr>)
      else (Err (if r_in r \<noteq> [] \<and> r_end r = io_EOF then io_ErrUnexpectedEOF else r_end r),
            r\<lparr>r_in := []\<rparr>))"

lemma stream_write_unbounded [simp]:
  "w_room w = None \<Longrightarrow> stream_write bs w = (Ok (), w\<lparr>w_out := w_out w @ bs\<rparr>)"
  by (simp add: stream_write_def)

lemma read_full_append [simp]:
  "length bs = n \<Longrightarrow> read_full n (r\<lparr>r_in := bs @ rest\<rparr>) = (Ok bs, r\<lparr>r_in := rest\<rparr>)"
  by (simp add: read_full_def)

lemma read_full_short:
  "length (r_in r) < n \<Longrightarrow> read_full n r =
    (Err (if r_in r \<noteq> [] \<and> r_end r = io_EOF then io_ErrUnexpectedEOF else r_end r), r\<lparr>r_in := []\<rparr>)"
  by (simp add: read_full_def)

lemma read_full_cases:
  obtains (full) bs rest where "r_in r = bs @ rest" "length bs = n"
      "read_full n r = (Ok bs, r\<lparr>r_in := rest\<rparr>)"
    | (short) e where "length (r_in r) < n" "read_full n r = (Err e, r\<lparr>r_in := []\<rparr>)"
proof (cases "n \<le> length (r_in r)")
  case True
  then show thesis by (intro full [of "take n (r_in r)" "drop n (r_in r)"]) (simp_all add: read_full_def)
next
  case False
  then show thesis by (intro short) (simp_all add: read_full_def)
qed

section \<open>Length-prefixed frames\<close>

definition maxMsgSize :: nat where
  "maxMsgSize = 4194304"

text \<open>The part of \<open>WriteMsg\<close> and \<open>WriteJSON\<close> after marshalling; \<open>pkg\<close> is the prefix of the messages.\<close>

definition write_frame :: "string \<Rightarrow> bytes \<Rightarrow> writer \<Rightarrow> unit outcome \<times> writer" where
  "write_frame pkg data w =
     (if maxMsgSize < length data then (Err (Message (pkg @ '': message too large'')), w)
      else let (h, w1) = stream_write (be32 (of_nat (length data))) w
           in if \<not> is_ok h then (owrap (pkg @ '': write header'') h, w1)
              else let (b, w2) = stream_write data w1
                   in (owrap (pkg @ '': write body'') b, w2))"

text \<open>The part of \<open>ReadMsg\<close> and \<open>ReadJSON\<close> after the header; no payload is an empty one.\<close>

definition read_body :: "string \<Rightarrow> 32 word \<Rightarrow> reader \<Rightarrow> bytes outcome \<times> reader" where
  "read_body pkg sz r =
     (if sz = 0 then (Ok [], r)
      else if maxMsgSize < unat sz then (Err (Message (pkg @ '': message too large'')), r)
      else let (b, r1) = read_full (unat sz) r in (owrap (pkg @ '': read body'') b, r1))"

definition frame :: "bytes \<Rightarrow> bytes" where
  "frame data = be32 (of_nat (length data)) @ data"

lemma length_frame [simp]: "length (frame data) = 4 + length data"
  by (simp add: frame_def)

lemma write_frame_ok:
  "length data \<le> maxMsgSize \<Longrightarrow> w_room w = None \<Longrightarrow>
   write_frame pkg data w = (Ok (), w\<lparr>w_out := w_out w @ frame data\<rparr>)"
  by (simp add: write_frame_def frame_def)

lemma unat_length32: "n \<le> maxMsgSize \<Longrightarrow> unat (of_nat n :: 32 word) = n"
  by (simp add: unat_of_nat maxMsgSize_def)

lemma read_body_back:
  assumes "length data \<le> maxMsgSize"
  shows "read_body pkg (of_nat (length data)) (r\<lparr>r_in := data @ rest\<rparr>) = (Ok data, r\<lparr>r_in := rest\<rparr>)"
proof -
  have len: "unat (of_nat (length data) :: 32 word) = length data" by (rule unat_length32 [OF assms])
  show ?thesis
  proof (cases "data = []")
    case True
    then show ?thesis by (simp add: read_body_def)
  next
    case False
    then have "(of_nat (length data) :: 32 word) \<noteq> 0" using len by force
    then show ?thesis using assms len by (simp add: read_body_def)
  qed
qed

lemma read_body_bound:
  "read_body pkg sz r = (Ok data, r') \<Longrightarrow> length data \<le> maxMsgSize \<and> length data = unat sz \<and>
     r_in r = data @ r_in r' \<and> r_end r' = r_end r"
  by (cases rule: read_full_cases [of r "unat sz"]) (auto simp: read_body_def split: if_splits)

subsection \<open>Envelopes between peers\<close>

definition WriteMsg :: "(envelope \<Rightarrow> bytes outcome) \<Rightarrow> writer \<Rightarrow> envelope \<Rightarrow> unit outcome \<times> writer" where
  "WriteMsg marshal w env =
     (case owrap ''framing: marshal'' (marshal env) of
        Ok data \<Rightarrow> write_frame ''framing'' data w
      | Err e \<Rightarrow> (Err e, w)
      | Panic \<Rightarrow> (Panic, w))"

text \<open>A header that ends early is reported as a plain \<open>io.EOF\<close>.\<close>

definition read_header :: "reader \<Rightarrow> bytes outcome \<times> reader" where
  "read_header r =
     (case read_full 4 r of
        (Err e, r1) \<Rightarrow>
          (if errors_is e ''EOF'' \<or> errors_is e ''unexpected EOF'' then Err io_EOF
           else Err (Wrap ''framing: read header'' e), r1)
      | res \<Rightarrow> res)"

definition ReadMsg :: "(bytes \<Rightarrow> envelope outcome) \<Rightarrow> reader \<Rightarrow> envelope outcome \<times> reader" where
  "ReadMsg unmarshal r =
     (case read_header r of
        (Err e, r1) \<Rightarrow> (Err e, r1)
      | (Panic, r1) \<Rightarrow> (Panic, r1)
      | (Ok header, r1) \<Rightarrow>
          if un32 header = 0 then (Ok EmptyEnvelope, r1)
          else let (b, r2) = read_body ''framing'' (un32 header) r1
               in (obind b (\<lambda>buf. owrap ''framing: unmarshal'' (unmarshal buf)), r2))"

subsection \<open>JSON between the daemon and its clients\<close>

text \<open>\<open>json.Marshal\<close> and \<open>json.Unmarshal\<close> at the type of the value are arguments; \<open>v0\<close> is the value \<open>v\<close> points to.\<close>

definition WriteJSON :: "('v \<Rightarrow> bytes outcome) \<Rightarrow> writer \<Rightarrow> 'v \<Rightarrow> unit outcome \<times> writer" where
  "WriteJSON marshal w v =
     (case owrap ''ipc: marshal'' (marshal v) of
        Ok data \<Rightarrow> write_frame ''ipc'' data w
      | Err e \<Rightarrow> (Err e, w)
      | Panic \<Rightarrow> (Panic, w))"

definition ReadJSON :: "(bytes \<Rightarrow> 'v \<Rightarrow> 'v outcome) \<Rightarrow> reader \<Rightarrow> 'v \<Rightarrow> 'v outcome \<times> reader" where
  "ReadJSON unmarshal r v0 =
     (case read_full 4 r of
        (Err e, r1) \<Rightarrow> (Err (Wrap ''ipc: read header'' e), r1)
      | (Panic, r1) \<Rightarrow> (Panic, r1)
      | (Ok header, r1) \<Rightarrow>
          if un32 header = 0 then (Ok v0, r1)
          else let (b, r2) = read_body ''ipc'' (un32 header) r1
               in (obind b (\<lambda>buf. owrap ''ipc: unmarshal'' (unmarshal buf v0)), r2))"

section \<open>Sequences of messages\<close>

fun write_seq :: "(writer \<Rightarrow> 'm \<Rightarrow> unit outcome \<times> writer) \<Rightarrow> writer \<Rightarrow> 'm list \<Rightarrow> unit outcome \<times> writer" where
  "write_seq wr w [] = (Ok (), w)"
| "write_seq wr w (m # ms) =
     (let (r, w') = wr w m in if is_ok r then write_seq wr w' ms else (r, w'))"

text \<open>Reading until the first error, which is the second component; fuel bounds the messages.\<close>

fun read_seq :: "nat \<Rightarrow> (reader \<Rightarrow> 'm outcome \<times> reader) \<Rightarrow> reader \<Rightarrow> 'm list \<times> 'm outcome option" where
  "read_seq 0 rd r = ([], None)"
| "read_seq (Suc n) rd r =
     (case rd r of
        (Ok m, r') \<Rightarrow> (let (ms, e) = read_seq n rd r' in (m # ms, e))
      | (res, r') \<Rightarrow> ([], Some res))"

locale frame_codec =
  fixes wr :: "writer \<Rightarrow> 'm \<Rightarrow> unit outcome \<times> writer"
    and rd :: "reader \<Rightarrow> 'm outcome \<times> reader"
    and enc :: "'m \<Rightarrow> bytes"
    and sendable :: "'m \<Rightarrow> bool"
  assumes wr_appends: "sendable m \<Longrightarrow> w_room w = None \<Longrightarrow> wr w m = (Ok (), w\<lparr>w_out := w_out w @ enc m\<rparr>)"
    and rd_back: "sendable m \<Longrightarrow> rd (r\<lparr>r_in := enc m @ rest\<rparr>) = (Ok m, r\<lparr>r_in := rest\<rparr>)"
    and rd_end: "r_in r = [] \<Longrightarrow> \<exists>e. rd r = (Err e, r) \<and> (r_end r = io_EOF \<longrightarrow> errors_is e ''EOF'')"
begin

lemma write_seq_appends:
  "list_all sendable ms \<Longrightarrow> w_room w = None \<Longrightarrow>
   write_seq wr w ms = (Ok (), w\<lparr>w_out := w_out w @ concat (map enc ms)\<rparr>)"
  by (induction ms arbitrary: w) (simp_all add: wr_appends)

lemma read_seq_back:
  assumes "list_all sendable ms" and "length ms < n"
  shows "\<exists>e. read_seq n rd (r\<lparr>r_in := concat (map enc ms)\<rparr>) = (ms, Some (Err e)) \<and>
    (r_end r = io_EOF \<longrightarrow> errors_is e ''EOF'')"
  using assms
proof (induction ms arbitrary: n)
  case Nil
  then obtain k where "n = Suc k" by (cases n) auto
  with rd_end [of "r\<lparr>r_in := []\<rparr>"] show ?case by auto
next
  case (Cons m ms)
  then obtain k where n: "n = Suc k" "length ms < k" by (cases n) auto
  with Cons obtain e where "read_seq k rd (r\<lparr>r_in := concat (map enc ms)\<rparr>) = (ms, Some (Err e))"
    "r_end r = io_EOF \<longrightarrow> errors_is e ''EOF''"
    by auto
  with Cons.prems n rd_back [of m "concat (map enc ms)" r] show ?case by auto
qed

lemma seq_round_trip:
  assumes "list_all sendable ms" and "length ms < n"
  shows "\<exists>w' e. write_seq wr \<lparr>w_out = [], w_room = None\<rparr> ms = (Ok (), w') \<and>
    read_seq n rd \<lparr>r_in = w_out w', r_end = io_EOF\<rparr> = (ms, Some (Err e)) \<and> errors_is e ''EOF''"
  using write_seq_appends [OF assms(1), of "\<lparr>w_out = [], w_room = None\<rparr>"]
    read_seq_back [OF assms, of "\<lparr>r_in = [], r_end = io_EOF\<rparr>"]
  by (auto simp del: write_seq.simps)

end

text \<open>The payload level of both framings.\<close>

definition read_frame :: "string \<Rightarrow> reader \<Rightarrow> bytes outcome \<times> reader" where
  "read_frame pkg r =
     (case read_full 4 r of
        (Err e, r1) \<Rightarrow> (Err (Wrap (pkg @ '': read header'') e), r1)
      | (Panic, r1) \<Rightarrow> (Panic, r1)
      | (Ok header, r1) \<Rightarrow> read_body pkg (un32 header) r1)"

interpretation payload: frame_codec "\<lambda>w d. write_frame pkg d w" "read_frame pkg" frame "\<lambda>d. length d \<le> maxMsgSize"
  for pkg
proof
  fix d :: bytes and r rest w
  assume d: "length d \<le> maxMsgSize"
  show "w_room w = None \<Longrightarrow> write_frame pkg d w = (Ok (), w\<lparr>w_out := w_out w @ frame d\<rparr>)"
    by (rule write_frame_ok [OF d])
  show "read_frame pkg (r\<lparr>r_in := frame d @ rest\<rparr>) = (Ok d, r\<lparr>r_in := rest\<rparr>)"
    using read_body_back [OF d, of pkg rest r] by (simp add: read_frame_def frame_def)
next
  fix r :: reader
  assume "r_in r = []"
  then show "\<exists>e. read_frame pkg r = (Err e, r) \<and> (r_end r = io_EOF \<longrightarrow> errors_is e ''EOF'')"
    by (cases r) (simp add: read_frame_def read_full_def)
qed


section \<open>Envelopes on a stream\<close>

text \<open>
  What the protobuf runtime promises: what was marshalled unmarshals to the same message, and only the
  message with no field set has an empty encoding. Marshalling may fail (a string that is not UTF-8).
\<close>

definition pb_laws :: "(envelope \<Rightarrow> bytes outcome) \<Rightarrow> (bytes \<Rightarrow> envelope outcome) \<Rightarrow> bool" where
  "pb_laws marshal unmarshal \<longleftrightarrow>
     (\<forall>env data. marshal env = Ok data \<longrightarrow> unmarshal data = Ok env \<and> (data = [] \<longleftrightarrow> env = EmptyEnvelope))"

text \<open>
  Where the size of a message matters, a second hypothesis: the runtime writes the fields of \<open>kin.pb.go\<close> in the documented encoding. A message
  whose strings are UTF-8 and that has less than 2 GiB is written, and what is written has the size of that encoding.
\<close>

definition pb_encodes :: "(envelope \<Rightarrow> bytes outcome) \<Rightarrow> bool" where
  "pb_encodes marshal \<longleftrightarrow>
     (\<forall>env. (list_all (\<lambda>s. to_utf8 s = s) (envelope_strings env) \<and> length (enc_envelope env) < 2 ^ 31 \<longrightarrow> is_ok (marshal env)) \<and>
        marshal env \<noteq> Panic \<and> (\<forall>data. marshal env = Ok data \<longrightarrow> length data = length (enc_envelope env)))"

definition msg_frame :: "(envelope \<Rightarrow> bytes outcome) \<Rightarrow> envelope \<Rightarrow> bytes" where
  "msg_frame marshal env = (case marshal env of Ok data \<Rightarrow> frame data | _ \<Rightarrow> [])"

definition sendable :: "(envelope \<Rightarrow> bytes outcome) \<Rightarrow> envelope \<Rightarrow> bool" where
  "sendable marshal env \<longleftrightarrow> (case marshal env of Ok data \<Rightarrow> length data \<le> maxMsgSize | _ \<Rightarrow> False)"

lemma sendableE:
  assumes "sendable marshal env"
  obtains data where "marshal env = Ok data" "length data \<le> maxMsgSize" "msg_frame marshal env = frame data"
  using assms by (auto simp: sendable_def msg_frame_def split: outcome.splits)

lemma ReadMsg_frame:
  assumes "pb_laws marshal unmarshal" and "marshal env = Ok data" and len: "length data \<le> maxMsgSize"
  shows "ReadMsg unmarshal (r\<lparr>r_in := frame data @ rest\<rparr>) = (Ok env, r\<lparr>r_in := rest\<rparr>)"
proof -
  from assms(1,2) have u: "unmarshal data = Ok env" and e: "data = [] \<longleftrightarrow> env = EmptyEnvelope"
    by (simp_all add: pb_laws_def)
  have z: "(of_nat (length data) :: 32 word) = 0 \<longleftrightarrow> data = []"
    using unat_length32 [OF len] by force
  show ?thesis
    using read_body_back [OF len, of "''framing''" rest r] z u e
    by (simp add: ReadMsg_def read_header_def frame_def)
qed

lemma frame_codec_msg:
  assumes "pb_laws marshal unmarshal"
  shows "frame_codec (WriteMsg marshal) (ReadMsg unmarshal) (msg_frame marshal) (sendable marshal)"
proof
  fix m r rest w
  assume "sendable marshal m"
  then obtain data where m: "marshal m = Ok data" and len: "length data \<le> maxMsgSize"
    and f: "msg_frame marshal m = frame data"
    by (rule sendableE)
  show "w_room w = None \<Longrightarrow> WriteMsg marshal w m = (Ok (), w\<lparr>w_out := w_out w @ msg_frame marshal m\<rparr>)"
    by (simp add: WriteMsg_def m f write_frame_ok [OF len])
  show "ReadMsg unmarshal (r\<lparr>r_in := msg_frame marshal m @ rest\<rparr>) = (Ok m, r\<lparr>r_in := rest\<rparr>)"
    unfolding f by (rule ReadMsg_frame [OF assms m len])
next
  fix r :: reader
  assume "r_in r = []"
  then show "\<exists>e. ReadMsg unmarshal r = (Err e, r) \<and> (r_end r = io_EOF \<longrightarrow> errors_is e ''EOF'')"
    by (cases r) (simp add: ReadMsg_def read_header_def read_full_def)
qed

lemma ReadMsg_cases:
  obtains (header) e where "length (r_in r) < 4" "ReadMsg unmarshal r = (Err e, r\<lparr>r_in := []\<rparr>)"
  | (empty) h rest where "r_in r = h @ rest" "length h = 4" "un32 h = 0"
      "ReadMsg unmarshal r = (Ok EmptyEnvelope, r\<lparr>r_in := rest\<rparr>)"
  | (large) h rest e where "r_in r = h @ rest" "length h = 4" "maxMsgSize < unat (un32 h)"
      "ReadMsg unmarshal r = (Err e, r\<lparr>r_in := rest\<rparr>)"
  | (short) h rest e where "r_in r = h @ rest" "length h = 4" "length rest < unat (un32 h)"
      "unat (un32 h) \<le> maxMsgSize" "ReadMsg unmarshal r = (Err e, r\<lparr>r_in := []\<rparr>)"
  | (body) h d rest where "r_in r = h @ d @ rest" "length h = 4" "length d = unat (un32 h)"
      "d \<noteq> []" "length d \<le> maxMsgSize"
      "ReadMsg unmarshal r = (owrap ''framing: unmarshal'' (unmarshal d), r\<lparr>r_in := rest\<rparr>)"
proof (cases rule: read_full_cases [of r 4])
  case (short e)
  then have "\<exists>e. ReadMsg unmarshal r = (Err e, r\<lparr>r_in := []\<rparr>)"
    by (simp add: ReadMsg_def read_header_def)
  with short header show thesis by blast
next
  case (full h rest)
  then have hd: "read_header r = (Ok h, r\<lparr>r_in := rest\<rparr>)" by (simp add: read_header_def)
  show thesis
  proof (cases "un32 h = 0")
    case True
    with full hd show thesis by (intro empty [of h rest]) (simp_all add: ReadMsg_def)
  next
    case nz: False
    show thesis
    proof (cases "maxMsgSize < unat (un32 h)")
      case True
      with full hd nz show thesis by (intro large [of h rest]) (simp_all add: ReadMsg_def read_body_def)
    next
      case False
      from nz have pos: "unat (un32 h) \<noteq> 0" by (simp add: unsigned_eq_0_iff)
      from False have le: "unat (un32 h) \<le> maxMsgSize" by simp
      note rm = ReadMsg_def read_body_def hd nz False
      show thesis
      proof (cases rule: read_full_cases [of "r\<lparr>r_in := rest\<rparr>" "unat (un32 h)"])
        case (full d rest')
        with \<open>r_in r = h @ rest\<close> \<open>length h = 4\<close> pos show thesis
          by (intro body [of h d rest']) (auto simp: rm le)
      next
        case (short e)
        with \<open>r_in r = h @ rest\<close> \<open>length h = 4\<close> False show thesis
          by (intro that(4) [of h rest]) (simp_all add: rm le)
      qed
    qed
  qed
qed


section \<open>Properties\<close>

text \<open>The documented encoding of the messages has the laws of the parameter.\<close>

lemma proto_pb_laws: "pb_laws proto_marshal proto_unmarshal"
  using marshal_round_trip by (simp add: pb_laws_def)

lemma proto_pb_encodes: "pb_encodes proto_marshal"
  by (simp add: pb_encodes_def proto_marshal_def)

text \<open>What fits into a frame.\<close>

definition fits :: "envelope \<Rightarrow> bool" where
  "fits env \<longleftrightarrow> list_all (\<lambda>s. to_utf8 s = s) (envelope_strings env) \<and> length (enc_envelope env) \<le> maxMsgSize"

lemma fits_sendable:
  assumes "pb_encodes marshal" and "fits env"
  shows "sendable marshal env"
proof -
  have "length (enc_envelope env) < 2 ^ 31" using assms(2) by (simp add: fits_def maxMsgSize_def)
  then have "is_ok (marshal env)" using assms by (simp add: pb_encodes_def fits_def)
  then obtain data where "marshal env = Ok data" by (cases "marshal env") simp_all
  then show ?thesis using assms by (auto simp: pb_encodes_def fits_def sendable_def)
qed

lemma proto_unmarshal_no_Panic: "proto_unmarshal data \<noteq> Panic"
  by (simp add: proto_unmarshal_def split: option.split)

lemma sendable_EmptyEnvelope: "sendable proto_marshal EmptyEnvelope"
  by (rule fits_sendable [OF proto_pb_encodes]) (simp add: fits_def enc_envelope_def)

lemma sendable_CatalogAck: "sendable proto_marshal (CatalogAck n)"
proof -
  have "length (varint (unat (ucast n :: 64 word))) \<le> 10"
    using length_varint [of _ 9] unsigned_less [of "ucast n :: 64 word", where ?'a = nat] by simp
  then have "length (enc_fields (f_int 1 (ucast n))) \<le> 11"
    by (simp add: enc_fields_def f_int_def varint.simps)
  then have "fits (CatalogAck n)" by (simp add: fits_def enc_envelope_def maxMsgSize_def varint.simps)
  then show ?thesis by (rule fits_sendable [OF proto_pb_encodes])
qed

lemmas ex_sendable = sendable_EmptyEnvelope sendable_CatalogAck

text \<open>
  C15. Any sequence of envelopes that marshal to at most 4 MiB each, written one after the other by
  \<open>WriteMsg\<close> to a stream, is read back by \<open>ReadMsg\<close> message by message, and after the last one the reader
  reports the end of the stream.
\<close>

theorem msg_stream_round_trip:
  assumes "pb_laws marshal unmarshal" and "list_all (sendable marshal) envs" and "length envs < n"
  shows "\<exists>w e. write_seq (WriteMsg marshal) \<lparr>w_out = [], w_room = None\<rparr> envs = (Ok (), w) \<and>
    read_seq n (ReadMsg unmarshal) \<lparr>r_in = w_out w, r_end = io_EOF\<rparr> = (envs, Some (Err e)) \<and> errors_is e ''EOF''"
  by (rule frame_codec.seq_round_trip [OF frame_codec_msg [OF assms(1)] assms(2,3)])

theorem msg_stream_round_trip_witness:
  "\<exists>w e. write_seq (WriteMsg proto_marshal) \<lparr>w_out = [], w_room = None\<rparr> [CatalogAck 5, EmptyEnvelope] = (Ok (), w) \<and>
    read_seq 3 (ReadMsg proto_unmarshal) \<lparr>r_in = w_out w, r_end = io_EOF\<rparr> = ([CatalogAck 5, EmptyEnvelope], Some (Err e)) \<and>
    errors_is e ''EOF''"
  by (rule msg_stream_round_trip [OF proto_pb_laws]) (simp_all add: ex_sendable)

text \<open>
  C31. Whatever bytes arrive, \<open>ReadMsg\<close> returns (a message or an error, never a panic unless the
  protobuf runtime panics), it never takes more than the header and 4 MiB off the stream, and the bytes
  it leaves are the rest of the stream.
\<close>

theorem read_msg_bounded:
  assumes "\<forall>d. unmarshal d \<noteq> Panic"
  shows "fst (ReadMsg unmarshal r) \<noteq> Panic \<and>
    (\<exists>c. r_in r = c @ r_in (snd (ReadMsg unmarshal r)) \<and> length c \<le> 4 + maxMsgSize)"
proof (cases rule: ReadMsg_cases [of r unmarshal])
  case (header e)
  then show ?thesis by simp
next
  case (body h d rest)
  with assms show ?thesis by (auto simp: outcome_simps intro: exI [of _ "h @ d"])
qed auto

theorem read_msg_bounded_witness:
  "fst (ReadMsg proto_unmarshal \<lparr>r_in = [255, 255, 255, 255, 1], r_end = io_EOF\<rparr>) \<noteq> Panic"
  using read_msg_bounded [of proto_unmarshal "\<lparr>r_in = [255, 255, 255, 255, 1], r_end = io_EOF\<rparr>"]
  by (simp add: proto_unmarshal_no_Panic)

text \<open>
  A frame that is cut short is never taken for a message. A cut inside the header is reported
  as the end of the stream, like a clean close; a cut inside the payload is a \<open>read body\<close> error.
\<close>

lemma truncated_frame_rejected:
  assumes "length data \<le> maxMsgSize" and "n < length (frame data)"
  shows "fst (ReadMsg unmarshal \<lparr>r_in = take n (frame data), r_end = io_EOF\<rparr>) =
    (if n < 4 then Err io_EOF
     else Err (Wrap ''framing: read body'' (if n = 4 then io_EOF else io_ErrUnexpectedEOF)))"
proof (cases "n < 4")
  case True
  then show ?thesis
    by (cases "take n (frame data) = []") (simp_all add: ReadMsg_def read_header_def read_full_def)
next
  case False
  let ?h = "be32 (of_nat (length data))"
  from False have t: "take n (frame data) = ?h @ take (n - 4) data"
    by (simp add: frame_def)
  have len: "unat (of_nat (length data) :: 32 word) = length data" by (rule unat_length32 [OF assms(1)])
  from assms(2) False have "data \<noteq> []" and short: "n - 4 < length data" by auto
  then have "(of_nat (length data) :: 32 word) \<noteq> 0" using len by force
  then show ?thesis
    using assms(1) False short len \<open>data \<noteq> []\<close>
    by (auto simp: ReadMsg_def read_header_def t read_full_def read_body_def)
qed

end
