(* ===== verification/File_Transfer.thy ===== *)
theory File_Transfer
  imports Kinpb Identity
begin

text \<open>
  File transfer by content hash, \<open>internal/transfer\<close>: the index from hashes to paths (\<open>localindex.go\<close>), the
  sender that streams a file in chunks (\<open>sender.go\<close>) and the receiver that writes a temporary file, checks the
  hash and renames it (\<open>receiver.go\<close>).

  The interface \<open>MsgReadWriter\<close> is a channel of messages: those that will arrive and the error after them,
  those sent so far and how many more the connection takes. \<open>ctx i\<close> is \<open>ctx.Err()\<close> at the \<open>i\<close>-th round of a
  loop, and \<open>plan i\<close> what the \<open>i\<close>-th read of a file gives: an error, or how many bytes the system returns.
\<close>

section \<open>Message channels\<close>

record chan =
  ch_in :: "envelope list"
  ch_end :: err
  ch_out :: "envelope list"
  ch_room :: "nat option"

definition chan_send :: "chan \<Rightarrow> envelope \<Rightarrow> unit outcome \<times> chan" where
  "chan_send c env =
     (case ch_room c of
        None \<Rightarrow> (Ok (), c\<lparr>ch_out := ch_out c @ [env]\<rparr>)
      | Some 0 \<Rightarrow> (Err ErrIO, c)
      | Some (Suc n) \<Rightarrow> (Ok (), c\<lparr>ch_out := ch_out c @ [env], ch_room := Some n\<rparr>))"

definition chan_recv :: "chan \<Rightarrow> envelope outcome \<times> chan" where
  "chan_recv c = (case ch_in c of [] \<Rightarrow> (Err (ch_end c), c) | env # envs \<Rightarrow> (Ok env, c\<lparr>ch_in := envs\<rparr>))"

lemma chan_send_open [simp]: "ch_room c = None \<Longrightarrow> chan_send c env = (Ok (), c\<lparr>ch_out := ch_out c @ [env]\<rparr>)"
  by (simp add: chan_send_def)

section \<open>The local index\<close>

type_synonym local_index = "id32 \<Rightarrow> string option"

definition NewLocalIndex :: local_index where
  "NewLocalIndex = (\<lambda>_. None)"

definition hashFile :: "(bytes \<Rightarrow> id32) \<Rightarrow> string \<Rightarrow> fs \<Rightarrow> id32 outcome \<times> fs" where
  "hashFile sha path fs =
     (let (r, fs1) = os_Open path fs
      in if \<not> is_ok r then (fail_of r, fs1)
         else let (c, fs2) = os_ReadFile path fs1 in (obind c (\<lambda>content. Ok (sha content)), fs2))"

definition AddWithHash :: "id32 \<Rightarrow> string \<Rightarrow> local_index \<Rightarrow> local_index" where
  "AddWithHash hash path idx = idx(hash \<mapsto> path)"

definition Add :: "(bytes \<Rightarrow> id32) \<Rightarrow> string \<Rightarrow> local_index \<Rightarrow> fs \<Rightarrow> unit outcome \<times> local_index \<times> fs" where
  "Add sha path idx fs =
     (let (r, fs1) = hashFile sha path fs
      in case owrap ''index add'' r of
           Ok hash \<Rightarrow> (Ok (), idx(hash \<mapsto> path), fs1)
         | Err e \<Rightarrow> (Err e, idx, fs1)
         | Panic \<Rightarrow> (Panic, idx, fs1))"

definition RemoveHash :: "id32 \<Rightarrow> local_index \<Rightarrow> local_index" where
  "RemoveHash hash idx = idx(hash := None)"

definition Lookup :: "local_index \<Rightarrow> id32 \<Rightarrow> string option" where
  "Lookup idx hash = idx hash"

text \<open>
  \<open>Scan\<close>: \<open>visits\<close> is what \<open>filepath.WalkDir\<close> calls the function with, in order: the path, whether the
  entry is a regular file, and the error of the walk at that entry.
\<close>

fun Scan :: "(bytes \<Rightarrow> id32) \<Rightarrow> (string \<times> bool \<times> err option) list \<Rightarrow> local_index \<Rightarrow> fs \<Rightarrow> unit outcome \<times> local_index \<times> fs" where
  "Scan sha [] idx fs = (Ok (), idx, fs)"
| "Scan sha ((path, regular, werr) # visits) idx fs =
     (case werr of
        Some e \<Rightarrow> (Err e, idx, fs)
      | None \<Rightarrow>
          if \<not> regular then Scan sha visits idx fs
          else let (r, fs1) = hashFile sha path fs
               in case r of
                    Ok hash \<Rightarrow> Scan sha visits (idx(hash \<mapsto> path)) fs1
                  | Err e \<Rightarrow> Scan sha visits idx fs1
                  | Panic \<Rightarrow> (Panic, idx, fs1))"

section \<open>The sender\<close>

definition chunkSize :: nat where
  "chunkSize = 65536"

definition sendNotFound :: "chan \<Rightarrow> id32 \<Rightarrow> unit outcome \<times> chan" where
  "sendNotFound c fileID =
     chan_send c (FileResponse \<lparr>frs_FileId = list_of fileID, frs_Size = 0, frs_NotFound = True\<rparr>)"

text \<open>
  The loop over the open file, of which \<open>rest\<close> is still to be read. A read gives at least one byte, and
  at most the buffer, until the end, where it gives \<open>0, io.EOF\<close>.
\<close>

function send_chunks ::
  "(nat \<Rightarrow> err option) \<Rightarrow> (nat \<Rightarrow> nat option) \<Rightarrow> nat \<Rightarrow> bytes \<Rightarrow> id32 \<Rightarrow> chan \<Rightarrow> unit outcome \<times> chan" where
  "send_chunks ctx plan i rest fileID c =
     (case ctx i of
        Some e \<Rightarrow> (Err e, c)
      | None \<Rightarrow>
          (case plan i of
             None \<Rightarrow> (Err (Wrap ''read file'' ErrIO), c)
           | Some k \<Rightarrow>
               if rest = [] then
                 (let (r, c1) = chan_send c (FileChunk \<lparr>fc_FileId = list_of fileID, fc_Data = [], fc_Eof = True\<rparr>)
                  in (owrap ''send chunk'' r, c1))
               else
                 (let n = min (max 1 k) (min chunkSize (length rest));
                      (r, c1) = chan_send c (FileChunk \<lparr>fc_FileId = list_of fileID, fc_Data = take n rest, fc_Eof = False\<rparr>)
                  in if is_ok r then send_chunks ctx plan (Suc i) (drop n rest) fileID c1
                     else (owrap ''send chunk'' r, c1))))"
  by pat_completeness auto

termination
  by (relation "measure (\<lambda>(_, _, _, rest, _, _). length rest)")
    (auto simp: chunkSize_def min_def max_def)

declare send_chunks.simps [simp del]

definition HandleRequest ::
  "local_index \<Rightarrow> (nat \<Rightarrow> err option) \<Rightarrow> (nat \<Rightarrow> nat option) \<Rightarrow> id32 \<Rightarrow> chan \<Rightarrow> fs \<Rightarrow> unit outcome \<times> chan \<times> fs" where
  "HandleRequest idx ctx plan fileID c fs =
     (case Lookup idx fileID of
        None \<Rightarrow> (let (r, c1) = sendNotFound c fileID in (r, c1, fs))
      | Some path \<Rightarrow>
          (case os_Stat path fs of
             (Ok info, fs1) \<Rightarrow>
               (let (r, c1) = chan_send c (FileResponse
                      \<lparr>frs_FileId = list_of fileID, frs_Size = of_nat (fi_size info), frs_NotFound = False\<rparr>)
                in if \<not> is_ok r then (owrap ''send file response'' r, c1, fs1)
                   else case os_Open path fs1 of
                          (Ok _, fs2) \<Rightarrow>
                            (case fs_files fs2 path of
                               Some content \<Rightarrow>
                                 (let (r2, c2) = send_chunks ctx plan 0 content fileID c1 in (r2, c2, fs2))
                             | None \<Rightarrow>
                                 (case ctx 0 of Some e \<Rightarrow> (Err e, c1, fs2)
                                  | None \<Rightarrow> (Err (Wrap ''read file'' ErrIsDir), c1, fs2)))
                        | (r1, fs2) \<Rightarrow> (owrap ''open file'' r1, c1, fs2))
           | (_, fs1) \<Rightarrow> (let (r, c1) = sendNotFound c fileID in (r, c1, fs1))))"

section \<open>The receiver\<close>

abbreviation ErrHashMismatch :: err where
  "ErrHashMismatch \<equiv> Sentinel ''transfer: hash mismatch after download''"

abbreviation ErrFileNotFound :: err where
  "ErrFileNotFound \<equiv> Sentinel ''transfer: file not found on sender''"

text \<open>An empty chunk is not written.\<close>

definition write_chunk :: "string \<Rightarrow> bytes \<Rightarrow> fs \<Rightarrow> unit outcome \<times> fs" where
  "write_chunk tmp data fs = (if data \<noteq> [] then file_Write tmp data fs else (Ok (), fs))"

text \<open>The loop over the chunks: what was written so far, and hashed, is \<open>h\<close>.\<close>

function recv_chunks ::
  "(nat \<Rightarrow> err option) \<Rightarrow> nat \<Rightarrow> string \<Rightarrow> bytes \<Rightarrow> chan \<Rightarrow> fs \<Rightarrow> bytes outcome \<times> chan \<times> fs" where
  "recv_chunks ctx i tmp h c fs =
     (case ctx i of
        Some e \<Rightarrow> (Err e, c, fs)
      | None \<Rightarrow>
          (case ch_in c of
             [] \<Rightarrow> (Err (Wrap ''recv chunk'' (ch_end c)), c, fs)
           | env # envs \<Rightarrow>
               (let c1 = c\<lparr>ch_in := envs\<rparr>
                in case GetFileChunk env of
                     None \<Rightarrow> (Err (Message ''receiver: expected FileChunk''), c1, fs)
                   | Some chunk \<Rightarrow>
                       (let (w, fs1) = write_chunk tmp (fc_Data chunk) fs
                        in if \<not> is_ok w then (fail_of (owrap ''write chunk'' w), c1, fs1)
                           else if fc_Eof chunk then (Ok (h @ fc_Data chunk), c1, fs1)
                           else recv_chunks ctx (Suc i) tmp (h @ fc_Data chunk) c1 fs1))))"
  by pat_completeness auto

termination
  by (relation "measure (\<lambda>(_, _, _, _, c, _). length (ch_in c))") auto

declare recv_chunks.simps [simp del]

text \<open>The deferred function: close the file unless it was closed, and remove it.\<close>

definition cleanup :: "bool \<Rightarrow> string \<Rightarrow> fs \<Rightarrow> fs" where
  "cleanup closed tmpPath fs = snd (os_Remove tmpPath (if closed then fs else snd (file_Close fs)))"

text \<open>From the open temporary file on.\<close>

definition receive_file ::
  "(bytes \<Rightarrow> id32) \<Rightarrow> (nat \<Rightarrow> err option) \<Rightarrow> id32 \<Rightarrow> string \<Rightarrow> string \<Rightarrow> chan \<Rightarrow> fs \<Rightarrow> string outcome \<times> chan \<times> fs" where
  "receive_file sha ctx fileID destDir tmpPath c fs =
     (let (body, c1, fs1) = recv_chunks ctx 0 tmpPath [] c fs
      in case body of
           Ok content \<Rightarrow>
             (let (cl, fs2) = file_Close fs1
              in if \<not> is_ok cl then (fail_of (owrap ''close temp file'' cl), c1, cleanup False tmpPath fs2)
                 else if sha content \<noteq> fileID then (Err ErrHashMismatch, c1, cleanup True tmpPath fs2)
                 else let destPath = filepath_Join destDir (hex_encode (list_of fileID));
                          (rn, fs3) = os_Rename tmpPath destPath fs2
                      in (obind (owrap ''rename temp file'' rn) (\<lambda>_. Ok destPath), c1, cleanup True tmpPath fs3))
         | r \<Rightarrow> (fail_of r, c1, cleanup False tmpPath fs1))"

text \<open>The names \<open>os.CreateTemp\<close> tries for the pattern \<open>.kin-tmp-\<close> with the random parts \<open>rnds\<close>.\<close>

definition tmp_names :: "string list \<Rightarrow> string list" where
  "tmp_names rnds = map (\<lambda>r. ''.kin-tmp-'' @ r) rnds"

definition RequestFile ::
  "(bytes \<Rightarrow> id32) \<Rightarrow> (nat \<Rightarrow> err option) \<Rightarrow> id32 \<Rightarrow> string \<Rightarrow> string list \<Rightarrow> chan \<Rightarrow> fs \<Rightarrow> string outcome \<times> chan \<times> fs" where
  "RequestFile sha ctx fileID destDir rnds c fs =
     (let (s, c1) = chan_send c (FileRequest \<lparr>frq_FileId = list_of fileID\<rparr>)
      in if \<not> is_ok s then (fail_of (owrap ''send file request'' s), c1, fs)
      else case chan_recv c1 of
        (Ok env, c2) \<Rightarrow>
          (case GetFileResponse env of
             None \<Rightarrow> (Err (Message ''receiver: expected FileResponse''), c2, fs)
           | Some resp \<Rightarrow>
               if frs_NotFound resp then (Err ErrFileNotFound, c2, fs)
               else case os_CreateTemp destDir (tmp_names rnds) fs of
                      (Ok tmpPath, fs1) \<Rightarrow> receive_file sha ctx fileID destDir tmpPath c2 fs1
                    | (t, fs1) \<Rightarrow> (owrap ''create temp file'' t, c2, fs1))
      | (r, c2) \<Rightarrow> (fail_of (owrap ''recv file response'' r), c2, fs))"

section \<open>What the loops do\<close>

lemma write_chunk_cases:
  assumes "fs_files fs tmp = Some h"
  obtains (written) "fst (write_chunk tmp data fs) = Ok ()" "fs_files (snd (write_chunk tmp data fs)) = (fs_files fs)(tmp \<mapsto> h @ data)"
    | (failed) e where "fst (write_chunk tmp data fs) = Err e" "fs_files (snd (write_chunk tmp data fs)) = fs_files fs"
proof (cases "data = []")
  case True
  with assms show thesis by (intro written) (auto simp: write_chunk_def)
next
  case False
  show thesis
    by (cases rule: file_Write_cases [of tmp data fs])
      (use False assms in \<open>auto simp: write_chunk_def intro: written failed\<close>)
qed

lemma write_chunk_preserved [simp]:
  "fs_dirs (snd (write_chunk tmp data fs)) = fs_dirs fs" "fs_fail (snd (write_chunk tmp data fs)) = fs_fail fs"
  by (simp_all add: write_chunk_def)

text \<open>Whatever arrives, the loop of the receiver writes the temporary file only, and all it reports.\<close>

definition tmp_only :: "string \<Rightarrow> fs \<Rightarrow> bytes outcome \<Rightarrow> fs \<Rightarrow> bool" where
  "tmp_only tmp fs r fs' \<longleftrightarrow>
     (\<exists>x. fs_files fs' = (fs_files fs)(tmp \<mapsto> x) \<and> (\<forall>content. r = Ok content \<longrightarrow> x = content)) \<and>
     fs_dirs fs' = fs_dirs fs \<and> fs_fail fs' = fs_fail fs \<and> r \<noteq> Panic"

lemma files_self: "f tmp = Some h \<Longrightarrow> \<exists>x. f = f(tmp \<mapsto> x)"
  by (rule exI [of _ h]) (simp add: fun_upd_idem)

lemma tmp_only_Err: "fs_files fs tmp = Some h \<Longrightarrow> tmp_only tmp fs (Err e) fs"
  by (simp add: tmp_only_def files_self)

lemma recv_chunks_effect:
  "recv_chunks ctx i tmp h c fs = (r, c', fs') \<Longrightarrow> fs_files fs tmp = Some h \<Longrightarrow> tmp_only tmp fs r fs'"
proof (induction ctx i tmp h c fs rule: recv_chunks.induct)
  case (1 ctx i tmp h c fs)
  note step = recv_chunks.simps [of ctx i tmp h c fs]
  show ?case
  proof (cases "ctx i")
    case (Some e)
    with "1.prems" step show ?thesis by (auto intro: tmp_only_Err)
  next
    case ctx: None
    show ?thesis
    proof (cases "ch_in c")
      case Nil
      with "1.prems" step ctx show ?thesis by (auto intro: tmp_only_Err)
    next
      case (Cons env envs)
      show ?thesis
      proof (cases "GetFileChunk env")
        case None
        with "1.prems" step ctx Cons show ?thesis by (auto intro: tmp_only_Err)
      next
        case (Some chunk)
        let ?c = "c\<lparr>ch_in := envs\<rparr>"
        obtain w fs1 where w: "write_chunk tmp (fc_Data chunk) fs = (w, fs1)"
          by (cases "write_chunk tmp (fc_Data chunk) fs")
        then have keep: "fs_dirs fs1 = fs_dirs fs" "fs_fail fs1 = fs_fail fs"
          using write_chunk_preserved [of tmp "fc_Data chunk" fs] by simp_all
        show ?thesis
          using "1.prems"(2)
        proof (cases rule: write_chunk_cases [where data = "fc_Data chunk"])
          case written
          then have ok: "w = Ok ()" and f1: "fs_files fs1 = (fs_files fs)(tmp \<mapsto> h @ fc_Data chunk)"
            by (simp_all add: w)
          show ?thesis
          proof (cases "fc_Eof chunk")
            case True
            with "1.prems" step ctx Cons Some w ok f1 keep show ?thesis by (auto simp: tmp_only_def)
          next
            case False
            with "1.prems" step ctx Cons Some w ok
            have "recv_chunks ctx (Suc i) tmp (h @ fc_Data chunk) ?c fs1 = (r, c', fs')" by simp
            with "1.IH" [OF ctx Cons refl Some w [symmetric]] ok False f1
            have "tmp_only tmp fs1 r fs'" by simp
            with f1 keep show ?thesis by (auto simp: tmp_only_def)
          qed
        next
          case (failed e)
          with "1.prems" step ctx Cons Some w keep show ?thesis
            by (auto simp: tmp_only_def intro: files_self)
        qed
      qed
    qed
  qed
qed


lemma cleanup_files:
  "fs_files (cleanup closed tmp fs) = (fs_files fs)(tmp := None) \<or> fs_files (cleanup closed tmp fs) = fs_files fs"
  by (auto simp: cleanup_def os_Remove_files)

lemma cleanup_healthy: "healthy fs \<Longrightarrow> fs_files (cleanup closed tmp fs) = (fs_files fs)(tmp := None)"
  by (cases "fs_files fs tmp")
    (auto simp: cleanup_def os_Remove_def file_Close_def syscall_def healthy_def Let_def)

lemma file_Close_cases:
  obtains (closed) "fst (file_Close fs) = Ok ()" | (failed) e where "fst (file_Close fs) = Err e"
  by (cases "fs_fail fs (fs_calls fs)") (use that in \<open>auto simp: file_Close_def syscall_def\<close>)

lemma receive_file_effect:
  assumes res: "receive_file sha ctx fileID d tmp c fs = (r, c', fs')" and tmp: "fs_files fs tmp = Some []"
    and p: "p = filepath_Join d (hex_encode (list_of fileID))" and ne: "p \<noteq> tmp"
  shows "(\<exists>content. r = Ok p \<and> sha content = fileID \<and> fs_files fs' = (fs_files fs)(tmp := None, p \<mapsto> content)) \<or>
    (\<exists>e. r = Err e \<and> (healthy fs \<longrightarrow> fs_files fs' = (fs_files fs)(tmp := None)))"
proof -
  obtain body c1 fs1 where loop: "recv_chunks ctx 0 tmp [] c fs = (body, c1, fs1)"
    by (cases "recv_chunks ctx 0 tmp [] c fs") auto
  note eff = recv_chunks_effect [OF loop tmp, unfolded tmp_only_def]
  then have h1: "healthy fs1 = healthy fs" by (simp add: healthy_def)
  show ?thesis
  proof (cases body)
    case Panic
    with eff show ?thesis by simp
  next
    case (Err e)
    with res loop have "r = Err e" and "fs' = cleanup False tmp fs1" by (simp_all add: receive_file_def)
    with eff cleanup_healthy [of fs1 False tmp] h1 show ?thesis by auto
  next
    case (Ok content)
    with eff have f1: "fs_files fs1 = (fs_files fs)(tmp \<mapsto> content)" by auto
    let ?fs2 = "snd (file_Close fs1)"
    have f2: "fs_files ?fs2 = (fs_files fs)(tmp \<mapsto> content)" and h2: "healthy ?fs2 = healthy fs"
      by (simp_all add: f1 h1)
    note step = res [unfolded receive_file_def loop]
    show ?thesis
    proof (cases rule: file_Close_cases [of fs1])
      case (failed e)
      with step Ok have "r = Err (Wrap ''close temp file'' e)" and "fs' = cleanup False tmp ?fs2"
        by (auto simp: split_beta)
      with cleanup_healthy [of ?fs2 False tmp] h2 f2 show ?thesis by simp
    next
      case closed
      show ?thesis
      proof (cases "sha content = fileID")
        case False
        with closed step Ok have "r = Err ErrHashMismatch" and "fs' = cleanup True tmp ?fs2"
          by (auto simp: split_beta)
        with cleanup_healthy [of ?fs2 True tmp] h2 f2 show ?thesis by simp
      next
        case True
        let ?fs3 = "snd (os_Rename tmp p ?fs2)"
        from True closed step Ok have r: "r = obind (owrap ''rename temp file'' (fst (os_Rename tmp p ?fs2))) (\<lambda>_. Ok p)"
          and fs': "fs' = cleanup True tmp ?fs3"
          by (auto simp: split_beta Let_def p)
        show ?thesis
        proof (cases rule: os_Rename_cases [of ?fs2 tmp p])
          case (performed x)
          then have "fs_files ?fs3 = (fs_files fs)(tmp := None, p \<mapsto> content)" and "x = content"
            by (simp_all add: f1)
          with cleanup_files [of True tmp ?fs3] ne have "fs_files fs' = (fs_files fs)(tmp := None, p \<mapsto> content)"
            by (auto simp: fs' fun_upd_twist)
          with performed True show ?thesis by (auto simp: r)
        next
          case (failed e)
          with cleanup_healthy [of ?fs3 True tmp] h2 f2 show ?thesis by (auto simp: r fs')
        qed
      qed
    qed
  qed
qed


lemma hex_plain_name: "plain_name (hex_encode (list_of (fileID :: id32)))"
proof -
  let ?h = "hex_encode (list_of fileID)"
  have len: "length ?h = 64" by simp
  have "?h \<noteq> x" if "length x \<noteq> 64" for x using len that by metis
  moreover have "sep \<notin> set ?h" using set_hex_encode [of "list_of fileID"] by auto
  ultimately show ?thesis by (simp add: plain_name_def)
qed

lemma dest_path: "abs_dir d \<Longrightarrow> filepath_Join d (hex_encode (list_of (fileID :: id32))) = d @ [sep] @ hex_encode (list_of fileID)"
  by (rule filepath_Join_plain [OF _ hex_plain_name])

lemma dest_not_tmp: "hex_encode (list_of (fileID :: id32)) \<noteq> ''.kin-tmp-'' @ r"
proof
  assume "hex_encode (list_of fileID) = ''.kin-tmp-'' @ r"
  then have "CHR ''.'' \<in> set (hex_encode (list_of fileID))" by simp
  then show False using set_hex_encode [of "list_of fileID"] by auto
qed

lemma chan_send_cases:
  obtains (sent) c' where "chan_send c env = (Ok (), c')" "ch_in c' = ch_in c" "ch_out c' = ch_out c @ [env]"
    | (full) "chan_send c env = (Err ErrIO, c)"
  by (cases "ch_room c"; cases "the (ch_room c)") (use that in \<open>auto simp: chan_send_def split: nat.splits\<close>)

lemma RequestFile_effect:
  assumes "abs_dir d" and res: "RequestFile sha ctx fileID d rnds c fs = (r, c', fs')"
  shows "(\<exists>content. r = Ok (d @ [sep] @ hex_encode (list_of fileID)) \<and> sha content = fileID \<and>
      fs_files fs' = (fs_files fs)(d @ [sep] @ hex_encode (list_of fileID) \<mapsto> content)) \<or>
    (\<exists>e. r = Err e \<and> (healthy fs \<longrightarrow> fs_files fs' = fs_files fs))"
proof (cases rule: chan_send_cases [of c "FileRequest \<lparr>frq_FileId = list_of fileID\<rparr>"])
  case full
  with res show ?thesis by (auto simp: RequestFile_def)
next
  case (sent c1)
  show ?thesis
  proof (cases "ch_in c1")
    case Nil
    with res sent show ?thesis by (auto simp: RequestFile_def chan_recv_def)
  next
    case (Cons env envs)
    then have recv: "chan_recv c1 = (Ok env, c1\<lparr>ch_in := envs\<rparr>)" by (simp add: chan_recv_def)
    show ?thesis
    proof (cases "GetFileResponse env")
      case None
      with res sent recv show ?thesis by (auto simp: RequestFile_def)
    next
      case (Some resp)
      show ?thesis
      proof (cases "frs_NotFound resp")
        case True
        with res sent recv Some show ?thesis by (auto simp: RequestFile_def)
      next
        case False
        let ?names = "tmp_names rnds"
        obtain t fs1 where t: "os_CreateTemp d ?names fs = (t, fs1)" by (cases "os_CreateTemp d ?names fs")
        have h1: "healthy fs1 = healthy fs" using healthy_preserved(5) [of d ?names fs, unfolded t] by simp
        show ?thesis
        proof (cases rule: os_CreateTemp_cases [of ?names fs d])
          case (failed e)
          with res sent recv Some False t show ?thesis by (auto simp: RequestFile_def)
        next
          case (performed n)
          let ?tmp = "d @ [sep] @ n" and ?p = "d @ [sep] @ hex_encode (list_of fileID)"
          from performed t have t': "t = Ok ?tmp" and f1: "fs_files fs1 = (fs_files fs)(?tmp \<mapsto> [])"
            and fresh: "fs_files fs ?tmp = None"
            by (auto simp: exists_path_def)
          from performed dest_not_tmp have ne: "?p \<noteq> ?tmp" by (auto simp: tmp_names_def)
          from res sent recv Some False t t' have
            rf: "receive_file sha ctx fileID d ?tmp (c1\<lparr>ch_in := envs\<rparr>) fs1 = (r, c', fs')"
            by (simp add: RequestFile_def)
          have "(fs_files fs)(?tmp := None) = fs_files fs" using fresh by (rule fun_upd_idem)
          with receive_file_effect [OF rf _ dest_path [OF assms(1), symmetric] ne] show ?thesis
            by (simp add: f1 h1)
        qed
      qed
    qed
  qed
qed

lemma recv_chunks_preserved:
  "fs_dirs (snd (snd (recv_chunks ctx i tmp h c fs))) = fs_dirs fs \<and>
   fs_fail (snd (snd (recv_chunks ctx i tmp h c fs))) = fs_fail fs"
proof (induction ctx i tmp h c fs rule: recv_chunks.induct)
  case (1 ctx i tmp h c fs)
  show ?case
  proof (cases "\<exists>env envs chunk. ctx i = None \<and> ch_in c = env # envs \<and> GetFileChunk env = Some chunk \<and>
      is_ok (fst (write_chunk tmp (fc_Data chunk) fs)) \<and> \<not> fc_Eof chunk")
    case True
    then obtain env envs chunk w fs1 where *: "ctx i = None" "ch_in c = env # envs" "GetFileChunk env = Some chunk"
      "write_chunk tmp (fc_Data chunk) fs = (w, fs1)" "is_ok w" "\<not> fc_Eof chunk"
      by (elim exE conjE) (metis surjective_pairing)
    from 1 [OF *(1,2) refl *(3) *(4) [symmetric]] *(5,6) write_chunk_preserved [of tmp "fc_Data chunk" fs]
    show ?thesis by (simp add: recv_chunks.simps [of ctx i tmp h c fs] *(1-4))
  next
    case False
    then show ?thesis
      by (auto simp: recv_chunks.simps [of ctx i tmp h c fs] split_beta Let_def split: option.splits list.splits)
  qed
qed

lemma RequestFile_preserved:
  "fs_dirs (snd (snd (RequestFile sha ctx fileID d rnds c fs))) = fs_dirs fs"
  "fs_fail (snd (snd (RequestFile sha ctx fileID d rnds c fs))) = fs_fail fs"
proof -
  have cl: "fs_dirs (cleanup b tmp fs) = fs_dirs fs" "fs_fail (cleanup b tmp fs) = fs_fail fs" for b tmp fs
    by (simp_all add: cleanup_def)
  have rf: "fs_dirs (snd (snd (receive_file sha ctx fileID d tmp c fs))) = fs_dirs fs"
    "fs_fail (snd (snd (receive_file sha ctx fileID d tmp c fs))) = fs_fail fs" for tmp c fs
    using recv_chunks_preserved [of ctx 0 tmp "[]" c fs]
    by (simp_all add: receive_file_def split_beta Let_def cl split: outcome.splits)
  note ct = fs_dirs_preserved(5) [of d "tmp_names rnds" fs] fs_fail_preserved(5) [of d "tmp_names rnds" fs]
  show "fs_dirs (snd (snd (RequestFile sha ctx fileID d rnds c fs))) = fs_dirs fs"
    "fs_fail (snd (snd (RequestFile sha ctx fileID d rnds c fs))) = fs_fail fs"
    using ct by (auto simp: RequestFile_def split_beta Let_def rf split: outcome.splits option.splits prod.splits)
qed

text \<open>The sender's stream: the chunks of a file in order, none larger than the buffer, then an empty last one.\<close>

fun chunk_data :: "envelope \<Rightarrow> bytes" where
  "chunk_data (FileChunk ch) = fc_Data ch"
| "chunk_data _ = []"

definition body_chunk :: "id32 \<Rightarrow> envelope \<Rightarrow> bool" where
  "body_chunk fileID env \<longleftrightarrow> (\<exists>d. env = FileChunk \<lparr>fc_FileId = list_of fileID, fc_Data = d, fc_Eof = False\<rparr> \<and>
     d \<noteq> [] \<and> length d \<le> chunkSize)"

definition last_chunk :: "id32 \<Rightarrow> envelope" where
  "last_chunk fileID = FileChunk \<lparr>fc_FileId = list_of fileID, fc_Data = [], fc_Eof = True\<rparr>"

lemma send_chunks_stream:
  assumes "ctx = (\<lambda>_. None)" and "\<forall>i. plan i \<noteq> None" and "ch_room c = None"
  shows "\<exists>cs. send_chunks ctx plan i rest fileID c = (Ok (), c\<lparr>ch_out := ch_out c @ cs @ [last_chunk fileID]\<rparr>) \<and>
    list_all (body_chunk fileID) cs \<and> concat (map chunk_data cs) = rest"
  using assms(3)
proof (induction "length rest" arbitrary: i rest c rule: less_induct)
  case less
  obtain k where k: "plan i = Some k" using assms(2) by blast
  show ?case
  proof (cases "rest = []")
    case True
    with less.prems show ?thesis
      by (subst send_chunks.simps, intro exI [of _ "[]"]) (simp add: assms(1) k last_chunk_def)
  next
    case False
    define n where "n = min (max 1 k) (min chunkSize (length rest))"
    have n: "0 < n" "n \<le> chunkSize" "n \<le> length rest"
      using False by (auto simp: n_def chunkSize_def Suc_le_eq)
    let ?env = "FileChunk \<lparr>fc_FileId = list_of fileID, fc_Data = take n rest, fc_Eof = False\<rparr>"
    let ?c = "c\<lparr>ch_out := ch_out c @ [?env]\<rparr>"
    have "length (drop n rest) < length rest" and "ch_room ?c = None" using n False less.prems by auto
    from less.hyps [OF this, of "Suc i"] obtain cs where
      rest: "send_chunks ctx plan (Suc i) (drop n rest) fileID ?c =
          (Ok (), ?c\<lparr>ch_out := ch_out ?c @ cs @ [last_chunk fileID]\<rparr>)"
      and cs: "list_all (body_chunk fileID) cs" "concat (map chunk_data cs) = drop n rest"
      by blast
    have "body_chunk fileID ?env" using n by (auto simp: body_chunk_def)
    moreover have "send_chunks ctx plan i rest fileID c = send_chunks ctx plan (Suc i) (drop n rest) fileID ?c"
      using less.prems False by (subst send_chunks.simps) (simp add: assms(1) k n_def Let_def)
    ultimately show ?thesis
      using rest cs by (intro exI [of _ "?env # cs"]) simp
  qed
qed


lemma HandleRequest_stream:
  assumes "idx fileID = Some path" and "fs_files fs path = Some content" and "healthy fs"
    and "\<forall>i. plan i \<noteq> None" and "ch_room c = None"
  obtains cs c' fs' where "HandleRequest idx (\<lambda>_. None) plan fileID c fs = (Ok (), c', fs')"
    and "ch_out c' = ch_out c @ FileResponse \<lparr>frs_FileId = list_of fileID, frs_Size = of_nat (length content), frs_NotFound = False\<rparr>
      # cs @ [last_chunk fileID]"
    and "list_all (body_chunk fileID) cs" and "concat (map chunk_data cs) = content"
proof -
  let ?resp = "FileResponse \<lparr>frs_FileId = list_of fileID, frs_Size = of_nat (length content), frs_NotFound = False\<rparr>"
  let ?c = "c\<lparr>ch_out := ch_out c @ [?resp]\<rparr>"
  from assms(5) have "ch_room ?c = None" by simp
  from send_chunks_stream [OF refl assms(4) this, of 0 content fileID] obtain cs where
    cs: "send_chunks (\<lambda>_. None) plan 0 content fileID ?c = (Ok (), ?c\<lparr>ch_out := ch_out ?c @ cs @ [last_chunk fileID]\<rparr>)"
    "list_all (body_chunk fileID) cs" "concat (map chunk_data cs) = content"
    by blast
  have "\<exists>fs'. HandleRequest idx (\<lambda>_. None) plan fileID c fs = (Ok (), ?c\<lparr>ch_out := ch_out ?c @ cs @ [last_chunk fileID]\<rparr>, fs')"
    using assms cs(1)
    by (simp add: HandleRequest_def Lookup_def os_Stat_def os_Open_def syscall_def healthy_def exists_path_def Let_def)
  with that [OF _ _ cs(2,3)] show thesis by fastforce
qed

lemma recv_chunks_stream:
  assumes "list_all (body_chunk fileID) cs" and "healthy fs" and "fs_files fs tmp = Some h"
    and "ch_in c = cs @ last_chunk fileID # after"
  shows "\<exists>fs'. recv_chunks (\<lambda>_. None) i tmp h c fs = (Ok (h @ concat (map chunk_data cs)), c\<lparr>ch_in := after\<rparr>, fs')"
  using assms
proof (induction cs arbitrary: i h c fs)
  case Nil
  then show ?case by (subst recv_chunks.simps) (simp add: last_chunk_def write_chunk_def)
next
  case (Cons env cs)
  then obtain d where env: "env = FileChunk \<lparr>fc_FileId = list_of fileID, fc_Data = d, fc_Eof = False\<rparr>" "d \<noteq> []"
    by (auto simp: body_chunk_def)
  let ?c = "c\<lparr>ch_in := cs @ last_chunk fileID # after\<rparr>"
  obtain fs1 where w: "file_Write tmp d fs = (Ok (), fs1)" and h1: "healthy fs1" and f1: "fs_files fs1 tmp = Some (h @ d)"
    using Cons.prems(2,3) by (simp add: file_Write_def syscall_def healthy_def)
  from Cons.IH [OF _ h1 f1, of ?c "Suc i"] Cons.prems obtain fs' where
    "recv_chunks (\<lambda>_. None) (Suc i) tmp (h @ d) ?c fs1 = (Ok ((h @ d) @ concat (map chunk_data cs)), ?c\<lparr>ch_in := after\<rparr>, fs')"
    by auto
  then show ?case
    using Cons.prems(4) w env by (subst recv_chunks.simps) (simp add: write_chunk_def)
qed

lemma RequestFile_stream:
  assumes "abs_dir d" and "healthy fs" and "fs_dirs fs d" and "r \<in> set rnds" and "\<not> exists_path fs (d @ [sep] @ ''.kin-tmp-'' @ r)"
    and "\<not> fs_dirs fs (d @ [sep] @ hex_encode (list_of fileID))"
    and "list_all (body_chunk fileID) cs" and "sha (concat (map chunk_data cs)) = fileID"
    and "\<not> frs_NotFound resp" and "ch_in c = FileResponse resp # cs @ last_chunk fileID # after" and "ch_room c = None"
  shows "\<exists>c' fs'. RequestFile sha (\<lambda>_. None) fileID d rnds c fs = (Ok (d @ [sep] @ hex_encode (list_of fileID)), c', fs') \<and>
    fs_files fs' (d @ [sep] @ hex_encode (list_of fileID)) = Some (concat (map chunk_data cs))"
proof -
  let ?p = "d @ [sep] @ hex_encode (list_of fileID)" and ?names = "tmp_names rnds"
  let ?content = "concat (map chunk_data cs)"
  let ?c = "c\<lparr>ch_out := ch_out c @ [FileRequest \<lparr>frq_FileId = list_of fileID\<rparr>], ch_in := cs @ last_chunk fileID # after\<rparr>"
  have "find (\<lambda>n. \<not> exists_path fs (d @ [sep] @ n)) ?names \<noteq> None"
    using assms(4,5) by (auto simp: find_None_iff tmp_names_def)
  then obtain n where n: "find (\<lambda>n. \<not> exists_path fs (d @ [sep] @ n)) ?names = Some n" by blast
  then have "n \<in> set ?names" by (auto simp: find_Some_iff)
  then have ne: "?p \<noteq> d @ [sep] @ n" using dest_not_tmp by (auto simp: tmp_names_def)
  define fs1 where "fs1 = fs\<lparr>fs_calls := Suc (fs_calls fs), fs_files := (fs_files fs)(d @ [sep] @ n \<mapsto> [])\<rparr>"
  have tmp: "os_CreateTemp d ?names fs = (Ok (d @ [sep] @ n), fs1)"
    using assms(2,3) n by (simp add: os_CreateTemp_def syscall_def healthy_def fs1_def)
  have h1: "healthy fs1" and f1: "fs_files fs1 (d @ [sep] @ n) = Some []" and d1: "fs_dirs fs1 = fs_dirs fs"
    using assms(2) by (simp_all add: healthy_def fs1_def)
  obtain fs2 where loop: "recv_chunks (\<lambda>_. None) 0 (d @ [sep] @ n) [] ?c fs1 = (Ok ?content, ?c\<lparr>ch_in := after\<rparr>, fs2)"
    using recv_chunks_stream [OF assms(7) h1 f1, of ?c after 0] by auto
  note eff = recv_chunks_effect [OF loop f1, unfolded tmp_only_def]
  then have h2: "healthy fs2" and f2: "fs_files fs2 (d @ [sep] @ n) = Some ?content" and d2: "\<not> fs_dirs fs2 ?p"
    using h1 d1 assms(6) by (auto simp: healthy_def)
  obtain fs3 where close: "file_Close fs2 = (Ok (), fs3)" and h3: "healthy fs3" and f3: "fs_files fs3 = fs_files fs2"
    and d3: "fs_dirs fs3 = fs_dirs fs2"
    using h2 by (simp add: file_Close_def syscall_def healthy_def)
  obtain fs4 where ren: "os_Rename (d @ [sep] @ n) ?p fs3 = (Ok (), fs4)" and f4: "fs_files fs4 ?p = Some ?content"
    using h3 f2 d2 by (simp add: os_Rename_def syscall_def healthy_def f3 d3)
  have rf: "receive_file sha (\<lambda>_. None) fileID d (d @ [sep] @ n) ?c fs1 =
      (Ok ?p, ?c\<lparr>ch_in := after\<rparr>, cleanup True (d @ [sep] @ n) fs4)"
    using ren by (simp add: receive_file_def loop [simplified] close assms(8) dest_path [OF assms(1)])
  have "RequestFile sha (\<lambda>_. None) fileID d rnds c fs =
      (Ok ?p, ?c\<lparr>ch_in := after\<rparr>, cleanup True (d @ [sep] @ n) fs4)"
    using assms(9-11) tmp rf by (simp add: RequestFile_def chan_recv_def)
  moreover have "fs_files (cleanup True (d @ [sep] @ n) fs4) ?p = Some ?content"
    using cleanup_files [of True "d @ [sep] @ n" fs4] ne f4 by auto
  ultimately show ?thesis by blast
qed


section \<open>Properties\<close>

abbreviation ex_sha :: "bytes \<Rightarrow> id32" where
  "ex_sha \<equiv> \<lambda>m. arr_of [sum_list m]"

abbreviation ex_id :: id32 where
  "ex_id \<equiv> arr_of [6]"

abbreviation ex_chan :: "envelope list \<Rightarrow> chan" where
  "ex_chan msgs \<equiv> \<lparr>ch_in = msgs, ch_end = ErrIO, ch_out = [], ch_room = None\<rparr>"

abbreviation ex_resp :: envelope where
  "ex_resp \<equiv> FileResponse \<lparr>frs_FileId = [], frs_Size = 3, frs_NotFound = False\<rparr>"

lemma ex_abs_dir: "abs_dir ''/e''"
  by (auto simp: abs_dir_def intro!: exI [of _ "[''e'']"])

text \<open>
  C5. A download is verified: whatever the other side sends and whichever system calls fail, if
  \<open>RequestFile\<close> returns a path then the path is the hex file id in the destination directory, the file there
  has a content with that hash, and no other file has changed.
\<close>

theorem request_file_verified:
  assumes "abs_dir d" and "RequestFile sha ctx fileID d rnds c fs = (Ok path, c', fs')"
  shows "path = d @ [sep] @ hex_encode (list_of fileID) \<and>
    (\<exists>content. sha content = fileID \<and> fs_files fs' = (fs_files fs)(path \<mapsto> content))"
  using RequestFile_effect [OF assms] by auto

lemma ex_received:
  "\<exists>c' fs'. RequestFile ex_sha (\<lambda>_. None) ex_id ''/e'' [''0''] (ex_chan [ex_resp,
      FileChunk \<lparr>fc_FileId = list_of ex_id, fc_Data = [1, 2, 3], fc_Eof = False\<rparr>, last_chunk ex_id]) ex_fs =
    (Ok (''/e'' @ [sep] @ hex_encode (list_of ex_id)), c', fs')"
proof -
  let ?cs = "[FileChunk \<lparr>fc_FileId = list_of ex_id, fc_Data = [1, 2, 3], fc_Eof = False\<rparr>]"
  have "length (''/e'' @ [sep] @ hex_encode (list_of ex_id)) = 67" by simp
  then have "\<not> fs_dirs ex_fs (''/e'' @ [sep] @ hex_encode (list_of ex_id))" by (auto simp: ex_fs_def)
  then show ?thesis
    using RequestFile_stream [of "''/e''" ex_fs "''0''" "[''0'']" ex_id ?cs ex_sha
        "\<lparr>frs_FileId = [], frs_Size = 3, frs_NotFound = False\<rparr>" "ex_chan (ex_resp # ?cs @ [last_chunk ex_id])" "[]"]
    by (force simp: ex_abs_dir exists_path_def body_chunk_def chunkSize_def ex_fs_def healthy_def)
qed

theorem request_file_verified_witness:
  "\<exists>content. ex_sha content = ex_id \<and>
    fs_files (snd (snd (RequestFile ex_sha (\<lambda>_. None) ex_id ''/e'' [''0''] (ex_chan [ex_resp,
      FileChunk \<lparr>fc_FileId = list_of ex_id, fc_Data = [1, 2, 3], fc_Eof = False\<rparr>, last_chunk ex_id]) ex_fs)))
      (''/e/'' @ hex_encode (list_of ex_id)) = Some content"
proof -
  obtain c' fs' where run: "RequestFile ex_sha (\<lambda>_. None) ex_id ''/e'' [''0''] (ex_chan [ex_resp,
      FileChunk \<lparr>fc_FileId = list_of ex_id, fc_Data = [1, 2, 3], fc_Eof = False\<rparr>, last_chunk ex_id]) ex_fs =
    (Ok (''/e'' @ [sep] @ hex_encode (list_of ex_id)), c', fs')"
    using ex_received by blast
  from request_file_verified [OF ex_abs_dir run] run show ?thesis by auto
qed

text \<open>
  C19. A failed download leaves nothing behind: when no system call fails by itself, \<open>RequestFile\<close> that
  returns an error, for whatever reason, leaves every file as it was; the temporary file is gone. It never panics.
\<close>

theorem request_file_cleans_up:
  assumes "abs_dir d" and "healthy fs" and "RequestFile sha ctx fileID d rnds c fs = (r, c', fs')" and "\<forall>path. r \<noteq> Ok path"
  shows "(\<exists>e. r = Err e) \<and> fs_files fs' = fs_files fs"
  using RequestFile_effect [OF assms(1,3)] assms(2,4) by auto

theorem request_file_cleans_up_witness:
  "fs_files (snd (snd (RequestFile ex_sha (\<lambda>_. None) ex_id ''/e'' [''0''] (ex_chan [ex_resp, last_chunk ex_id]) ex_fs))) = fs_files ex_fs"
proof -
  obtain r c' fs' where run: "RequestFile ex_sha (\<lambda>_. None) ex_id ''/e'' [''0''] (ex_chan [ex_resp, last_chunk ex_id]) ex_fs = (r, c', fs')"
    by (metis prod_cases3)
  then have "r = Err ErrHashMismatch"
    by (auto simp: RequestFile_def receive_file_def chan_recv_def recv_chunks.simps last_chunk_def write_chunk_def
        tmp_names_def fs_defs ex_fs_def exists_path_def)
  with request_file_cleans_up [OF ex_abs_dir ex_fs_healthy run] run show ?thesis by simp
qed

text \<open>
  What is sent: for an indexed file that can be read, \<open>HandleRequest\<close> sends the response with the
  file's size, then its content in order in non-empty chunks of at most 64 KiB that are not marked as last,
  then one empty chunk marked as last, however the reads of the file are split.
\<close>

lemma sender_streams_file:
  assumes "Lookup idx fileID = Some path" and "fs_files fs path = Some content" and "healthy fs"
    and "\<forall>i. plan i \<noteq> None" and "ch_room c = None"
  shows "\<exists>cs. fst (HandleRequest idx (\<lambda>_. None) plan fileID c fs) = Ok () \<and>
    ch_out (fst (snd (HandleRequest idx (\<lambda>_. None) plan fileID c fs))) =
      ch_out c @ FileResponse \<lparr>frs_FileId = list_of fileID, frs_Size = of_nat (length content), frs_NotFound = False\<rparr>
        # cs @ [last_chunk fileID] \<and>
    list_all (body_chunk fileID) cs \<and> concat (map chunk_data cs) = content"
proof -
  from assms(1) have "idx fileID = Some path" by (simp add: Lookup_def)
  then show ?thesis
    by (rule HandleRequest_stream [where fs = fs and c = c and plan = plan]) (use assms in auto)
qed

text \<open>
  C6. End to end: what the sender writes for an indexed file, delivered in order, makes the receiver store
  that very content under its hash. The receiver needs a directory that exists, a free temporary name and no
  directory in the place of the result.
\<close>

theorem transfer_end_to_end:
  assumes "Lookup idx fileID = Some path" and "fs_files sfs path = Some content" and "sha content = fileID"
    and "healthy sfs" and "\<forall>i. plan i \<noteq> None" and "ch_room sc = None" and "ch_out sc = []"
    and "abs_dir d" and "healthy rfs" and "fs_dirs rfs d" and "r \<in> set rnds"
    and "\<not> exists_path rfs (d @ [sep] @ ''.kin-tmp-'' @ r)" and "\<not> fs_dirs rfs (d @ [sep] @ hex_encode (list_of fileID))"
    and "ch_in rc = ch_out (fst (snd (HandleRequest idx (\<lambda>_. None) plan fileID sc sfs)))" and "ch_room rc = None"
  shows "\<exists>c' fs'. RequestFile sha (\<lambda>_. None) fileID d rnds rc rfs = (Ok (d @ [sep] @ hex_encode (list_of fileID)), c', fs') \<and>
    fs_files fs' = (fs_files rfs)(d @ [sep] @ hex_encode (list_of fileID) \<mapsto> content)"
proof -
  from assms(1) have "idx fileID = Some path" by (simp add: Lookup_def)
  then obtain cs where cs: "ch_in rc = FileResponse \<lparr>frs_FileId = list_of fileID, frs_Size = of_nat (length content), frs_NotFound = False\<rparr>
      # cs @ [last_chunk fileID]" "list_all (body_chunk fileID) cs" "concat (map chunk_data cs) = content"
    by (rule HandleRequest_stream [where fs = sfs and c = sc and plan = plan]) (use assms in auto)
  from RequestFile_stream [OF assms(8-13) cs(2) _ _ cs(1) assms(15), of sha] cs(3) assms(3) obtain c' fs' where
    run: "RequestFile sha (\<lambda>_. None) fileID d rnds rc rfs = (Ok (d @ [sep] @ hex_encode (list_of fileID)), c', fs')"
    and "fs_files fs' (d @ [sep] @ hex_encode (list_of fileID)) = Some content" by auto
  with RequestFile_effect [OF assms(8) run] show ?thesis by auto
qed

theorem transfer_end_to_end_witness:
  "\<exists>c' fs'. RequestFile ex_sha (\<lambda>_. None) ex_id ''/e'' [''0'']
      (ex_chan (ch_out (fst (snd (HandleRequest (NewLocalIndex(ex_id \<mapsto> ''/d/a'')) (\<lambda>_. None) (\<lambda>_. Some 2) ex_id (ex_chan []) ex_fs))))) ex_fs =
    (Ok (''/e/'' @ hex_encode (list_of ex_id)), c', fs') \<and> fs_files fs' (''/e/'' @ hex_encode (list_of ex_id)) = Some [1, 2, 3]"
proof -
  have "length (''/e'' @ [sep] @ hex_encode (list_of ex_id)) = 67" by simp
  then have "\<not> fs_dirs ex_fs (''/e'' @ [sep] @ hex_encode (list_of ex_id))" by (auto simp: ex_fs_def)
  from transfer_end_to_end [OF _ _ _ _ _ _ _ ex_abs_dir _ _ _ _ this, of "NewLocalIndex(ex_id \<mapsto> ''/d/a'')" "''/d/a''" ex_fs
      "[1, 2, 3]" ex_sha "\<lambda>_. Some 2" "ex_chan []" "''0''" "[''0'']"
      "ex_chan (ch_out (fst (snd (HandleRequest (NewLocalIndex(ex_id \<mapsto> ''/d/a'')) (\<lambda>_. None) (\<lambda>_. Some 2) ex_id (ex_chan []) ex_fs))))"]
  show ?thesis by (auto simp: Lookup_def ex_fs_def healthy_def exists_path_def)
qed

end
