(* ===== verification/Transport.thy ===== *)
theory Transport
  imports Wire Identity File_Transfer
begin

text \<open>
  The QUIC transport, \<open>internal/transport\<close>: certificates and TLS configurations (\<open>tls.go\<close>), connections (\<open>conn.go\<close>),
  the listener (\<open>listener.go\<close>) and dialing (\<open>listener.go\<close>, \<open>dialer.go\<close>).

  quic-go, the X.509 and TLS libraries and the network are parameters. \<open>x509\<close> has the operations of \<open>crypto/x509\<close>,
  \<open>encoding/pem\<close> and \<open>tls.X509KeyPair\<close> the code calls; \<open>network\<close> has address resolution, the handshake of
  \<open>Transport.Dial\<close> and the result of sending a datagram. A QUIC connection carries what it will answer: its stream, or
  the error of opening one, and the peer's certificates.
\<close>

section \<open>Certificates\<close>

datatype pubkey = Ed25519 bytes | OtherKey

record cert_template =
  ct_serial :: nat
  ct_commonName :: string
  ct_notBefore :: gotime
  ct_notAfter :: gotime

record tls_cert =
  crt_chain :: "bytes list"
  crt_key :: bytes

record x509 =
  x_create :: "cert_template \<Rightarrow> bytes \<Rightarrow> bytes \<Rightarrow> bytes outcome"
  x_marshalKey :: "bytes \<Rightarrow> bytes outcome"
  x_pem :: "string \<Rightarrow> bytes \<Rightarrow> bytes"
  x_keyPair :: "bytes \<Rightarrow> bytes \<Rightarrow> tls_cert outcome"
  x_parse :: "bytes \<Rightarrow> pubkey outcome"

definition alpnKin :: string where
  "alpnKin = ''kin/1''"

definition GenerateSelfSignedCert :: "x509 \<Rightarrow> gotime \<Rightarrow> gotime \<Rightarrow> bytes \<Rightarrow> tls_cert outcome" where
  "GenerateSelfSignedCert X now1 now2 priv =
     obind (ed25519_Public priv) (\<lambda>pub.
     let template = \<lparr>ct_serial = 1, ct_commonName = ''kin'', ct_notBefore = now1 - 60 * second,
           ct_notAfter = now2 + 10 * 365 * 24 * 3600 * second\<rparr>
     in obind (owrap ''create certificate'' (x_create X template pub priv)) (\<lambda>certDER.
        obind (owrap ''marshal private key'' (x_marshalKey X priv)) (\<lambda>keyDER.
        owrap ''load key pair'' (x_keyPair X (x_pem X ''CERTIFICATE'' certDER) (x_pem X ''PRIVATE KEY'' keyDER)))))"

definition NodeIDFromCert :: "(bytes \<Rightarrow> id32) \<Rightarrow> pubkey list \<Rightarrow> id32 outcome" where
  "NodeIDFromCert sha peerCerts =
     (case peerCerts of
        [] \<Rightarrow> Err (Message ''transport: no peer certificates'')
      | Ed25519 pub # _ \<Rightarrow> Ok (sha pub)
      | OtherKey # _ \<Rightarrow> Err (Message ''transport: peer certificate is not Ed25519''))"

definition certFromIdentity :: "x509 \<Rightarrow> gotime \<Rightarrow> gotime \<Rightarrow> identity \<Rightarrow> string \<Rightarrow> tls_cert outcome" where
  "certFromIdentity X now1 now2 ident op = owrap (op @ '': generate cert'') (GenerateSelfSignedCert X now1 now2 (id_PrivKey ident))"

fun parseCerts :: "x509 \<Rightarrow> bytes list \<Rightarrow> pubkey list outcome" where
  "parseCerts X [] = Ok []"
| "parseCerts X (raw # raws) =
     obind (owrap ''transport: parse cert'' (x_parse X raw)) (\<lambda>c. obind (parseCerts X raws) (\<lambda>cs. Ok (c # cs)))"

record tls_config =
  tc_cert :: tls_cert
  tc_requireAnyClientCert :: bool
  tc_insecureSkipVerify :: bool
  tc_minTLS13 :: bool
  tc_nextProtos :: "string list"
  tc_verify :: "(bytes list \<Rightarrow> unit outcome) option"

definition serverTLSConfig :: "tls_cert \<Rightarrow> tls_config" where
  "serverTLSConfig cert = \<lparr>tc_cert = cert, tc_requireAnyClientCert = True, tc_insecureSkipVerify = True, tc_minTLS13 = True,
     tc_nextProtos = [alpnKin], tc_verify = None\<rparr>"

definition verify_peer :: "x509 \<Rightarrow> (bytes \<Rightarrow> id32) \<Rightarrow> id32 \<Rightarrow> bytes list \<Rightarrow> unit outcome" where
  "verify_peer X sha expectedNodeID rawCerts =
     obind (parseCerts X rawCerts) (\<lambda>certs.
     obind (NodeIDFromCert sha certs) (\<lambda>gotID.
     if gotID \<noteq> expectedNodeID then Err (Message ''transport: NodeID mismatch'') else Ok ()))"

definition clientTLSConfig :: "x509 \<Rightarrow> (bytes \<Rightarrow> id32) \<Rightarrow> tls_cert \<Rightarrow> id32 \<Rightarrow> tls_config" where
  "clientTLSConfig X sha cert expectedNodeID = \<lparr>tc_cert = cert, tc_requireAnyClientCert = False, tc_insecureSkipVerify = True,
     tc_minTLS13 = True, tc_nextProtos = [alpnKin], tc_verify = Some (verify_peer X sha expectedNodeID)\<rparr>"

section \<open>Connections\<close>

record qstream =
  qs_w :: writer
  qs_r :: reader
  qs_fin :: bool
  qs_closeRes :: "unit outcome"

record qconn =
  qc_stream :: "qstream outcome"
  qc_peerCerts :: "bytes list"
  qc_closed :: "string option"

record conn =
  cn_qConn :: qconn
  cn_stream :: qstream
  cn_PeerNodeID :: id32
  cn_owned :: bool
  cn_closeErr :: "unit outcome option"

definition newConn :: "qconn \<Rightarrow> qstream \<Rightarrow> id32 \<Rightarrow> conn" where
  "newConn qConn stream peerNodeID = \<lparr>cn_qConn = qConn, cn_stream = stream, cn_PeerNodeID = peerNodeID, cn_owned = False, cn_closeErr = None\<rparr>"

definition newOwnedConn :: "qconn \<Rightarrow> qstream \<Rightarrow> id32 \<Rightarrow> conn" where
  "newOwnedConn qConn stream peerNodeID = \<lparr>cn_qConn = qConn, cn_stream = stream, cn_PeerNodeID = peerNodeID, cn_owned = True, cn_closeErr = None\<rparr>"

definition Conn_Send :: "(envelope \<Rightarrow> bytes outcome) \<Rightarrow> conn \<Rightarrow> envelope \<Rightarrow> unit outcome \<times> conn" where
  "Conn_Send marshal c env =
     (let (r, w) = WriteMsg marshal (qs_w (cn_stream c)) env
      in (owrap ''conn send'' r, c\<lparr>cn_stream := (cn_stream c)\<lparr>qs_w := w\<rparr>\<rparr>))"

definition Conn_Recv :: "(bytes \<Rightarrow> envelope outcome) \<Rightarrow> conn \<Rightarrow> envelope outcome \<times> conn" where
  "Conn_Recv unmarshal c =
     (let (r, rd) = ReadMsg unmarshal (qs_r (cn_stream c))
      in (owrap ''conn recv'' r, c\<lparr>cn_stream := (cn_stream c)\<lparr>qs_r := rd\<rparr>\<rparr>))"

definition Conn_Close :: "conn \<Rightarrow> unit outcome \<times> conn" where
  "Conn_Close c =
     (case cn_closeErr c of
        Some e \<Rightarrow> (e, c)
      | None \<Rightarrow> (let e = qs_closeRes (cn_stream c)
                 in (e, c\<lparr>cn_stream := (cn_stream c)\<lparr>qs_fin := True\<rparr>, cn_closeErr := Some e\<rparr>)))"

definition Conn_PeerID :: "conn \<Rightarrow> id32" where
  "Conn_PeerID c = cn_PeerNodeID c"

section \<open>Streams\<close>

definition writeFramingPrime :: "writer \<Rightarrow> unit outcome \<times> writer" where
  "writeFramingPrime w = stream_write [0, 0, 0, 0] w"

definition consumeFramingPrime :: "reader \<Rightarrow> unit outcome \<times> reader" where
  "consumeFramingPrime r = (let (b, r1) = read_full 4 r in (obind b (\<lambda>_. Ok ()), r1))"

definition CloseWithError :: "string \<Rightarrow> qconn \<Rightarrow> qconn" where
  "CloseWithError reason qc = (if qc_closed qc = None then qc\<lparr>qc_closed := Some reason\<rparr> else qc)"

definition openDialStream :: "qconn \<Rightarrow> qstream outcome \<times> qconn" where
  "openDialStream qConn =
     (case qc_stream qConn of
        Ok stream \<Rightarrow>
          (let (r, w) = writeFramingPrime (qs_w stream)
           in if is_ok r then (Ok (stream\<lparr>qs_w := w\<rparr>), qConn)
              else (owrap ''write framing prime'' (fail_of r), CloseWithError ''prime'' qConn))
      | r \<Rightarrow> (owrap ''open stream'' r, CloseWithError ''open-stream'' qConn))"

section \<open>The listener\<close>

record network =
  nt_resolve :: "string \<Rightarrow> string outcome"
  nt_listenUDP :: "string \<Rightarrow> 16 word outcome"
  nt_listen :: "tls_config \<Rightarrow> unit outcome"
  nt_dial :: "string \<Rightarrow> tls_config \<Rightarrow> qconn outcome"
  nt_writeTo :: "nat \<Rightarrow> string \<Rightarrow> bytes \<Rightarrow> unit outcome"

record listener =
  ln_cert :: tls_cert
  ln_port :: "16 word"
  ln_writes :: nat
  ln_sent :: "(string \<times> bytes) list"
  ln_closed :: bool

text \<open>What a failed or finished call leaves of the socket it opened.\<close>

datatype socket = NoSocket | SocketOpen | SocketClosed | TransportClosed

definition Listen :: "x509 \<Rightarrow> network \<Rightarrow> gotime \<Rightarrow> gotime \<Rightarrow> string \<Rightarrow> identity \<Rightarrow> listener outcome \<times> socket" where
  "Listen X N now1 now2 addr ident =
     (case certFromIdentity X now1 now2 ident ''listen'' of
        Ok cert \<Rightarrow>
          (case owrap (''resolve '' @ addr) (nt_resolve N addr) of
             Ok udpAddr \<Rightarrow>
               (case owrap (''listen udp '' @ addr) (nt_listenUDP N udpAddr) of
                  Ok port \<Rightarrow>
                    (case owrap ''quic listen'' (nt_listen N (serverTLSConfig cert)) of
                       Ok _ \<Rightarrow> (Ok \<lparr>ln_cert = cert, ln_port = port, ln_writes = 0, ln_sent = [], ln_closed = False\<rparr>, SocketOpen)
                     | r \<Rightarrow> (fail_of r, TransportClosed))
                | r \<Rightarrow> (fail_of r, NoSocket))
           | r \<Rightarrow> (fail_of r, NoSocket))
      | r \<Rightarrow> (fail_of r, NoSocket))"

text \<open>\<open>Accept\<close>; \<open>accepted\<close> is what the QUIC listener returns. The connection comes back too, as closed as the code leaves it.\<close>

definition Accept :: "x509 \<Rightarrow> (bytes \<Rightarrow> id32) \<Rightarrow> qconn outcome \<Rightarrow> (conn \<times> id32) outcome \<times> qconn option" where
  "Accept X sha accepted =
     (case accepted of
        Ok qConn \<Rightarrow>
          (case owrap ''accept: accept stream'' (qc_stream qConn) of
             Ok stream \<Rightarrow>
               (let (p, rd) = consumeFramingPrime (qs_r stream)
                in case owrap ''accept: framing prime'' p of
                     Ok _ \<Rightarrow>
                       (case owrap ''accept: extract peer NodeID'' (obind (parseCerts X (qc_peerCerts qConn)) (NodeIDFromCert sha)) of
                          Ok peerNodeID \<Rightarrow> (Ok (newConn qConn (stream\<lparr>qs_r := rd\<rparr>) peerNodeID, peerNodeID), Some qConn)
                        | r \<Rightarrow> (fail_of r, Some (CloseWithError ''peer-id'' qConn)))
                   | r \<Rightarrow> (fail_of r, Some (CloseWithError ''prime'' qConn)))
           | r \<Rightarrow> (fail_of r, Some (CloseWithError ''accept-stream'' qConn)))
      | r \<Rightarrow> (fail_of r, None))"

definition Listener_Dial :: "x509 \<Rightarrow> (bytes \<Rightarrow> id32) \<Rightarrow> network \<Rightarrow> listener \<Rightarrow> string \<Rightarrow> id32 \<Rightarrow> conn outcome" where
  "Listener_Dial X sha N l peerAddr peerNodeID =
     obind (owrap (''resolve '' @ peerAddr) (nt_resolve N peerAddr)) (\<lambda>udpAddr.
     obind (owrap (''quic dial '' @ peerAddr) (nt_dial N udpAddr (clientTLSConfig X sha (ln_cert l) peerNodeID))) (\<lambda>qConn.
     let (s, qConn1) = openDialStream qConn
     in obind s (\<lambda>stream. Ok (newConn qConn1 stream peerNodeID))))"

definition write_to :: "network \<Rightarrow> string \<Rightarrow> bytes \<Rightarrow> listener \<Rightarrow> unit outcome \<times> listener" where
  "write_to N addr data l =
     (let r = nt_writeTo N (ln_writes l) addr data
      in (r, l\<lparr>ln_writes := Suc (ln_writes l), ln_sent := (if is_ok r then ln_sent l @ [(addr, data)] else ln_sent l)\<rparr>))"

definition Prime :: "network \<Rightarrow> string \<Rightarrow> listener \<Rightarrow> unit outcome \<times> listener" where
  "Prime N peerAddr l =
     (case owrap (''resolve '' @ peerAddr) (nt_resolve N peerAddr) of
        Ok udpAddr \<Rightarrow> (let (r, l1) = write_to N udpAddr [0] l in (owrap ''prime write'' r, l1))
      | r \<Rightarrow> (fail_of r, l))"

fun send_discovery :: "network \<Rightarrow> nat \<Rightarrow> string \<Rightarrow> listener \<Rightarrow> unit outcome \<times> listener" where
  "send_discovery N 0 udpAddr l = (Ok (), l)"
| "send_discovery N (Suc n) udpAddr l =
     (let (r, l1) = write_to N udpAddr [0] l
      in if is_ok r then send_discovery N n udpAddr l1 else (owrap ''send discovery'' r, l1))"

text \<open>
  The packets that arrive until the read fails, each with the sender's address if that is a UDP one; the buffer
  holds 64 bytes.
\<close>

fun read_discovery :: "string \<Rightarrow> (bytes \<times> string option) list \<Rightarrow> err \<Rightarrow> string outcome" where
  "read_discovery udpAddr [] e = Err (Wrap ''read discovery response'' e)"
| "read_discovery udpAddr ((data, sender) # pkts) e =
     (if sender = Some udpAddr then Ok (bytes_string (take 64 data)) else read_discovery udpAddr pkts e)"

definition DiscoverExternalAddr ::
  "network \<Rightarrow> string \<Rightarrow> (bytes \<times> string option) list \<Rightarrow> err \<Rightarrow> listener \<Rightarrow> string outcome \<times> listener" where
  "DiscoverExternalAddr N relayAddr pkts e l =
     (case owrap (''resolve '' @ relayAddr) (nt_resolve N relayAddr) of
        Ok udpAddr \<Rightarrow>
          (let (r, l1) = send_discovery N 3 udpAddr l
           in if is_ok r then (read_discovery udpAddr pkts e, l1) else (fail_of r, l1))
      | r \<Rightarrow> (fail_of r, l))"

text \<open>\<open>Close\<close>, with what closing the QUIC listener and the transport return: the errors that are joined, none for nil.\<close>

definition Listener_Close :: "unit outcome \<Rightarrow> unit outcome \<Rightarrow> listener \<Rightarrow> err list \<times> listener" where
  "Listener_Close lnRes qtRes l =
     (concat (map (\<lambda>r. case r of Err e \<Rightarrow> [e] | _ \<Rightarrow> []) [lnRes, qtRes]), l\<lparr>ln_closed := True\<rparr>)"

definition DialContext ::
  "x509 \<Rightarrow> (bytes \<Rightarrow> id32) \<Rightarrow> network \<Rightarrow> gotime \<Rightarrow> gotime \<Rightarrow> string \<Rightarrow> identity \<Rightarrow> id32 \<Rightarrow> conn outcome \<times> socket" where
  "DialContext X sha N now1 now2 addr ident expectedNodeID =
     (case owrap (''resolve '' @ addr) (nt_resolve N addr) of
        Ok udpAddr \<Rightarrow>
          (case owrap ''dial: open udp socket'' (nt_listenUDP N ''0.0.0.0:0'') of
             Ok _ \<Rightarrow>
               (case certFromIdentity X now1 now2 ident ''dial'' of
                  Ok cert \<Rightarrow>
                    (case owrap (''quic dial '' @ addr) (nt_dial N udpAddr (clientTLSConfig X sha cert expectedNodeID)) of
                       Ok qConn \<Rightarrow>
                         (case openDialStream qConn of
                            (Ok stream, qConn1) \<Rightarrow> (Ok (newOwnedConn qConn1 stream expectedNodeID), SocketOpen)
                          | (r, _) \<Rightarrow> (fail_of r, TransportClosed))
                     | r \<Rightarrow> (fail_of r, TransportClosed))
                | r \<Rightarrow> (fail_of r, SocketClosed))
           | r \<Rightarrow> (fail_of r, NoSocket))
      | r \<Rightarrow> (fail_of r, NoSocket))"

section \<open>Authentication\<close>

text \<open>
  What the TLS handshake promises: a dial only succeeds when the configuration's \<open>VerifyPeerCertificate\<close> has accepted
  the certificates the peer presented.
\<close>

definition tls_laws :: "network \<Rightarrow> bool" where
  "tls_laws N \<longleftrightarrow> (\<forall>addr cfg qc verify. nt_dial N addr cfg = Ok qc \<longrightarrow> tc_verify cfg = Some verify \<longrightarrow> verify (qc_peerCerts qc) = Ok ())"

definition authentic :: "x509 \<Rightarrow> (bytes \<Rightarrow> id32) \<Rightarrow> conn \<Rightarrow> bool" where
  "authentic X sha c \<longleftrightarrow>
     (\<exists>leaf certs pub. qc_peerCerts (cn_qConn c) = leaf # certs \<and> x_parse X leaf = Ok (Ed25519 pub) \<and> sha pub = cn_PeerNodeID c)"

lemma NodeIDFromCert_ok: "NodeIDFromCert sha certs = Ok n \<longleftrightarrow> (\<exists>pub rest. certs = Ed25519 pub # rest \<and> sha pub = n)"
  by (auto simp: NodeIDFromCert_def split: list.splits pubkey.splits)

lemma parseCerts_Cons: "parseCerts X raws = Ok (k # ks) \<Longrightarrow> \<exists>raw rest. raws = raw # rest \<and> x_parse X raw = Ok k"
  by (cases raws) (auto simp: outcome_simps)

lemma verify_peer_ok:
  assumes "verify_peer X sha n raws = Ok ()"
  shows "\<exists>leaf certs pub. raws = leaf # certs \<and> x_parse X leaf = Ok (Ed25519 pub) \<and> sha pub = n"
proof -
  from assms obtain certs where "parseCerts X raws = Ok certs" "NodeIDFromCert sha certs = Ok n"
    by (auto simp: verify_peer_def outcome_simps split: if_splits)
  then show ?thesis using parseCerts_Cons by (fastforce simp: NodeIDFromCert_ok)
qed

lemma CloseWithError_sel [simp]: "qc_peerCerts (CloseWithError reason qc) = qc_peerCerts qc"
  by (simp add: CloseWithError_def)

lemma openDialStream_certs [simp]: "qc_peerCerts (snd (openDialStream qc)) = qc_peerCerts qc"
  by (simp add: openDialStream_def split_beta Let_def split: outcome.split)

lemma Listener_Dial_authentic:
  assumes "tls_laws N" and "Listener_Dial X sha N l addr n = Ok c"
  shows "authentic X sha c \<and> cn_PeerNodeID c = n"
proof -
  from assms(2) obtain udp qc stream where d: "nt_dial N udp (clientTLSConfig X sha (ln_cert l) n) = Ok qc"
    and c: "c = newConn (snd (openDialStream qc)) stream n"
    by (auto simp: Listener_Dial_def outcome_simps Let_def split_beta)
  have "verify_peer X sha n (qc_peerCerts qc) = Ok ()"
    using assms(1) d by (auto simp: tls_laws_def clientTLSConfig_def)
  from verify_peer_ok [OF this] show ?thesis by (auto simp: authentic_def c newConn_def)
qed

lemma Accept_authentic:
  assumes "Accept X sha acc = (Ok (c, n), qc)"
  shows "authentic X sha c \<and> cn_PeerNodeID c = n"
proof -
  from assms obtain qConn stream p certs where acc: "acc = Ok qConn" and certs: "parseCerts X (qc_peerCerts qConn) = Ok certs"
    "NodeIDFromCert sha certs = Ok n" and c: "c = newConn qConn stream n"
    by (auto simp: Accept_def outcome_simps Let_def split_beta split: outcome.splits)
  then show ?thesis using parseCerts_Cons by (fastforce simp: authentic_def NodeIDFromCert_ok newConn_def)
qed

section \<open>A connection as a channel of messages\<close>

text \<open>
  The handler and the transfers are written over a channel of messages. A connection implements one: \<open>pre\<close> is what its
  stream carried before the first message, the rest of the output is the frames of the messages sent, and the input holds
  the frames of the messages to come.
\<close>

definition conn_rel :: "(envelope \<Rightarrow> bytes outcome) \<Rightarrow> bytes \<Rightarrow> conn \<Rightarrow> chan \<Rightarrow> bool" where
  "conn_rel marshal pre k c \<longleftrightarrow>
     w_room (qs_w (cn_stream k)) = None \<and> ch_room c = None
   \<and> w_out (qs_w (cn_stream k)) = pre @ concat (map (msg_frame marshal) (ch_out c))
   \<and> r_in (qs_r (cn_stream k)) = concat (map (msg_frame marshal) (ch_in c)) \<and> list_all (sendable marshal) (ch_in c)"

lemma Conn_Send_sim:
  assumes "pb_laws marshal unmarshal" and "conn_rel marshal pre k c" and "sendable marshal env"
  shows "Conn_Send marshal k env = (Ok (), snd (Conn_Send marshal k env))
    \<and> conn_rel marshal pre (snd (Conn_Send marshal k env)) (c\<lparr>ch_out := ch_out c @ [env]\<rparr>)"
  using frame_codec.wr_appends [OF frame_codec_msg [OF assms(1)] assms(3), of "qs_w (cn_stream k)"] assms(2)
  by (simp add: conn_rel_def Conn_Send_def)

lemma Conn_Recv_sim:
  assumes "pb_laws marshal unmarshal" and "conn_rel marshal pre k c" and "ch_in c = env # envs"
  shows "fst (Conn_Recv unmarshal k) = Ok env \<and> conn_rel marshal pre (snd (Conn_Recv unmarshal k)) (c\<lparr>ch_in := envs\<rparr>)"
proof -
  let ?r = "qs_r (cn_stream k)"
  have s: "sendable marshal env" and r: "r_in ?r = msg_frame marshal env @ concat (map (msg_frame marshal) envs)"
    using assms(2,3) by (simp_all add: conn_rel_def)
  have "?r = ?r\<lparr>r_in := msg_frame marshal env @ concat (map (msg_frame marshal) envs)\<rparr>" using r by simp
  then have "ReadMsg unmarshal ?r = (Ok env, ?r\<lparr>r_in := concat (map (msg_frame marshal) envs)\<rparr>)"
    using frame_codec.rd_back [OF frame_codec_msg [OF assms(1)] s] by metis
  then show ?thesis using assms(2,3) by (simp add: conn_rel_def Conn_Recv_def)
qed

lemma Conn_Recv_end:
  assumes "pb_laws marshal unmarshal" and "conn_rel marshal pre k c" and "ch_in c = []"
  shows "\<not> is_ok (fst (Conn_Recv unmarshal k)) \<and> conn_rel marshal pre (snd (Conn_Recv unmarshal k)) c"
proof -
  have "r_in (qs_r (cn_stream k)) = []" using assms(2,3) by (simp add: conn_rel_def)
  then obtain e where "ReadMsg unmarshal (qs_r (cn_stream k)) = (Err e, qs_r (cn_stream k))"
    using frame_codec.rd_end [OF frame_codec_msg [OF assms(1)]] by blast
  then show ?thesis using assms(2) by (simp add: Conn_Recv_def)
qed

text \<open>The framing prime of the dialing side is gone when the accepting side reads its first message.\<close>

lemma dialed_conn_rel:
  assumes "openDialStream qc = (Ok s, qc1)" and "qc_stream qc = Ok s0" and "qs_w s0 = \<lparr>w_out = [], w_room = None\<rparr>" and "qs_r s0 = \<lparr>r_in = [], r_end = e\<rparr>"
  shows "conn_rel marshal [0, 0, 0, 0] (newConn qc1 s n) \<lparr>ch_in = [], ch_end = e', ch_out = [], ch_room = None\<rparr>"
  using assms by (auto simp: openDialStream_def conn_rel_def newConn_def writeFramingPrime_def)

lemma accepted_conn_rel:
  assumes "Accept X sha (Ok qc) = (Ok (k, n), qc1)" and "qc_stream qc = Ok s0" and "w_room (qs_w s0) = None" and "w_out (qs_w s0) = []"
    and "r_in (qs_r s0) = [0, 0, 0, 0] @ concat (map (msg_frame marshal) envs)" and "list_all (sendable marshal) envs"
  shows "conn_rel marshal [] k \<lparr>ch_in = envs, ch_end = e', ch_out = [], ch_room = None\<rparr>"
proof -
  have "consumeFramingPrime (qs_r s0) = (Ok (), (qs_r s0)\<lparr>r_in := concat (map (msg_frame marshal) envs)\<rparr>)"
    using assms(5) by (simp add: consumeFramingPrime_def read_full_def)
  then show ?thesis
    using assms by (auto simp: Accept_def conn_rel_def newConn_def split: outcome.splits)
qed

section \<open>An example\<close>

text \<open>A connection that has received some bytes and sent none.\<close>

abbreviation ex_conn :: "bytes \<Rightarrow> conn" where
  "ex_conn inp \<equiv> newConn \<lparr>qc_stream = Panic, qc_peerCerts = [], qc_closed = None\<rparr>
     \<lparr>qs_w = \<lparr>w_out = [], w_room = None\<rparr>, qs_r = \<lparr>r_in = inp, r_end = io_EOF\<rparr>, qs_fin = False, qs_closeRes = Ok ()\<rparr> (arr_of [1])"

end
