(* ===== verification/Relay_Client.thy ===== *)
theory Relay_Client
  imports File_Transfer
begin

text \<open>
  The relay client, \<open>internal/relay/client.go\<close>. The caller's goroutines, the goroutines of \<open>WaitForRendezvous\<close> and the
  read loop share the client under one mutex; a step of the model is one critical section, or one receive from a
  waiter's channel. Channels are numbered; each waiter's has a buffer of one. Sending on or closing a closed channel
  is the outcome \<open>Panic\<close>. \<open>wc_target\<close> records for which node a channel was made.
\<close>

record rendezvous_info =
  ri_PeerNodeID :: id32
  ri_PeerPublicKey :: bytes
  ri_PeerExternalAddr :: string

record wchan =
  wc_buf :: "relay_rendezvous option"
  wc_closed :: bool
  wc_target :: id32

record relay_client =
  cl_id :: identity
  cl_listenPort :: "32 word"
  cl_conn :: chan
  cl_connOpen :: bool
  cl_externalAddr :: string
  cl_pending :: "(id32 \<times> nat) list"
  cl_chans :: "nat \<Rightarrow> wchan"
  cl_next :: nat
  cl_incoming :: "rendezvous_info list"
  cl_incomingClosed :: bool
  cl_closed :: bool

abbreviation ErrRelayDisconnected :: err where
  "ErrRelayDisconnected \<equiv> Sentinel ''relay: connection lost''"

definition rendezvousFromProto :: "relay_rendezvous \<Rightarrow> rendezvous_info" where
  "rendezvousFromProto rv = \<lparr>ri_PeerNodeID = arr_of (rv_PeerNodeId rv), ri_PeerPublicKey = rv_PeerPublicKey rv,
     ri_PeerExternalAddr = rv_PeerExternalAddr rv\<rparr>"

definition new_client :: "identity \<Rightarrow> 32 word \<Rightarrow> chan \<Rightarrow> string \<Rightarrow> relay_client" where
  "new_client ident port conn addr = \<lparr>cl_id = ident, cl_listenPort = port, cl_conn = conn, cl_connOpen = True, cl_externalAddr = addr, cl_pending = [],
     cl_chans = (\<lambda>_. \<lparr>wc_buf = None, wc_closed = False, wc_target = arr_of []\<rparr>), cl_next = 0, cl_incoming = [],
     cl_incomingClosed = False, cl_closed = False\<rparr>"

text \<open>\<open>Connect\<close>; \<open>dialed\<close> is what \<open>DialContext\<close> returns. The flag says whether a connection is left open.\<close>

definition Connect :: "chan outcome \<Rightarrow> identity \<Rightarrow> 32 word \<Rightarrow> relay_client outcome \<times> bool" where
  "Connect dialed ident listenPort =
     (case owrap ''relay connect'' dialed of
        Ok rawConn \<Rightarrow>
          (let (w, c1) = chan_send rawConn (RelayRegister \<lparr>rr_NodeId = list_of (id_NodeID ident), rr_PublicKey = id_PubKey ident,
                 rr_ListenPort = listenPort\<rparr>)
           in case owrap ''relay register'' w of
                Ok _ \<Rightarrow>
                  (let (r, c2) = chan_recv c1
                   in case owrap ''relay register response'' r of
                        Ok env \<Rightarrow>
                          (case GetRelayRegistered env of
                             None \<Rightarrow> (Err (Message ''relay: expected RelayRegistered''), False)
                           | Some addr \<Rightarrow> (Ok (new_client ident listenPort c2 addr), True))
                      | r \<Rightarrow> (fail_of r, False))
              | r \<Rightarrow> (fail_of r, False))
      | r \<Rightarrow> (fail_of r, False))"

section \<open>Critical sections\<close>

definition set_pending :: "id32 \<Rightarrow> nat \<Rightarrow> (id32 \<times> nat) list \<Rightarrow> (id32 \<times> nat) list" where
  "set_pending k ch ps = (k, ch) # filter (\<lambda>p. fst p \<noteq> k) ps"

text \<open>Making a channel and entering it under the target, unless the client is closed.\<close>

definition add_waiter :: "id32 \<Rightarrow> relay_client \<Rightarrow> (nat \<times> relay_client) option" where
  "add_waiter target cl =
     (if cl_closed cl then None
      else Some (cl_next cl, cl\<lparr>
        cl_pending := set_pending target (cl_next cl) (cl_pending cl),
        cl_chans := (cl_chans cl)(cl_next cl := \<lparr>wc_buf = None, wc_closed = False, wc_target = target\<rparr>),
        cl_next := Suc (cl_next cl)\<rparr>))"

definition drop_waiter :: "id32 \<Rightarrow> relay_client \<Rightarrow> relay_client" where
  "drop_waiter target cl = cl\<lparr>cl_pending := filter (\<lambda>p. fst p \<noteq> target) (cl_pending cl)\<rparr>"

text \<open>\<open>RequestRendezvous\<close> up to its first unlock, and the write that follows: the channel it waits on, or an error.\<close>

definition request_begin :: "id32 \<Rightarrow> relay_client \<Rightarrow> nat outcome \<times> relay_client" where
  "request_begin target cl =
     (case add_waiter target cl of None \<Rightarrow> (Err ErrRelayDisconnected, cl) | Some (ch, cl1) \<Rightarrow> (Ok ch, cl1))"

definition request_send :: "id32 \<Rightarrow> relay_client \<Rightarrow> unit outcome \<times> relay_client" where
  "request_send target cl =
     (let (w, c) = (if cl_connOpen cl then chan_send (cl_conn cl) (RelayConnect (list_of target)) else (Err ErrIO, cl_conn cl));
          cl1 = cl\<lparr>cl_conn := c\<rparr>
      in case owrap ''relay connect request'' w of Ok _ \<Rightarrow> (Ok (), cl1) | r \<Rightarrow> (r, drop_waiter target cl1))"

text \<open>Receiving from a channel: \<open>None\<close> while it would block, \<open>Some None\<close> when it is closed and empty.\<close>

definition wchan_recv :: "nat \<Rightarrow> relay_client \<Rightarrow> (relay_rendezvous option \<times> relay_client) option" where
  "wchan_recv ch cl =
     (let w = cl_chans cl ch
      in case wc_buf w of
           Some rv \<Rightarrow> Some (Some rv, cl\<lparr>cl_chans := (cl_chans cl)(ch := w\<lparr>wc_buf := None\<rparr>)\<rparr>)
         | None \<Rightarrow> if wc_closed w then Some (None, cl) else None)"

text \<open>The \<open>select\<close> of \<open>RequestRendezvous\<close> with its deferred delete; \<open>ctx\<close> is \<open>Some\<close> error when the context is done.\<close>

definition request_end :: "err option \<Rightarrow> id32 \<Rightarrow> nat \<Rightarrow> relay_client \<Rightarrow> (rendezvous_info outcome \<times> relay_client) option" where
  "request_end ctx target ch cl =
     (case ctx of
        Some e \<Rightarrow> Some (Err e, drop_waiter target cl)
      | None \<Rightarrow>
          map_option (\<lambda>(rv, cl1).
            (case rv of
               None \<Rightarrow> Err ErrRelayDisconnected
             | Some rv \<Rightarrow> if length (rv_PeerNodeId rv) \<noteq> 32 then Err (Message ''relay: invalid rendezvous peer_node_id length'')
                         else Ok (rendezvousFromProto rv), drop_waiter target cl1))
            (wchan_recv ch cl))"

text \<open>\<open>WaitForRendezvous\<close>: \<open>None\<close> when the returned channel is closed at once; and its goroutine, which delivers or closes.\<close>

definition wait_begin :: "id32 \<Rightarrow> relay_client \<Rightarrow> nat option \<times> relay_client" where
  "wait_begin node cl = (case add_waiter node cl of None \<Rightarrow> (None, cl) | Some (ch, cl1) \<Rightarrow> (Some ch, cl1))"

definition wait_end :: "err option \<Rightarrow> id32 \<Rightarrow> nat \<Rightarrow> relay_client \<Rightarrow> (rendezvous_info option \<times> relay_client) option" where
  "wait_end ctx node ch cl =
     (case ctx of
        Some e \<Rightarrow> Some (None, drop_waiter node cl)
      | None \<Rightarrow> map_option (\<lambda>(rv, cl1). (map_option rendezvousFromProto rv, drop_waiter node cl1)) (wchan_recv ch cl))"

fun close_all :: "(id32 \<times> nat) list \<Rightarrow> relay_client \<Rightarrow> relay_client outcome" where
  "close_all [] cl = Ok cl"
| "close_all ((k, ch) # ps) cl =
     (if wc_closed (cl_chans cl ch) then Panic
      else close_all ps (cl\<lparr>cl_chans := (cl_chans cl)(ch := (cl_chans cl ch)\<lparr>wc_closed := True\<rparr>),
             cl_pending := filter (\<lambda>p. fst p \<noteq> k) (cl_pending cl)\<rparr>))"

definition closeLocked :: "relay_client \<Rightarrow> (bool \<times> relay_client) outcome" where
  "closeLocked cl =
     (if cl_closed cl then Ok (False, cl)
      else obind (close_all (cl_pending cl) (cl\<lparr>cl_closed := True\<rparr>)) (\<lambda>cl1.
           if cl_incomingClosed cl1 then Panic else Ok (True, cl1\<lparr>cl_incomingClosed := True\<rparr>)))"

definition closeAllPending :: "relay_client \<Rightarrow> relay_client outcome" where
  "closeAllPending cl = obind (closeLocked cl) (\<lambda>(_, cl1). Ok cl1)"

definition Close :: "relay_client \<Rightarrow> relay_client outcome" where
  "Close cl = obind (closeLocked cl) (\<lambda>(did, cl1). Ok (if did then cl1\<lparr>cl_connOpen := False\<rparr> else cl1))"

definition dispatchRendezvous :: "relay_rendezvous \<Rightarrow> relay_client \<Rightarrow> relay_client outcome" where
  "dispatchRendezvous rv cl =
     (if length (rv_PeerNodeId rv) \<noteq> 32 then Ok cl
      else case map_of (cl_pending cl) (arr_of (rv_PeerNodeId rv)) of
             Some ch \<Rightarrow>
               (let w = cl_chans cl ch
                in if wc_closed w then Panic
                   else Ok (if wc_buf w = None then cl\<lparr>cl_chans := (cl_chans cl)(ch := w\<lparr>wc_buf := Some rv\<rparr>)\<rparr> else cl))
           | None \<Rightarrow>
               if cl_closed cl then Ok cl
               else if cl_incomingClosed cl then Panic
               else Ok (if length (cl_incoming cl) < 16
                        then cl\<lparr>cl_incoming := cl_incoming cl @ [rendezvousFromProto rv]\<rparr> else cl))"

definition dispatchError :: "string \<Rightarrow> relay_client \<Rightarrow> relay_client outcome" where
  "dispatchError reason cl = closeAllPending cl"

text \<open>One round of the read loop on what \<open>ReadMsg\<close> returned; \<open>None\<close> is an error, after which the loop ends.\<close>

definition read_round :: "envelope option \<Rightarrow> relay_client \<Rightarrow> relay_client outcome" where
  "read_round msg cl =
     (case msg of
        None \<Rightarrow> closeAllPending cl
      | Some (RelayRendezvous rv) \<Rightarrow> dispatchRendezvous rv cl
      | Some (RelayError reason) \<Rightarrow> dispatchError reason cl
      | Some _ \<Rightarrow> Ok cl)"

text \<open>The whole loop over the messages that arrive, when nothing else runs in between.\<close>

fun readLoop :: "envelope list \<Rightarrow> relay_client \<Rightarrow> relay_client outcome" where
  "readLoop [] cl = read_round None cl"
| "readLoop (env # envs) cl = obind (read_round (Some env) cl) (readLoop envs)"

text \<open>
  A whole \<open>RequestRendezvous\<close> when nobody else uses the client: \<open>msgs\<close> is what \<open>ReadMsg\<close> returns to the read loop
  until the context ends with \<open>ctxErr\<close>.
\<close>

fun await_rendezvous :: "err \<Rightarrow> id32 \<Rightarrow> nat \<Rightarrow> envelope option list \<Rightarrow> relay_client \<Rightarrow> rendezvous_info outcome \<times> relay_client" where
  "await_rendezvous ctxErr target ch [] cl =
     (case request_end None target ch cl of Some r \<Rightarrow> r | None \<Rightarrow> the (request_end (Some ctxErr) target ch cl))"
| "await_rendezvous ctxErr target ch (m # ms) cl =
     (case request_end None target ch cl of
        Some r \<Rightarrow> r
      | None \<Rightarrow> (case read_round m cl of Ok cl1 \<Rightarrow> await_rendezvous ctxErr target ch ms cl1 | r \<Rightarrow> (fail_of r, cl)))"

definition RequestRendezvous :: "err \<Rightarrow> envelope option list \<Rightarrow> id32 \<Rightarrow> relay_client \<Rightarrow> rendezvous_info outcome \<times> relay_client" where
  "RequestRendezvous ctxErr msgs target cl =
     (case request_begin target cl of
        (Ok ch, cl1) \<Rightarrow>
          (case request_send target cl1 of
             (Ok _, cl2) \<Rightarrow> await_rendezvous ctxErr target ch msgs cl2
           | (r, cl2) \<Rightarrow> (fail_of r, cl2))
      | (r, cl1) \<Rightarrow> (fail_of r, cl1))"

section \<open>Interleavings\<close>

inductive client_step :: "relay_client \<Rightarrow> relay_client outcome \<Rightarrow> bool" where
  step_request: "client_step cl (Ok (snd (request_begin target cl)))"
| step_send: "client_step cl (Ok (snd (request_send target cl)))"
| step_requested: "request_end ctx target ch cl = Some (r, cl') \<Longrightarrow> client_step cl (Ok cl')"
| step_wait: "client_step cl (Ok (snd (wait_begin node cl)))"
| step_waited: "wait_end ctx node ch cl = Some (r, cl') \<Longrightarrow> client_step cl (Ok cl')"
| step_incoming: "cl_incoming cl = i # is \<Longrightarrow> client_step cl (Ok (cl\<lparr>cl_incoming := is\<rparr>))"
| step_read: "client_step cl (read_round msg cl)"
| step_close: "client_step cl (Close cl)"

inductive client_reach :: "relay_client \<Rightarrow> bool" where
  reach_new: "client_reach (new_client ident port conn addr)"
| reach_step: "client_reach cl \<Longrightarrow> client_step cl (Ok cl') \<Longrightarrow> client_reach cl'"

definition client_inv :: "relay_client \<Rightarrow> bool" where
  "client_inv cl \<longleftrightarrow>
     distinct (map fst (cl_pending cl)) \<and> distinct (map snd (cl_pending cl))
   \<and> (\<forall>(k, ch) \<in> set (cl_pending cl). ch < cl_next cl \<and> \<not> wc_closed (cl_chans cl ch) \<and> wc_target (cl_chans cl ch) = k)
   \<and> (\<forall>ch rv. wc_buf (cl_chans cl ch) = Some rv \<longrightarrow> ch < cl_next cl \<and> rv_PeerNodeId rv = list_of (wc_target (cl_chans cl ch)))
   \<and> (cl_closed cl \<longrightarrow> cl_pending cl = []) \<and> cl_incomingClosed cl = cl_closed cl \<and> length (cl_incoming cl) \<le> 16"

section \<open>The invariant\<close>

lemma close_all_ok:
  assumes "distinct (map snd ps)" and "\<forall>(k, ch) \<in> set ps. \<not> wc_closed (cl_chans cl ch)"
  shows "close_all ps cl = Ok (cl\<lparr>
    cl_chans := (\<lambda>ch. if ch \<in> snd ` set ps then (cl_chans cl ch)\<lparr>wc_closed := True\<rparr> else cl_chans cl ch),
    cl_pending := filter (\<lambda>p. fst p \<notin> fst ` set ps) (cl_pending cl)\<rparr>)"
  using assms
proof (induction ps arbitrary: cl)
  case (Cons p ps)
  obtain k ch where p: "p = (k, ch)" by (cases p)
  have open1: "\<not> wc_closed (cl_chans cl ch)" using Cons.prems(2) by (simp add: p)
  have fresh: "ch \<notin> snd ` set ps" using Cons.prems(1) by (simp add: p)
  let ?cl1 = "cl\<lparr>cl_chans := (cl_chans cl)(ch := (cl_chans cl ch)\<lparr>wc_closed := True\<rparr>), cl_pending := filter (\<lambda>q. fst q \<noteq> k) (cl_pending cl)\<rparr>"
  have "close_all ps ?cl1 = Ok (?cl1\<lparr>
    cl_chans := (\<lambda>c. if c \<in> snd ` set ps then (cl_chans ?cl1 c)\<lparr>wc_closed := True\<rparr> else cl_chans ?cl1 c),
    cl_pending := filter (\<lambda>q. fst q \<notin> fst ` set ps) (cl_pending ?cl1)\<rparr>)"
  proof (rule Cons.IH)
    show "distinct (map snd ps)" using Cons.prems(1) by simp
    have "c \<noteq> ch \<and> \<not> wc_closed (cl_chans cl c)" if "(k', c) \<in> set ps" for k' c
      using that Cons.prems(2) fresh by (auto simp: p image_iff)
    then show "\<forall>(k, c) \<in> set ps. \<not> wc_closed (cl_chans ?cl1 c)" by auto
  qed
  moreover have "(\<lambda>c. if c \<in> snd ` set ps then (cl_chans ?cl1 c)\<lparr>wc_closed := True\<rparr> else cl_chans ?cl1 c) =
    (\<lambda>c. if c \<in> snd ` set (p # ps) then (cl_chans cl c)\<lparr>wc_closed := True\<rparr> else cl_chans cl c)"
    using fresh by (auto simp: p fun_eq_iff)
  moreover have "filter (\<lambda>q. fst q \<notin> fst ` set ps) (cl_pending ?cl1) = filter (\<lambda>q. fst q \<notin> fst ` set (p # ps)) (cl_pending cl)"
    by (simp add: p conj_commute)
  ultimately show ?case using open1 by (simp add: p)
qed simp

lemma closeLocked_ok:
  assumes "client_inv cl"
  shows "closeLocked cl = Ok (\<not> cl_closed cl, if cl_closed cl then cl else cl\<lparr>
    cl_chans := (\<lambda>ch. if ch \<in> snd ` set (cl_pending cl) then (cl_chans cl ch)\<lparr>wc_closed := True\<rparr> else cl_chans cl ch),
    cl_pending := [], cl_incomingClosed := True, cl_closed := True\<rparr>)"
proof (cases "cl_closed cl")
  case False
  have "close_all (cl_pending cl) (cl\<lparr>cl_closed := True\<rparr>) = Ok (cl\<lparr>cl_closed := True,
    cl_chans := (\<lambda>ch. if ch \<in> snd ` set (cl_pending cl) then (cl_chans cl ch)\<lparr>wc_closed := True\<rparr> else cl_chans cl ch),
    cl_pending := []\<rparr>)"
    using assms by (subst close_all_ok) (auto simp: client_inv_def filter_empty_conv cong: if_cong)
  then show ?thesis using False assms by (simp add: closeLocked_def client_inv_def)
qed (simp add: closeLocked_def)

lemma distinct_map_filter: "distinct (map f xs) \<Longrightarrow> distinct (map f (filter P xs))"
  by (induction xs) auto

lemma inv_add_waiter:
  assumes "client_inv cl" and "add_waiter t cl = Some (ch, cl')"
  shows "client_inv cl'"
proof -
  have f: "\<forall>c \<in> snd ` set (cl_pending cl). c \<noteq> cl_next cl" using assms(1) by (fastforce simp: client_inv_def)
  show ?thesis
    using assms f
    by (fastforce simp: client_inv_def add_waiter_def set_pending_def distinct_map_filter less_Suc_eq split: if_splits)
qed

lemma inv_drop_waiter: "client_inv cl \<Longrightarrow> client_inv (drop_waiter t cl)"
  by (auto simp: client_inv_def drop_waiter_def distinct_map_filter)

lemma inv_wchan_recv: "client_inv cl \<Longrightarrow> wchan_recv ch cl = Some (rv, cl') \<Longrightarrow> client_inv cl'"
  by (fastforce simp: client_inv_def wchan_recv_def Let_def split: option.splits if_splits)

lemma wchan_recv_target:
  assumes "client_inv cl" and "wchan_recv ch cl = Some (Some rv, cl')"
  shows "rv_PeerNodeId rv = list_of (wc_target (cl_chans cl ch))"
  using assms by (auto simp: client_inv_def wchan_recv_def Let_def split: option.splits if_splits)

lemma inv_conn [simp]: "client_inv (cl\<lparr>cl_conn := c\<rparr>) = client_inv cl" "client_inv (cl\<lparr>cl_connOpen := b\<rparr>) = client_inv cl"
  by (simp_all add: client_inv_def)

lemma inv_closed:
  assumes "client_inv cl"
  shows "client_inv (cl\<lparr>
    cl_chans := (\<lambda>ch. if ch \<in> snd ` set (cl_pending cl) then (cl_chans cl ch)\<lparr>wc_closed := True\<rparr> else cl_chans cl ch),
    cl_pending := [], cl_incomingClosed := True, cl_closed := True\<rparr>)"
  using assms by (auto simp: client_inv_def)

lemma inv_dispatch:
  assumes "client_inv cl"
  shows "\<exists>cl'. dispatchRendezvous rv cl = Ok cl' \<and> client_inv cl'"
proof (cases "length (rv_PeerNodeId rv) = 32")
  case True
  let ?k = "arr_of (rv_PeerNodeId rv) :: id32"
  have k: "list_of ?k = rv_PeerNodeId rv" using True by simp
  show ?thesis
  proof (cases "map_of (cl_pending cl) ?k")
    case None
    then show ?thesis using assms True by (auto simp: dispatchRendezvous_def client_inv_def)
  next
    case (Some ch)
    then have "(?k, ch) \<in> set (cl_pending cl)" by (rule map_of_SomeD)
    then have ch: "ch < cl_next cl" "\<not> wc_closed (cl_chans cl ch)" "wc_target (cl_chans cl ch) = ?k"
      using assms by (auto simp: client_inv_def)
    have "client_inv (cl\<lparr>cl_chans := (cl_chans cl)(ch := (cl_chans cl ch)\<lparr>wc_buf := Some rv\<rparr>)\<rparr>)"
      using assms ch k by (fastforce simp: client_inv_def)
    then show ?thesis using assms True Some ch by (simp add: dispatchRendezvous_def Let_def)
  qed
qed (use assms in \<open>simp add: dispatchRendezvous_def\<close>)

lemma inv_closeAllPending:
  assumes "client_inv cl"
  shows "\<exists>cl'. closeAllPending cl = Ok cl' \<and> client_inv cl'"
  using assms inv_closed [OF assms] by (simp add: closeAllPending_def closeLocked_ok)

lemma inv_Close:
  assumes "client_inv cl"
  shows "\<exists>cl'. Close cl = Ok cl' \<and> client_inv cl'"
  using assms inv_closed [OF assms] inv_conn(2) by (simp add: Close_def closeLocked_ok)

lemma inv_read_round:
  assumes "client_inv cl"
  shows "\<exists>cl'. read_round msg cl = Ok cl' \<and> client_inv cl'"
  using inv_closeAllPending [OF assms] inv_dispatch [OF assms] assms
  by (simp add: read_round_def dispatchError_def split: option.splits envelope.splits)

text \<open>Every step from a state of the invariant ends in one, and none panics.\<close>

lemma client_step_inv:
  assumes "client_step cl r" and "client_inv cl"
  shows "\<exists>cl'. r = Ok cl' \<and> client_inv cl'"
  using assms
proof (induction rule: client_step.induct)
  case (step_request cl target)
  then show ?case by (auto simp: request_begin_def intro: inv_add_waiter split: option.splits)
next
  case (step_send cl target)
  then show ?case by (simp add: request_send_def Let_def split_beta inv_drop_waiter split: outcome.splits)
next
  case (step_requested ctx target ch cl r cl')
  then show ?case by (auto simp: request_end_def inv_drop_waiter inv_wchan_recv [OF step_requested(2)] split: option.splits)
next
  case (step_wait cl node)
  then show ?case by (auto simp: wait_begin_def intro: inv_add_waiter split: option.splits)
next
  case (step_waited ctx node ch cl r cl')
  then show ?case by (auto simp: wait_end_def inv_drop_waiter inv_wchan_recv [OF step_waited(2)] split: option.splits)
next
  case (step_incoming cl i "is")
  then show ?case by (simp add: client_inv_def)
qed (simp_all add: inv_read_round inv_Close)

lemma client_inv_new: "client_inv (new_client ident port conn addr)"
  by (simp add: client_inv_def new_client_def)

lemma client_reach_inv: "client_reach cl \<Longrightarrow> client_inv cl"
proof (induction rule: client_reach.induct)
  case (reach_step cl cl')
  then show ?case using client_step_inv by blast
qed (rule client_inv_new)

text \<open>What no step undoes: a closed client stays closed, and a channel keeps the node it was made for.\<close>

definition kept :: "relay_client \<Rightarrow> relay_client \<Rightarrow> bool" where
  "kept cl cl' \<longleftrightarrow> (cl_closed cl \<longrightarrow> cl_closed cl') \<and> cl_next cl \<le> cl_next cl'
     \<and> (\<forall>ch < cl_next cl. wc_target (cl_chans cl' ch) = wc_target (cl_chans cl ch))"

lemma kept_refl [simp]: "kept cl cl"
  by (simp add: kept_def)

lemma kept_trans: "kept a b \<Longrightarrow> kept b c \<Longrightarrow> kept a c"
  by (auto simp: kept_def)

lemma kept_wchan_recv: "wchan_recv ch cl = Some (rv, cl') \<Longrightarrow> kept cl (drop_waiter t cl')"
  by (auto simp: kept_def drop_waiter_def wchan_recv_def Let_def split: option.splits if_splits)

lemma kept_add_waiter: "add_waiter t cl = Some (ch, cl') \<Longrightarrow> kept cl cl'"
  by (auto simp: kept_def add_waiter_def split: if_splits)

lemma kept_drop_waiter [simp]: "kept cl (drop_waiter t cl)" "kept cl (drop_waiter t (cl\<lparr>cl_conn := c\<rparr>))" "kept cl (cl\<lparr>cl_conn := c\<rparr>)"
  by (simp_all add: kept_def drop_waiter_def)

lemma kept_read_round:
  assumes "client_inv cl" and "read_round msg cl = Ok cl'"
  shows "kept cl cl'"
proof -
  have close: "closeAllPending cl = Ok cl' \<Longrightarrow> kept cl cl'"
    using assms(1) by (auto simp: closeAllPending_def closeLocked_ok kept_def)
  have "dispatchRendezvous rv cl = Ok cl' \<Longrightarrow> kept cl cl'" for rv
    by (auto simp: dispatchRendezvous_def kept_def Let_def split: if_splits option.splits)
  then show ?thesis
    using assms(2) close by (auto simp: read_round_def dispatchError_def split: option.splits envelope.splits)
qed

lemma client_step_kept:
  assumes "client_step cl (Ok cl')" and "client_inv cl"
  shows "kept cl cl'"
  using assms
proof cases
  case (step_request target)
  then show ?thesis by (auto simp: request_begin_def intro: kept_add_waiter split: option.splits)
next
  case (step_send target)
  then show ?thesis by (simp add: request_send_def Let_def split_beta split: outcome.splits)
next
  case (step_requested ctx target ch r)
  then show ?thesis by (auto simp: request_end_def kept_wchan_recv split: option.splits)
next
  case (step_wait node)
  then show ?thesis by (auto simp: wait_begin_def intro: kept_add_waiter split: option.splits)
next
  case (step_waited ctx node ch r)
  then show ?thesis by (auto simp: wait_end_def kept_wchan_recv split: option.splits)
next
  case (step_incoming i "is")
  then show ?thesis by (simp add: kept_def)
next
  case (step_read msg)
  then show ?thesis using assms(2) kept_read_round by metis
next
  case step_close
  then show ?thesis using assms(2) by (auto simp: Close_def closeLocked_ok kept_def split: if_splits)
qed

definition client_steps :: "relay_client \<Rightarrow> relay_client \<Rightarrow> bool" where
  "client_steps = (\<lambda>cl cl'. client_step cl (Ok cl'))\<^sup>*\<^sup>*"

interpretation client_run: guarded_steps "\<lambda>cl cl'. client_step cl (Ok cl')" client_inv kept
  using client_step_inv client_step_kept kept_trans by unfold_locales (blast, blast, simp, blast)

lemma client_steps_kept:
  assumes "client_steps cl cl'" and "client_inv cl"
  shows "client_inv cl' \<and> kept cl cl'"
  using assms unfolding client_steps_def by (rule client_run.steps_keep)

section \<open>Properties\<close>

text \<open>The client after \<open>Connect\<close>, waiting for node 9, for the witnesses.\<close>

abbreviation ex_node :: identity where
  "ex_node \<equiv> \<lparr>id_PrivKey = [], id_PubKey = [], id_NodeID = arr_of [1]\<rparr>"

definition ex_client :: relay_client where
  "ex_client = new_client ex_node 7 (ex_chan []) ''h:7''"

lemma ex_client_reach: "client_reach ex_client"
  unfolding ex_client_def by (rule reach_new)

lemma ex_client_sel [simp]:
  "cl_pending ex_client = []" "cl_closed ex_client = False" "cl_incomingClosed ex_client = False" "cl_next ex_client = 0"
  by (simp_all add: ex_client_def new_client_def)

text \<open>
  C21. However the calls of the client's users, its read loop and \<open>Close\<close> interleave, no step sends on a
  closed channel or closes one twice, so the client never panics; and once it is closed no waiter is left pending.
\<close>

theorem client_never_panics:
  assumes "client_reach cl" and "client_step cl r"
  shows "\<exists>cl'. r = Ok cl' \<and> (cl_closed cl' \<longrightarrow> cl_pending cl' = [] \<and> cl_incomingClosed cl')"
  using client_step_inv [OF assms(2) client_reach_inv [OF assms(1)]] by (auto simp: client_inv_def)

theorem client_never_panics_witness: "\<exists>cl'. Close ex_client = Ok cl' \<and> cl_incomingClosed cl'"
proof -
  from client_never_panics [OF ex_client_reach step_close]
  obtain cl' where "Close ex_client = Ok cl'" and "cl_closed cl' \<longrightarrow> cl_incomingClosed cl'" by auto
  then show ?thesis by (auto simp: Close_def closeLocked_def)
qed



text \<open>
  One \<open>RelayError\<close> from the relay, which it sends when a requested peer is not registered, shuts
  the client for good: whatever happens afterwards, every further \<open>RequestRendezvous\<close> fails with
  \<open>ErrRelayDisconnected\<close>, \<open>WaitForRendezvous\<close> returns a closed channel, and \<open>Close\<close> no longer closes the connection.
\<close>

lemma relay_error_is_final:
  assumes "client_reach cl" and "read_round (Some (RelayError reason)) cl = Ok cl1" and "client_steps cl1 cl2"
  shows "request_begin t cl2 = (Err ErrRelayDisconnected, cl2) \<and> wait_begin t cl2 = (None, cl2) \<and> Close cl2 = Ok cl2"
proof -
  have inv: "client_inv cl" using assms(1) by (rule client_reach_inv)
  then have inv1: "client_inv cl1" using inv_read_round [OF inv] assms(2) by (metis outcome.inject(1))
  have "cl_closed cl1"
    using assms(2) inv by (auto simp: read_round_def dispatchError_def closeAllPending_def closeLocked_ok split: if_splits)
  then have "cl_closed cl2" using client_steps_kept [OF assms(3) inv1] by (simp add: kept_def)
  then show ?thesis by (simp add: request_begin_def wait_begin_def add_waiter_def Close_def closeLocked_def)
qed

end
