(* ===== verification/Connmgr.thy ===== *)
theory Connmgr
  imports Transport Relay_Client
begin

text \<open>
  How a connection to a peer is established: hole punching, \<open>internal/nat/punch.go\<close>, and the connection manager,
  \<open>internal/connmgr\<close>, which tries the direct endpoints first and then the relays. The relay client and the listener are
  the models of the other theories; \<open>dial_env\<close> holds what a relay's connection and the discovery answer.
\<close>

section \<open>Strings and ports\<close>

text \<open>\<open>net.SplitHostPort\<close>.\<close>

definition last_colon :: "string \<Rightarrow> nat option" where
  "last_colon s = (if CHR '':'' \<in> set s then Some (length s - 1 - length (takeWhile (\<lambda>c. c \<noteq> CHR '':'') (rev s))) else None)"

definition index_of :: "char \<Rightarrow> string \<Rightarrow> nat option" where
  "index_of c s = (if c \<in> set s then Some (length (takeWhile (\<lambda>x. x \<noteq> c) s)) else None)"

definition SplitHostPort :: "string \<Rightarrow> (string \<times> string) option" where
  "SplitHostPort s =
     (case last_colon s of
        None \<Rightarrow> None
      | Some i \<Rightarrow>
          if s \<noteq> [] \<and> hd s = CHR ''['' then
            (case index_of (CHR '']'') s of
               None \<Rightarrow> None
             | Some e \<Rightarrow> if Suc e = i \<and> CHR ''['' \<notin> set (drop 1 s) \<and> CHR '']'' \<notin> set (drop (Suc e) s)
                         then Some (take (e - 1) (drop 1 s), drop (Suc i) s) else None)
          else if CHR '':'' \<in> set (take i s) \<or> CHR ''['' \<in> set s \<or> CHR '']'' \<in> set s then None
          else Some (take i s, drop (Suc i) s))"

text \<open>\<open>strconv.ParseUint(s, 10, 32)\<close>.\<close>

fun parse_digits :: "nat \<Rightarrow> string \<Rightarrow> nat option" where
  "parse_digits n [] = Some n"
| "parse_digits n (c # cs) =
     (let d = of_char c
      in if 48 \<le> d \<and> d \<le> 57
         then (let m = 10 * n + (d - 48) in if m < 2 ^ 32 then parse_digits m cs else None)
         else None)"

definition ParseUint32 :: "string \<Rightarrow> nat option" where
  "ParseUint32 s = (if s = [] then None else parse_digits 0 s)"

section \<open>Hole punching\<close>

definition primeBurst :: nat where
  "primeBurst = 5"

abbreviation ErrPunchFailed :: err where
  "ErrPunchFailed \<equiv> Sentinel ''nat: hole punch failed''"

text \<open>The burst: \<open>ended i\<close> says whether the context has ended before the packet \<open>i\<close>, \<open>brk i\<close> whether it ends in the pause after it.\<close>

fun prime_from :: "network \<Rightarrow> (nat \<Rightarrow> bool) \<Rightarrow> (nat \<Rightarrow> bool) \<Rightarrow> string \<Rightarrow> nat \<Rightarrow> nat \<Rightarrow> listener \<Rightarrow> listener" where
  "prime_from N ended brk peerAddr i 0 l = l"
| "prime_from N ended brk peerAddr i (Suc left) l =
     (if ended i then l
      else let l1 = snd (Prime N peerAddr l)
           in if left \<noteq> 0 \<and> brk i then l1 else prime_from N ended brk peerAddr (Suc i) left l1)"

definition PrimeNAT :: "network \<Rightarrow> (nat \<Rightarrow> bool) \<Rightarrow> (nat \<Rightarrow> bool) \<Rightarrow> string \<Rightarrow> listener \<Rightarrow> listener" where
  "PrimeNAT N ended brk peerAddr l = prime_from N ended brk peerAddr 0 primeBurst l"

definition Punch ::
  "x509 \<Rightarrow> (bytes \<Rightarrow> id32) \<Rightarrow> network \<Rightarrow> (nat \<Rightarrow> bool) \<Rightarrow> (nat \<Rightarrow> bool) \<Rightarrow> string \<Rightarrow> id32 \<Rightarrow> listener \<Rightarrow> conn outcome \<times> listener" where
  "Punch X sha N ended brk peerAddr peerNodeID l =
     (let l1 = PrimeNAT N ended brk peerAddr l
      in (case Listener_Dial X sha N l1 peerAddr peerNodeID of
            Ok conn \<Rightarrow> Ok conn
          | Err e \<Rightarrow> Err (Wrap (''dial '' @ peerAddr) ErrPunchFailed)
          | Panic \<Rightarrow> Panic, l1))"

section \<open>The connection manager\<close>

abbreviation ErrNoRoute :: err where
  "ErrNoRoute \<equiv> Sentinel ''connmgr: no route to peer''"

abbreviation relay_scheme :: string where
  "relay_scheme \<equiv> ''relay://''"

fun splitEndpoints :: "string list \<Rightarrow> string list \<times> string list" where
  "splitEndpoints [] = ([], [])"
| "splitEndpoints (ep # eps) =
     (let (direct, relayAddrs) = splitEndpoints eps
      in if prefix relay_scheme ep then (direct, drop (length relay_scheme) ep # relayAddrs) else (ep # direct, relayAddrs))"

text \<open>\<open>tryEach\<close>, with the state the attempts change; \<open>lastErr\<close> is \<open>None\<close> until one has failed.\<close>

fun tryEach :: "(string \<Rightarrow> 's \<Rightarrow> 'c outcome \<times> 's) \<Rightarrow> err option \<Rightarrow> string list \<Rightarrow> 's \<Rightarrow> 'c outcome \<times> 's" where
  "tryEach attempt lastErr [] s = (Err (case lastErr of None \<Rightarrow> ErrNoRoute | Some e \<Rightarrow> e), s)"
| "tryEach attempt lastErr (addr # addrs) s =
     (case attempt addr s of
        (Ok conn, s1) \<Rightarrow> (Ok conn, s1)
      | (Err e, s1) \<Rightarrow> tryEach attempt (Some e) addrs s1
      | (Panic, s1) \<Rightarrow> (Panic, s1))"

record dial_env =
  de_pkts :: "string \<Rightarrow> (bytes \<times> string option) list"
  de_pktErr :: "string \<Rightarrow> err"
  de_relay :: "string \<Rightarrow> chan outcome"
  de_arrived :: "string \<Rightarrow> nat"     \<comment> \<open>how much the relay sends before the context ends\<close>
  de_ctxErr :: err
  de_ended :: "nat \<Rightarrow> bool"
  de_cut :: "nat \<Rightarrow> bool"

definition externalPort :: "network \<Rightarrow> dial_env \<Rightarrow> string \<Rightarrow> listener \<Rightarrow> 32 word \<times> listener" where
  "externalPort N D relayAddr l =
     (let (ext, l1) = DiscoverExternalAddr N relayAddr (de_pkts D relayAddr) (de_pktErr D relayAddr) l;
          local = ucast (ln_port l)
      in (case ext of
            Ok addr \<Rightarrow>
              (case SplitHostPort addr of
                 None \<Rightarrow> local
               | Some (_, portStr) \<Rightarrow>
                   (case ParseUint32 portStr of
                      None \<Rightarrow> local
                    | Some p \<Rightarrow> if p = 0 then local else of_nat p))
          | _ \<Rightarrow> local, l1))"

text \<open>\<open>punchViaRelay\<close>, closing the relay client at the end on every path.\<close>

definition punchViaRelay ::
  "x509 \<Rightarrow> (bytes \<Rightarrow> id32) \<Rightarrow> network \<Rightarrow> dial_env \<Rightarrow> identity \<Rightarrow> id32 \<Rightarrow> string \<Rightarrow> listener \<Rightarrow> conn outcome \<times> listener" where
  "punchViaRelay X sha N D ident peerNodeID relayAddr l =
     (let (port, l1) = externalPort N D relayAddr l
      in case owrap (''relay '' @ relayAddr) (fst (Connect (de_relay D relayAddr) ident port)) of
           Ok rc \<Rightarrow>
             (let (rv, rc1) = RequestRendezvous (de_ctxErr D) (take (de_arrived D relayAddr) (map Some (ch_in (cl_conn rc)) @ [None])) peerNodeID rc;
                  (res, l2) = (case owrap ''rendezvous'' rv of
                                 Ok info \<Rightarrow>
                                   (let (c, l2) = Punch X sha N (de_ended D) (de_cut D) (ri_PeerExternalAddr info) peerNodeID l1
                                    in (owrap ''punch'' c, l2))
                               | r \<Rightarrow> (fail_of r, l1))
              in (case Close rc1 of Panic \<Rightarrow> Panic | _ \<Rightarrow> res, l2))
         | r \<Rightarrow> (fail_of r, l1))"

definition Dial ::
  "x509 \<Rightarrow> (bytes \<Rightarrow> id32) \<Rightarrow> network \<Rightarrow> dial_env \<Rightarrow> identity \<Rightarrow> id32 \<Rightarrow> string list \<Rightarrow> listener \<Rightarrow> conn outcome \<times> listener" where
  "Dial X sha N D ident peerNodeID endpoints l =
     (let (direct, relayAddrs) = splitEndpoints endpoints
      in case tryEach (\<lambda>ep l. (Listener_Dial X sha N l ep peerNodeID, l)) None direct l of
           (Ok conn, l1) \<Rightarrow> (Ok conn, l1)
         | (Panic, l1) \<Rightarrow> (Panic, l1)
         | (Err _, l1) \<Rightarrow>
             (case tryEach (\<lambda>addr l. punchViaRelay X sha N D ident peerNodeID addr l) None relayAddrs l1 of
                (Ok conn, l2) \<Rightarrow> (Ok conn, l2)
              | (Panic, l2) \<Rightarrow> (Panic, l2)
              | (Err _, l2) \<Rightarrow> (Err ErrNoRoute, l2)))"

text \<open>
  \<open>ServePunch\<close>: register, then prime towards every rendezvous that arrives. \<open>steps\<close> is what its \<open>select\<close> delivers: an
  item of \<open>Incoming\<close>, the closing of that channel, or the end of the context.
\<close>

datatype punch_input = RvIn rendezvous_info | IncomingClosed | CtxEnd err

fun serve_punch :: "network \<Rightarrow> dial_env \<Rightarrow> punch_input list \<Rightarrow> listener \<Rightarrow> unit outcome option \<times> listener" where
  "serve_punch N D [] l = (None, l)"
| "serve_punch N D (i # is) l =
     (case i of
        CtxEnd e \<Rightarrow> (Some (Err e), l)
      | IncomingClosed \<Rightarrow> (Some (Err (Message ''connmgr: relay connection lost'')), l)
      | RvIn rv \<Rightarrow> serve_punch N D is (PrimeNAT N (de_ended D) (de_cut D) (ri_PeerExternalAddr rv) l))"

definition ServePunch :: "network \<Rightarrow> dial_env \<Rightarrow> identity \<Rightarrow> string \<Rightarrow> punch_input list \<Rightarrow> listener \<Rightarrow> unit outcome option \<times> listener" where
  "ServePunch N D ident relayAddr steps l =
     (let (port, l1) = externalPort N D relayAddr l
      in case owrap ''relay connect'' (fst (Connect (de_relay D relayAddr) ident port)) of
           Ok rc \<Rightarrow> serve_punch N D steps l1
         | r \<Rightarrow> (Some (fail_of r), l1))"

section \<open>The relay client alone\<close>

lemma request_end_inv: "client_inv cl \<Longrightarrow> request_end ctx t ch cl = Some (r, cl') \<Longrightarrow> client_inv cl' \<and> r \<noteq> Panic"
  by (auto simp: request_end_def inv_drop_waiter inv_wchan_recv split: option.splits if_splits)

lemma request_send_inv: "client_inv cl \<Longrightarrow> client_inv (snd (request_send t cl)) \<and> fst (request_send t cl) \<noteq> Panic"
  by (auto simp: request_send_def Let_def split_beta inv_drop_waiter chan_send_def split: outcome.splits option.splits nat.splits)

lemma request_begin_inv: "client_inv cl \<Longrightarrow> client_inv (snd (request_begin t cl)) \<and> fst (request_begin t cl) \<noteq> Panic"
  by (auto simp: request_begin_def intro: inv_add_waiter split: option.splits)

lemma await_rendezvous_inv:
  "client_inv cl \<Longrightarrow> client_inv (snd (await_rendezvous e t ch msgs cl)) \<and> fst (await_rendezvous e t ch msgs cl) \<noteq> Panic"
proof (induction msgs arbitrary: cl)
  case Nil
  obtain r cl' where "request_end (Some e) t ch cl = Some (r, cl')" by (simp add: request_end_def)
  then show ?case
    using request_end_inv [OF Nil] by (auto split: option.split)
next
  case (Cons m ms)
  obtain cl1 where cl1: "read_round m cl = Ok cl1" "client_inv cl1" using inv_read_round [OF Cons.prems] by blast
  show ?case
    using request_end_inv [OF Cons.prems] Cons.IH [OF cl1(2)] cl1(1) by (auto split: option.split)
qed

lemma RequestRendezvous_inv:
  assumes "client_inv cl"
  shows "client_inv (snd (RequestRendezvous e msgs t cl)) \<and> fst (RequestRendezvous e msgs t cl) \<noteq> Panic"
proof -
  obtain b cl1 where b: "request_begin t cl = (b, cl1)" by (cases "request_begin t cl")
  have inv1: "client_inv cl1" "b \<noteq> Panic" using request_begin_inv [OF assms, of t] b by auto
  obtain s cl2 where s: "request_send t cl1 = (s, cl2)" by (cases "request_send t cl1")
  have inv2: "client_inv cl2" "s \<noteq> Panic" using request_send_inv [OF inv1(1), of t] s by auto
  show ?thesis
    using inv1 inv2 await_rendezvous_inv [OF inv2(1)] by (auto simp: RequestRendezvous_def b s split: outcome.split)
qed

lemma Connect_inv: "fst (Connect dialed ident port) = Ok rc \<Longrightarrow> client_inv rc"
  by (auto simp: Connect_def Let_def split_beta client_inv_new split: outcome.splits option.splits)

section \<open>Every way to a connection\<close>

lemma tryEach_cases:
  obtains (found) addr s1 c s2 where "tryEach attempt e addrs s = (Ok c, s2)" and "attempt addr s1 = (Ok c, s2)"
  | (failed) e' s2 where "tryEach attempt e addrs s = (Err e', s2)"
  | (panic) addr s1 s2 where "tryEach attempt e addrs s = (Panic, s2)" and "attempt addr s1 = (Panic, s2)"
proof -
  have "(\<exists>addr s1 c s2. tryEach attempt e addrs s = (Ok c, s2) \<and> attempt addr s1 = (Ok c, s2)) \<or> (\<exists>e' s2. tryEach attempt e addrs s = (Err e', s2))
    \<or> (\<exists>addr s1 s2. tryEach attempt e addrs s = (Panic, s2) \<and> attempt addr s1 = (Panic, s2))"
  proof (induction addrs arbitrary: e s)
    case (Cons addr addrs)
    obtain r s1 where r: "attempt addr s = (r, s1)" by (cases "attempt addr s")
    show ?case using Cons.IH [where s = s1] r by (cases r) auto
  qed simp
  then show thesis using that by blast
qed

text \<open>What the network and the libraries below do not do: panic.\<close>

definition quiet :: "network \<Rightarrow> dial_env \<Rightarrow> bool" where
  "quiet N D \<longleftrightarrow> (\<forall>a. nt_resolve N a \<noteq> Panic \<and> de_relay D a \<noteq> Panic)
     \<and> (\<forall>a cfg. nt_dial N a cfg \<noteq> Panic) \<and> (\<forall>a cfg qc. nt_dial N a cfg = Ok qc \<longrightarrow> qc_stream qc \<noteq> Panic)"

lemma openDialStream_quiet: "qc_stream qc \<noteq> Panic \<Longrightarrow> fst (openDialStream qc) \<noteq> Panic"
  by (auto simp: openDialStream_def writeFramingPrime_def stream_write_def outcome_simps Let_def split: outcome.splits option.splits)

lemma Listener_Dial_quiet: "quiet N D \<Longrightarrow> Listener_Dial X sha N l addr n \<noteq> Panic"
  using openDialStream_quiet by (fastforce simp: Listener_Dial_def quiet_def outcome_simps Let_def split_beta)

lemma Connect_quiet: "quiet N D \<Longrightarrow> fst (Connect (de_relay D a) ident port) \<noteq> Panic"
  by (auto simp: quiet_def Connect_def Let_def split_beta outcome_simps chan_send_def chan_recv_def
      split: outcome.splits option.splits nat.splits list.splits)

lemma Punch_dials: "fst (Punch X sha N ended brk addr n l) = Ok c \<Longrightarrow> \<exists>l1. Listener_Dial X sha N l1 addr n = Ok c"
  by (auto simp: Punch_def Let_def split: outcome.splits)

lemma Punch_quiet: "quiet N D \<Longrightarrow> fst (Punch X sha N ended brk addr n l) \<noteq> Panic"
  using Listener_Dial_quiet by (fastforce simp: Punch_def Let_def split: outcome.splits)

lemma punchViaRelay_cases:
  assumes "quiet N D"
  shows "fst (punchViaRelay X sha N D ident n addr l) \<noteq> Panic
    \<and> (\<forall>c. fst (punchViaRelay X sha N D ident n addr l) = Ok c \<longrightarrow> (\<exists>a l1. Listener_Dial X sha N l1 a n = Ok c))"
proof -
  obtain port l1 where p: "externalPort N D addr l = (port, l1)" by (cases "externalPort N D addr l")
  show ?thesis
  proof (cases "fst (Connect (de_relay D addr) ident port)")
    case (Ok rc)
    let ?msgs = "take (de_arrived D addr) (map Some (ch_in (cl_conn rc)) @ [None])"
    obtain rv rc1 where rv: "RequestRendezvous (de_ctxErr D) ?msgs n rc = (rv, rc1)" by (cases "RequestRendezvous (de_ctxErr D) ?msgs n rc")
    have "client_inv rc1" "rv \<noteq> Panic" using RequestRendezvous_inv [OF Connect_inv [OF Ok], of "de_ctxErr D" ?msgs n] rv by auto
    obtain rc2 where cl: "Close rc1 = Ok rc2" using inv_Close [OF \<open>client_inv rc1\<close>] by blast
    show ?thesis
    proof (cases rv)
      case info: (Ok info)
      let ?c = "fst (Punch X sha N (de_ended D) (de_cut D) (ri_PeerExternalAddr info) n l1)"
      have eq: "fst (punchViaRelay X sha N D ident n addr l) = owrap ''punch'' ?c"
        by (simp add: punchViaRelay_def p Ok rv cl info split_beta del: take_append)
      have "?c \<noteq> Panic" by (rule Punch_quiet [OF assms])
      then show ?thesis
        unfolding eq using Punch_dials [of X sha N "de_ended D" "de_cut D" "ri_PeerExternalAddr info" n l1]
        by (cases ?c) (auto simp: outcome_simps)
    next
      case (Err e)
      then show ?thesis by (simp add: punchViaRelay_def p Ok rv cl del: take_append)
    next
      case Panic
      then show ?thesis using \<open>rv \<noteq> Panic\<close> by simp
    qed
  next
    case (Err e)
    then show ?thesis by (simp add: punchViaRelay_def p)
  next
    case Panic
    then show ?thesis using Connect_quiet [OF assms] by blast
  qed
qed

section \<open>Properties\<close>

lemma Dial_cases:
  assumes "tls_laws N" and "quiet N D"
  shows "fst (Dial X sha N D ident peer endpoints l) = Err ErrNoRoute \<or>
    (\<exists>c leaf certs pub. fst (Dial X sha N D ident peer endpoints l) = Ok c \<and> Conn_PeerID c = peer
       \<and> qc_peerCerts (cn_qConn c) = leaf # certs \<and> x_parse X leaf = Ok (Ed25519 pub) \<and> sha pub = peer)"
proof -
  let ?direct = "tryEach (\<lambda>ep l. (Listener_Dial X sha N l ep peer, l)) None (fst (splitEndpoints endpoints)) l"
  let ?relayed = "tryEach (\<lambda>addr l. punchViaRelay X sha N D ident peer addr l) None (snd (splitEndpoints endpoints)) (snd ?direct)"
  have eq: "fst (Dial X sha N D ident peer endpoints l) =
      (case fst ?direct of Err _ \<Rightarrow> (case fst ?relayed of Err _ \<Rightarrow> Err ErrNoRoute | r \<Rightarrow> r) | r \<Rightarrow> r)"
    by (simp add: Dial_def split_beta split: outcome.split)
  have goal: "Conn_PeerID c = peer \<and> (\<exists>leaf certs pub. qc_peerCerts (cn_qConn c) = leaf # certs \<and> x_parse X leaf = Ok (Ed25519 pub) \<and> sha pub = peer)"
    if "Listener_Dial X sha N l1 a peer = Ok c" for l1 a c
    using Listener_Dial_authentic [OF assms(1) that] by (auto simp: authentic_def Conn_PeerID_def)
  have d: "(\<exists>e. fst ?direct = Err e) \<or> (\<exists>l1 a c. fst ?direct = Ok c \<and> Listener_Dial X sha N l1 a peer = Ok c)"
    by (rule tryEach_cases [where attempt = "\<lambda>ep l. (Listener_Dial X sha N l ep peer, l)" and e = None and addrs = "fst (splitEndpoints endpoints)" and s = l])
      (use Listener_Dial_quiet [OF assms(2)] in auto)
  have r: "(\<exists>e. fst ?relayed = Err e) \<or> (\<exists>l1 a c. fst ?relayed = Ok c \<and> Listener_Dial X sha N l1 a peer = Ok c)"
    by (rule tryEach_cases [where attempt = "\<lambda>addr l. punchViaRelay X sha N D ident peer addr l" and e = None and addrs = "snd (splitEndpoints endpoints)" and s = "snd ?direct"])
      (use punchViaRelay_cases [OF assms(2)] in \<open>(metis fst_conv)+\<close>)
  from d show ?thesis
  proof
    assume "\<exists>l1 a c. fst ?direct = Ok c \<and> Listener_Dial X sha N l1 a peer = Ok c"
    then obtain l1 a c where c: "fst ?direct = Ok c" "Listener_Dial X sha N l1 a peer = Ok c" by blast
    then show ?thesis using goal [OF c(2)] by (simp add: eq)
  next
    assume "\<exists>e. fst ?direct = Err e"
    then obtain e where e: "fst ?direct = Err e" by blast
    from r show ?thesis
    proof
      assume "\<exists>e. fst ?relayed = Err e"
      then show ?thesis by (auto simp: eq e)
    next
      assume "\<exists>l1 a c. fst ?relayed = Ok c \<and> Listener_Dial X sha N l1 a peer = Ok c"
      then obtain l1 a c where c: "fst ?relayed = Ok c" "Listener_Dial X sha N l1 a peer = Ok c" by blast
      then show ?thesis using goal [OF c(2)] by (simp add: eq e)
    qed
  qed
qed

text \<open>
  C9. Whichever route is taken, a connection that \<open>Dial\<close> returns is one to the peer that was asked for: its
  far end presented an Ed25519 certificate whose key hashes to the requested node id, and that is the id the connection
  carries. In every other case \<open>Dial\<close> returns \<open>ErrNoRoute\<close>, whatever the endpoints, the relays and the peers answer.
\<close>

theorem dial_authenticates:
  assumes "tls_laws N" and "quiet N D"
  shows "fst (Dial X sha N D ident peer endpoints l) = Err ErrNoRoute \<or>
    (\<exists>c leaf certs pub. fst (Dial X sha N D ident peer endpoints l) = Ok c \<and> Conn_PeerID c = peer
       \<and> qc_peerCerts (cn_qConn c) = leaf # certs \<and> x_parse X leaf = Ok (Ed25519 pub) \<and> sha pub = peer)"
  using assms by (rule Dial_cases)

text \<open>A network with one host, which presents a certificate of the key 5.\<close>

definition ex_x509 :: x509 where
  "ex_x509 = \<lparr>x_create = (\<lambda>_ pub _. Ok pub), x_marshalKey = Ok, x_pem = (\<lambda>_ d. d), x_keyPair = (\<lambda>c k. Ok \<lparr>crt_chain = [c], crt_key = k\<rparr>),
     x_parse = (\<lambda>raw. Ok (Ed25519 raw))\<rparr>"

definition ex_qconn :: qconn where
  "ex_qconn = \<lparr>qc_stream = Ok (cn_stream (ex_conn [])), qc_peerCerts = [[5]], qc_closed = None\<rparr>"

definition ex_network :: network where
  "ex_network = \<lparr>nt_resolve = Ok, nt_listenUDP = (\<lambda>_. Ok 7), nt_listen = (\<lambda>_. Ok ()),
     nt_dial = (\<lambda>addr cfg. if addr = ''h:1'' \<and> (\<forall>v. tc_verify cfg = Some v \<longrightarrow> v [[5]] = Ok ()) then Ok ex_qconn else Err ErrIO),
     nt_writeTo = (\<lambda>_ _ _. Ok ())\<rparr>"

definition ex_dial_env :: dial_env where
  "ex_dial_env = \<lparr>de_pkts = (\<lambda>_. []), de_pktErr = (\<lambda>_. ErrIO), de_relay = (\<lambda>_. Err ErrIO), de_arrived = (\<lambda>_. 0), de_ctxErr = ErrIO,
     de_ended = (\<lambda>_. False), de_cut = (\<lambda>_. False)\<rparr>"

abbreviation ex_listener :: listener where
  "ex_listener \<equiv> \<lparr>ln_cert = \<lparr>crt_chain = [], crt_key = []\<rparr>, ln_port = 7, ln_writes = 0, ln_sent = [], ln_closed = False\<rparr>"

lemma ex_network_laws: "tls_laws ex_network" "quiet ex_network ex_dial_env"
  by (simp_all add: tls_laws_def quiet_def ex_network_def ex_dial_env_def ex_qconn_def)

lemma ex_dial: "is_ok (fst (Dial ex_x509 ex_sha ex_network ex_dial_env ex_node (arr_of [5]) [''relay://r:2'', ''h:1''] ex_listener))"
  by (simp add: Dial_def Listener_Dial_def ex_network_def clientTLSConfig_def verify_peer_def ex_x509_def NodeIDFromCert_def
      openDialStream_def ex_qconn_def writeFramingPrime_def newConn_def)

theorem dial_authenticates_witness:
  "\<exists>c leaf certs pub. fst (Dial ex_x509 ex_sha ex_network ex_dial_env ex_node (arr_of [5]) [''relay://r:2'', ''h:1''] ex_listener) = Ok c
    \<and> qc_peerCerts (cn_qConn c) = leaf # certs \<and> x_parse ex_x509 leaf = Ok (Ed25519 pub) \<and> ex_sha pub = arr_of [5]"
proof -
  let ?r = "fst (Dial ex_x509 ex_sha ex_network ex_dial_env ex_node (arr_of [5]) [''relay://r:2'', ''h:1''] ex_listener)"
  have "?r \<noteq> Err ErrNoRoute" using ex_dial by (cases ?r) auto
  then show ?thesis
    using dial_authenticates [OF ex_network_laws, of ex_x509 ex_sha ex_node "arr_of [5]" "[''relay://r:2'', ''h:1'']" ex_listener] by blast
qed

end
