(* ===== verification/Relay_Server.thy ===== *)
theory Relay_Server
  imports Kinpb
begin

text \<open>
  The relay server, \<open>internal/relay/server.go\<close>: a registry of connected nodes and the introduction of two of
  them to each other. Every connection runs \<open>Serve\<close> in its own goroutine; the model is the interleaving of these
  goroutines at the points where they receive a message or an error. A connection is a number; \<open>rs_phase\<close> is how far
  its goroutine is, \<open>rs_out\<close> what was written to it and \<open>rs_up\<close> whether writing to it still works.
\<close>

section \<open>State\<close>

record relay_entry =
  re_nodeID :: id32
  re_publicKey :: bytes
  re_externalAddr :: string
  re_conn :: nat

datatype phase = Waiting | Serving relay_entry | Finished

record relay_server =
  rs_registry :: "id32 \<Rightarrow> relay_entry option"
  rs_phase :: "nat \<Rightarrow> phase"
  rs_out :: "nat \<Rightarrow> envelope list"
  rs_up :: "nat \<Rightarrow> bool"

definition NewServer :: relay_server where
  "NewServer = \<lparr>rs_registry = (\<lambda>_. None), rs_phase = (\<lambda>_. Waiting), rs_out = (\<lambda>_. []), rs_up = (\<lambda>_. True)\<rparr>"

lemma NewServer_sel [simp]:
  "rs_registry NewServer = (\<lambda>_. None)" "rs_phase NewServer = (\<lambda>_. Waiting)" "rs_out NewServer = (\<lambda>_. [])"
  "rs_up NewServer = (\<lambda>_. True)"
  by (simp_all add: NewServer_def)

section \<open>Operations\<close>

definition entry_send :: "relay_entry \<Rightarrow> envelope \<Rightarrow> relay_server \<Rightarrow> bool \<times> relay_server" where
  "entry_send e env s =
     (if rs_up s (re_conn e) then (True, s\<lparr>rs_out := (rs_out s)(re_conn e := rs_out s (re_conn e) @ [env])\<rparr>)
      else (False, s))"

definition relayError :: "string \<Rightarrow> envelope" where
  "relayError reason = RelayError reason"

definition rendezvous_of :: "relay_entry \<Rightarrow> envelope" where
  "rendezvous_of e = RelayRendezvous \<lparr>rv_PeerNodeId = list_of (re_nodeID e), rv_PeerPublicKey = re_publicKey e,
     rv_PeerExternalAddr = re_externalAddr e\<rparr>"

definition handleConnect :: "relay_entry \<Rightarrow> bytes \<Rightarrow> relay_server \<Rightarrow> relay_server" where
  "handleConnect requester targetNodeId s =
     (if length targetNodeId \<noteq> 32 then snd (entry_send requester (relayError ''invalid_request'') s)
      else case rs_registry s (arr_of targetNodeId) of
             None \<Rightarrow> snd (entry_send requester (relayError ''peer_not_registered'') s)
           | Some target \<Rightarrow>
               let (ok, s1) = entry_send target (rendezvous_of requester) s
               in if \<not> ok then snd (entry_send requester (relayError ''peer_unreachable'') s1)
                  else snd (entry_send requester (rendezvous_of target) s1))"

definition deregister :: "id32 \<Rightarrow> relay_server \<Rightarrow> relay_server" where
  "deregister nodeID s = s\<lparr>rs_registry := (rs_registry s)(nodeID := None)\<rparr>"

definition finish :: "nat \<Rightarrow> relay_server \<Rightarrow> relay_server" where
  "finish conn s = s\<lparr>rs_phase := (rs_phase s)(conn := Finished), rs_up := (rs_up s)(conn := False)\<rparr>"

text \<open>The first message of a connection: \<open>None\<close> is an error of \<open>ReadMsg\<close>. The deferred \<open>conn.Close\<close> is in \<open>finish\<close>.\<close>

definition serve_register :: "nat \<Rightarrow> string \<Rightarrow> envelope option \<Rightarrow> relay_server \<Rightarrow> relay_server" where
  "serve_register conn extIP msg s =
     (case Option.bind msg GetRelayRegister of
        None \<Rightarrow> finish conn s
      | Some reg \<Rightarrow>
          if length (rr_NodeId reg) \<noteq> 32 \<or> length (rr_PublicKey reg) \<noteq> 32 then finish conn s
          else let nodeID = arr_of (rr_NodeId reg);
                   extAddr = extIP @ '':'' @ dec_nat (unat (rr_ListenPort reg));
                   e = \<lparr>re_nodeID = nodeID, re_publicKey = rr_PublicKey reg, re_externalAddr = extAddr, re_conn = conn\<rparr>;
                   s1 = s\<lparr>rs_registry := (rs_registry s)(nodeID \<mapsto> e), rs_phase := (rs_phase s)(conn := Serving e)\<rparr>;
                   (ok, s2) = entry_send e (RelayRegistered extAddr) s1
               in if \<not> ok then finish conn (deregister nodeID s2) else s2)"

text \<open>One round of the loop of a registered connection.\<close>

definition serve_message :: "nat \<Rightarrow> relay_entry \<Rightarrow> envelope option \<Rightarrow> relay_server \<Rightarrow> relay_server" where
  "serve_message conn e msg s =
     (case msg of
        None \<Rightarrow> finish conn (deregister (re_nodeID e) s)
      | Some (RelayConnect targetNodeId) \<Rightarrow> handleConnect e targetNodeId s
      | Some _ \<Rightarrow> s)"

text \<open>The goroutine of a connection receives a message or an error; or the network breaks a connection.\<close>

definition Serve :: "nat \<Rightarrow> string \<Rightarrow> envelope option \<Rightarrow> relay_server \<Rightarrow> relay_server" where
  "Serve conn extIP msg s =
     (case rs_phase s conn of
        Waiting \<Rightarrow> serve_register conn extIP msg s
      | Serving e \<Rightarrow> serve_message conn e msg s
      | Finished \<Rightarrow> s)"

definition break_conn :: "nat \<Rightarrow> relay_server \<Rightarrow> relay_server" where
  "break_conn conn s = s\<lparr>rs_up := (rs_up s)(conn := False)\<rparr>"

inductive relay_step :: "relay_server \<Rightarrow> relay_server \<Rightarrow> bool" where
  step_serve: "relay_step s (Serve conn extIP msg s)"
| step_break: "relay_step s (break_conn conn s)"

definition relay_reach :: "relay_server \<Rightarrow> bool" where
  "relay_reach s \<longleftrightarrow> relay_step\<^sup>*\<^sup>* NewServer s"

section \<open>The registry never holds a dead connection\<close>

definition relay_inv :: "relay_server \<Rightarrow> bool" where
  "relay_inv s \<longleftrightarrow>
     (\<forall>n e. rs_registry s n = Some e \<longrightarrow> re_nodeID e = n \<and> rs_phase s (re_conn e) = Serving e) \<and>
     (\<forall>conn e. rs_phase s conn = Serving e \<longrightarrow> re_conn e = conn \<and> length (re_publicKey e) = 32)"

lemma entry_send_sel [simp]:
  "rs_registry (snd (entry_send e env s)) = rs_registry s" "rs_phase (snd (entry_send e env s)) = rs_phase s"
  "rs_up (snd (entry_send e env s)) = rs_up s"
  by (simp_all add: entry_send_def)

lemma handleConnect_sel [simp]:
  "rs_registry (handleConnect r t s) = rs_registry s" "rs_phase (handleConnect r t s) = rs_phase s"
  by (simp_all add: handleConnect_def split_beta Let_def split: option.splits)

lemma relay_inv_cong: "rs_registry s' = rs_registry s \<Longrightarrow> rs_phase s' = rs_phase s \<Longrightarrow> relay_inv s' = relay_inv s"
  by (simp add: relay_inv_def)

lemma serve_register_inv:
  assumes "relay_inv s" and "rs_phase s conn = Waiting"
  shows "relay_inv (serve_register conn extIP msg s)"
proof -
  have fin: "relay_inv (finish conn s)" using assms by (auto simp: relay_inv_def finish_def)
  show ?thesis
  proof (cases "Option.bind msg GetRelayRegister")
    case None
    with fin show ?thesis by (simp add: serve_register_def)
  next
    case (Some reg)
    show ?thesis
    proof (cases "length (rr_NodeId reg) = 32 \<and> length (rr_PublicKey reg) = 32")
      case False
      with Some fin show ?thesis by (auto simp: serve_register_def)
    next
      case True
      with Some assms show ?thesis
        by (auto simp: serve_register_def Let_def split_beta entry_send_def deregister_def finish_def relay_inv_def)
    qed
  qed
qed

lemma serve_message_inv:
  assumes "relay_inv s" and "rs_phase s conn = Serving e"
  shows "relay_inv (serve_message conn e msg s)"
proof -
  have "relay_inv (finish conn (deregister (re_nodeID e) s))"
    using assms by (auto simp: relay_inv_def finish_def deregister_def)
  moreover have "relay_inv (handleConnect e t s)" for t
    using assms(1) relay_inv_cong [of "handleConnect e t s" s] by simp
  ultimately show ?thesis
    using assms(1) by (simp add: serve_message_def split: option.splits envelope.splits)
qed

lemma relay_step_inv: "relay_step s s' \<Longrightarrow> relay_inv s \<Longrightarrow> relay_inv s'"
proof (induction rule: relay_step.induct)
  case (step_serve s conn extIP msg)
  then show ?case
    by (simp add: Serve_def serve_register_inv serve_message_inv split: phase.splits)
next
  case (step_break s conn)
  then show ?case by (simp add: break_conn_def relay_inv_def)
qed

lemma relay_inv_new: "relay_inv NewServer"
  by (simp add: relay_inv_def)

interpretation relay_steps: guarded_steps relay_step relay_inv "\<lambda>_ _. True"
  by unfold_locales (simp_all add: relay_step_inv)

lemma relay_reach_inv: "relay_reach s \<Longrightarrow> relay_inv s"
  unfolding relay_reach_def by (rule relay_steps.steps_inv [OF _ relay_inv_new])

lemma relay_reach_Serve: "relay_reach s \<Longrightarrow> relay_reach (Serve conn extIP msg s)"
  unfolding relay_reach_def by (meson rtranclp.rtrancl_into_rtrancl step_serve)

section \<open>Properties\<close>

text \<open>Two nodes that register, for the witnesses.\<close>

abbreviation ex_register :: "byte \<Rightarrow> envelope" where
  "ex_register n \<equiv> RelayRegister \<lparr>rr_NodeId = list_of (arr_of [n] :: id32), rr_PublicKey = replicate 32 n, rr_ListenPort = 7\<rparr>"

abbreviation ex_relay_entry :: "byte \<Rightarrow> nat \<Rightarrow> relay_entry" where
  "ex_relay_entry n conn \<equiv> \<lparr>re_nodeID = arr_of [n], re_publicKey = replicate 32 n, re_externalAddr = ''h:7'', re_conn = conn\<rparr>"

lemma ex_port: "dec_nat 7 = ''7''"
  by code_simp

lemma ex_registered:
  assumes "rs_phase s conn = Waiting" and "rs_up s conn"
  shows "Serve conn ''h'' (Some (ex_register n)) s =
    s\<lparr>rs_registry := (rs_registry s)(arr_of [n] \<mapsto> ex_relay_entry n conn), rs_phase := (rs_phase s)(conn := Serving (ex_relay_entry n conn)),
      rs_out := (rs_out s)(conn := rs_out s conn @ [RelayRegistered ''h:7''])\<rparr>"
  using assms by (simp add: Serve_def serve_register_def entry_send_def ex_port Let_def)

abbreviation ex_relay1 :: relay_server where
  "ex_relay1 \<equiv> Serve 4 ''h'' (Some (ex_register 1)) NewServer"

abbreviation ex_relay2 :: relay_server where
  "ex_relay2 \<equiv> Serve 5 ''h'' (Some (ex_register 2)) ex_relay1"

lemma ex_relay1_eq:
  "ex_relay1 = NewServer\<lparr>rs_registry := [arr_of [1] \<mapsto> ex_relay_entry 1 4], rs_phase := (\<lambda>_. Waiting)(4 := Serving (ex_relay_entry 1 4)),
     rs_out := (\<lambda>_. [])(4 := [RelayRegistered ''h:7''])\<rparr>"
  by (subst ex_registered) simp_all

lemma ex_relay2_sel:
  "rs_registry ex_relay2 = [arr_of [1] \<mapsto> ex_relay_entry 1 4, arr_of [2] \<mapsto> ex_relay_entry 2 5]"
  "rs_phase ex_relay2 5 = Serving (ex_relay_entry 2 5)" "rs_up ex_relay2 = (\<lambda>_. True)" "rs_out ex_relay2 4 = [RelayRegistered ''h:7'']"
  unfolding ex_relay1_eq by (subst ex_registered; simp)+

lemma ex_relay_reach: "relay_reach NewServer" "relay_reach ex_relay1" "relay_reach ex_relay2"
proof -
  show 0: "relay_reach NewServer" by (simp add: relay_reach_def)
  show 1: "relay_reach ex_relay1" by (rule relay_reach_Serve [OF 0])
  show "relay_reach ex_relay2" by (rule relay_reach_Serve [OF 1])
qed

text \<open>
  C33. In every state the relay can reach, a registry entry is stored under its own node id with a key of
  32 bytes, and the connection it points to is one that is registered as that entry and still being served:
  no rendezvous is ever attempted with a connection that has ended.
\<close>

theorem relay_registry_live:
  assumes "relay_reach s" and "rs_registry s n = Some e"
  shows "re_nodeID e = n \<and> length (re_publicKey e) = 32 \<and> rs_phase s (re_conn e) = Serving e"
  using relay_reach_inv [OF assms(1)] assms(2) unfolding relay_inv_def by blast

theorem relay_registry_live_witness:
  "rs_phase ex_relay1 4 = Serving (ex_relay_entry 1 4)"
  using relay_registry_live [OF ex_relay_reach(2), of "arr_of [1]" "ex_relay_entry 1 4"] by (simp add: ex_relay1_eq)

text \<open>
  A connect request for a well-formed node id, on every branch: when the target is registered and
  can be written to, it receives the requester's node id, key and address, then the requester receives the
  target's; when the target is unknown or cannot be written to, only the requester hears of it. No other
  connection receives anything and the registry stays as it is.
\<close>

lemma relay_introduces_both:
  assumes "rs_phase s conn = Serving e" and "re_conn e = conn" and "rs_up s conn"
  shows "Serve conn ip (Some (RelayConnect (list_of t))) s =
    (case rs_registry s t of
       None \<Rightarrow> s\<lparr>rs_out := (rs_out s)(conn := rs_out s conn @ [RelayError ''peer_not_registered''])\<rparr>
     | Some target \<Rightarrow>
         if rs_up s (re_conn target) then
           let out1 = (rs_out s)(re_conn target := rs_out s (re_conn target) @ [rendezvous_of e])
           in s\<lparr>rs_out := out1(conn := out1 conn @ [rendezvous_of target])\<rparr>
         else s\<lparr>rs_out := (rs_out s)(conn := rs_out s conn @ [RelayError ''peer_unreachable''])\<rparr>)"
  using assms
  by (simp add: Serve_def serve_message_def handleConnect_def entry_send_def relayError_def Let_def split: option.splits)

text \<open>
  When a node has registered again on a new connection and the old one then ends, the node is taken
  out of the registry although the new connection is still being served: from then on it cannot be found
  until it registers once more.
\<close>

lemma stale_close_unregisters:
  assumes "rs_phase s old = Serving e" and "rs_phase s new = Serving e'" and "re_nodeID e = re_nodeID e'" and "old \<noteq> new"
  shows "rs_registry (Serve old ip None s) (re_nodeID e') = None \<and> rs_phase (Serve old ip None s) new = Serving e'"
  using assms by (simp add: Serve_def serve_message_def finish_def deregister_def)

end
