(* ===== verification/Relay_Cmd.thy ===== *)
theory Relay_Cmd
  imports Connmgr Relay_Server
begin

text \<open>
  The relay command, \<open>cmd/relay/main.go\<close>, and the relay together with its clients. The start of \<open>main\<close> and its helpers come
  first. Then the relay and any number of clients are one system: what the server writes to a connection is what the client at its
  other end reads, in order, while the server may receive anything on any connection.
\<close>

section \<open>The command\<close>

definition relay_resolveConfigDir :: "string outcome \<Rightarrow> string \<Rightarrow> string outcome" where
  "relay_resolveConfigDir dflt override = (if override \<noteq> [] then Ok override else obind dflt (\<lambda>d. Ok (d @ ''-relay'')))"

definition remoteIP :: "string \<Rightarrow> string" where
  "remoteIP addr = (case SplitHostPort addr of None \<Rightarrow> addr | Some (host, _) \<Rightarrow> host)"

text \<open>\<open>serveUDPEcho\<close>: the datagrams it writes, for the senders \<open>ReadFromUDP\<close> reports, up to its first error.\<close>

fun serveUDPEcho :: "string option list \<Rightarrow> (bytes \<times> string) list" where
  "serveUDPEcho [] = []"
| "serveUDPEcho (None # rest) = []"
| "serveUDPEcho (Some addr # rest) = (string_bytes addr, addr) # serveUDPEcho rest"

text \<open>
  \<open>main\<close> up to the accept loop. \<open>listened\<close>, \<open>resolved\<close> and \<open>udp\<close> are the results of \<open>tls.Listen\<close>, \<open>net.ResolveUDPAddr\<close> and
  \<open>net.ListenUDP\<close>. \<open>fatalf\<close> is the error; otherwise the result is the identity whose node id is printed, and a server without nodes.
\<close>

definition relay_main ::
  "crypto \<Rightarrow> x509 \<Rightarrow> gotime \<Rightarrow> gotime \<Rightarrow> id32 outcome \<Rightarrow> string outcome \<Rightarrow> string \<Rightarrow> (tls_cert \<Rightarrow> unit outcome) \<Rightarrow> unit outcome \<Rightarrow> unit outcome \<Rightarrow>
   fs \<Rightarrow> (identity \<times> relay_server) outcome \<times> fs" where
  "relay_main C X now1 now2 rnd dflt configDir listened resolved udp fs =
     (case owrap ''config dir'' (relay_resolveConfigDir dflt configDir) of
        Ok cfgDir \<Rightarrow>
          (let (r, fs1) = LoadOrGenerate C rnd cfgDir fs
           in (obind (owrap ''identity'' r) (\<lambda>ident.
               obind (owrap ''generate cert'' (GenerateSelfSignedCert X now1 now2 (id_PrivKey ident))) (\<lambda>cert.
               obind (owrap ''listen'' (listened cert)) (\<lambda>_.
               obind (owrap ''resolve udp listen addr'' resolved) (\<lambda>_.
               obind (owrap ''udp listen'' udp) (\<lambda>_. Ok (ident, NewServer)))))), fs1))
      | r \<Rightarrow> (fail_of r, fs))"

text \<open>
  The accept loop on the results of \<open>Accept\<close>, each with whether the stop signal is there when a failure is looked at: the
  external addresses of the connections that \<open>Serve\<close> is started on, in order.
\<close>

fun accept_conns :: "(string outcome \<times> bool) list \<Rightarrow> string list" where
  "accept_conns [] = []"
| "accept_conns ((res, stop) # rest) =
     (case res of
        Ok addr \<Rightarrow> remoteIP addr # accept_conns rest
      | _ \<Rightarrow> if stop then [] else accept_conns rest)"

section \<open>The relay and its clients\<close>

text \<open>
  Connection \<open>n\<close> is the \<open>n\<close>-th accepted one and \<open>rn_ips ! n\<close> its external address; \<open>rn_read n\<close> is how many of the messages
  written to it its client has read. \<open>rn_log\<close> records the registrations the server has taken up, with the address they came from.
\<close>

record relay_net =
  rn_ips :: "string list"
  rn_server :: relay_server
  rn_client :: "nat \<rightharpoonup> relay_client"
  rn_read :: "nat \<Rightarrow> nat"
  rn_log :: "(string \<times> relay_register) list"

definition empty_net :: relay_net where
  "empty_net = \<lparr>rn_ips = [], rn_server = NewServer, rn_client = Map.empty, rn_read = (\<lambda>_. 0), rn_log = []\<rparr>"

definition unread :: "relay_net \<Rightarrow> nat \<Rightarrow> envelope list" where
  "unread N n = drop (rn_read N n) (rs_out (rn_server N) n)"

definition taken_up :: "relay_server \<Rightarrow> nat \<Rightarrow> envelope option \<Rightarrow> relay_register option" where
  "taken_up s conn msg = (case rs_phase s conn of Waiting \<Rightarrow> Option.bind msg GetRelayRegister | _ \<Rightarrow> None)"

definition net_serve :: "nat \<Rightarrow> envelope option \<Rightarrow> relay_net \<Rightarrow> relay_net" where
  "net_serve conn msg N = N\<lparr>rn_server := Serve conn (rn_ips N ! conn) msg (rn_server N),
     rn_log := (case taken_up (rn_server N) conn msg of None \<Rightarrow> rn_log N | Some reg \<Rightarrow> (rn_ips N ! conn, reg) # rn_log N)\<rparr>"

text \<open>What the users of a client do with it; the read loop is the step \<open>net_read\<close> below.\<close>

inductive client_call :: "relay_client \<Rightarrow> relay_client \<Rightarrow> bool" where
  call_request: "client_call cl (snd (request_begin target cl))"
| call_send: "client_call cl (snd (request_send target cl))"
| call_requested: "request_end ctx target ch cl = Some (r, cl') \<Longrightarrow> client_call cl cl'"
| call_wait: "client_call cl (snd (wait_begin node cl))"
| call_waited: "wait_end ctx node ch cl = Some (r, cl') \<Longrightarrow> client_call cl cl'"
| call_incoming: "cl_incoming cl = i # is \<Longrightarrow> client_call cl (cl\<lparr>cl_incoming := is\<rparr>)"
| call_close: "Close cl = Ok cl' \<Longrightarrow> client_call cl cl'"

inductive net_step :: "relay_net \<Rightarrow> relay_net \<Rightarrow> bool" where
  net_accept: "net_step N (N\<lparr>rn_ips := rn_ips N @ [remoteIP addr]\<rparr>)"
| net_message: "conn < length (rn_ips N) \<Longrightarrow> net_step N (net_serve conn msg N)"
| net_break: "net_step N (N\<lparr>rn_server := break_conn conn (rn_server N)\<rparr>)"
| net_connect: "Connect (Ok \<lparr>ch_in = unread N n, ch_end = e, ch_out = [], ch_room = room\<rparr>) ident port = (Ok cl, True) \<Longrightarrow>
    net_step N (N\<lparr>rn_client := (rn_client N)(n \<mapsto> cl), rn_read := (rn_read N)(n := Suc (rn_read N n))\<rparr>)"
| net_call: "rn_client N n = Some cl \<Longrightarrow> client_call cl cl' \<Longrightarrow> net_step N (N\<lparr>rn_client := (rn_client N)(n \<mapsto> cl')\<rparr>)"
| net_read: "rn_client N n = Some cl \<Longrightarrow> unread N n = m # ms \<Longrightarrow> read_round (Some m) cl = Ok cl' \<Longrightarrow>
    net_step N (N\<lparr>rn_client := (rn_client N)(n \<mapsto> cl'), rn_read := (rn_read N)(n := Suc (rn_read N n))\<rparr>)"
| net_lost: "rn_client N n = Some cl \<Longrightarrow> read_round None cl = Ok cl' \<Longrightarrow> net_step N (N\<lparr>rn_client := (rn_client N)(n \<mapsto> cl')\<rparr>)"

definition net_reach :: "relay_net \<Rightarrow> bool" where
  "net_reach = net_step\<^sup>*\<^sup>* empty_net"

section \<open>What a rendezvous can say\<close>

text \<open>The rendezvous that introduces a registration made from an address.\<close>

definition introduces :: "string \<Rightarrow> relay_register \<Rightarrow> relay_rendezvous" where
  "introduces ip reg = \<lparr>rv_PeerNodeId = rr_NodeId reg, rv_PeerPublicKey = rr_PublicKey reg,
     rv_PeerExternalAddr = ip @ '':'' @ dec_nat (unat (rr_ListenPort reg))\<rparr>"

definition genuine :: "(string \<times> relay_register) list \<Rightarrow> relay_rendezvous \<Rightarrow> bool" where
  "genuine log rv \<longleftrightarrow> (\<exists>(ip, reg) \<in> set log. rv = introduces ip reg)"

lemma genuine_mono: "genuine log rv \<Longrightarrow> genuine (x # log) rv"
  by (auto simp: genuine_def)

definition genuine_entry :: "(string \<times> relay_register) list \<Rightarrow> relay_entry \<Rightarrow> bool" where
  "genuine_entry log e \<longleftrightarrow> (\<exists>rv. rendezvous_of e = RelayRendezvous rv \<and> genuine log rv)"

definition server_ok :: "(string \<times> relay_register) list \<Rightarrow> relay_server \<Rightarrow> bool" where
  "server_ok log s \<longleftrightarrow>
     (\<forall>n rv. RelayRendezvous rv \<in> set (rs_out s n) \<longrightarrow> genuine log rv)
   \<and> (\<forall>n e. rs_registry s n = Some e \<longrightarrow> genuine_entry log e)
   \<and> (\<forall>conn e. rs_phase s conn = Serving e \<longrightarrow> genuine_entry log e)"

definition client_ok :: "(string \<times> relay_register) list \<Rightarrow> relay_client \<Rightarrow> bool" where
  "client_ok log cl \<longleftrightarrow> client_inv cl
   \<and> (\<forall>ch rv. wc_buf (cl_chans cl ch) = Some rv \<longrightarrow> genuine log rv)
   \<and> (\<forall>i \<in> set (cl_incoming cl). \<exists>rv. genuine log rv \<and> i = rendezvousFromProto rv)"

definition net_inv :: "relay_net \<Rightarrow> bool" where
  "net_inv N \<longleftrightarrow> server_ok (rn_log N) (rn_server N) \<and> (\<forall>n cl. rn_client N n = Some cl \<longrightarrow> client_ok (rn_log N) cl)"

lemma genuine_entry_mono: "genuine_entry log e \<Longrightarrow> genuine_entry (x # log) e"
  by (auto simp: genuine_entry_def genuine_mono)

lemma server_ok_mono: "server_ok log s \<Longrightarrow> server_ok (x # log) s"
  by (auto simp: server_ok_def genuine_mono genuine_entry_mono)

lemma client_ok_mono: "client_ok log cl \<Longrightarrow> client_ok (x # log) cl"
  unfolding client_ok_def using genuine_mono by blast

subsection \<open>The server\<close>

lemma server_ok_send:
  "server_ok log s \<Longrightarrow> (\<forall>rv. env = RelayRendezvous rv \<longrightarrow> genuine log rv) \<Longrightarrow> server_ok log (snd (entry_send e env s))"
  by (auto simp: server_ok_def entry_send_def split: if_splits)

lemma server_ok_finish: "server_ok log s \<Longrightarrow> server_ok log (finish conn s)"
  by (auto simp: server_ok_def finish_def split: if_splits)

lemma server_ok_deregister: "server_ok log s \<Longrightarrow> server_ok log (deregister n s)"
  by (auto simp: server_ok_def deregister_def split: if_splits)

lemma server_ok_handleConnect:
  assumes "server_ok log s" and "genuine_entry log e"
  shows "server_ok log (handleConnect e t s)"
proof -
  have err: "server_ok log (snd (entry_send e (relayError r) s'))" if "server_ok log s'" for r s'
    using that by (intro server_ok_send) (simp_all add: relayError_def)
  have intro: "server_ok log (snd (entry_send x (rendezvous_of y) s'))" if "server_ok log s'" "genuine_entry log y" for x y s'
    using that by (intro server_ok_send) (auto simp: genuine_entry_def)
  have "genuine_entry log target" if "rs_registry s n = Some target" for n target
    using assms(1) that by (simp add: server_ok_def)
  then show ?thesis
    using assms by (auto simp: handleConnect_def split_beta Let_def intro!: err intro split: option.split)
qed

lemma server_ok_Serve:
  assumes "server_ok log s"
  shows "server_ok (case taken_up s conn msg of None \<Rightarrow> log | Some reg \<Rightarrow> (ip, reg) # log) (Serve conn ip msg s)"
proof (cases "rs_phase s conn")
  case Waiting
  show ?thesis
  proof (cases "Option.bind msg GetRelayRegister")
    case None
    then show ?thesis using assms Waiting by (simp add: taken_up_def Serve_def serve_register_def server_ok_finish)
  next
    case (Some reg)
    let ?log = "(ip, reg) # log"
    have ok: "server_ok ?log s" by (rule server_ok_mono [OF assms])
    show ?thesis
    proof (cases "length (rr_NodeId reg) = 32 \<and> length (rr_PublicKey reg) = 32")
      case False
      then show ?thesis using ok Waiting Some by (auto simp: taken_up_def Serve_def serve_register_def server_ok_finish)
    next
      case True
      define e where "e = \<lparr>re_nodeID = arr_of (rr_NodeId reg), re_publicKey = rr_PublicKey reg,
        re_externalAddr = ip @ '':'' @ dec_nat (unat (rr_ListenPort reg)), re_conn = conn\<rparr>"
      define s1 where "s1 = s\<lparr>rs_registry := (rs_registry s)(re_nodeID e \<mapsto> e), rs_phase := (rs_phase s)(conn := Serving e)\<rparr>"
      have "genuine_entry ?log e" using True by (auto simp: genuine_entry_def genuine_def introduces_def rendezvous_of_def e_def)
      then have "server_ok ?log s1" using ok by (auto simp: server_ok_def s1_def)
      then have sent: "server_ok ?log (snd (entry_send e (RelayRegistered (re_externalAddr e)) s1))" by (rule server_ok_send) simp
      have "Serve conn ip msg s = (let (ok, s2) = entry_send e (RelayRegistered (re_externalAddr e)) s1
          in if \<not> ok then finish conn (deregister (re_nodeID e) s2) else s2)"
        using Waiting Some True by (simp add: Serve_def serve_register_def e_def s1_def Let_def split_beta)
      then show ?thesis
        using sent Waiting Some by (simp add: taken_up_def split_beta Let_def server_ok_finish server_ok_deregister)
    qed
  qed
next
  case (Serving e)
  then have "genuine_entry log e" using assms by (simp add: server_ok_def)
  then show ?thesis
    using Serving assms
    by (simp add: taken_up_def Serve_def serve_message_def server_ok_handleConnect server_ok_finish server_ok_deregister
        split: option.split envelope.split)
next
  case Finished
  then show ?thesis using assms by (simp add: taken_up_def Serve_def)
qed

subsection \<open>The clients\<close>

lemma client_call_step: "client_call cl cl' \<Longrightarrow> client_step cl (Ok cl')"
  by (induction rule: client_call.induct) (auto intro: client_step.intros, metis step_close)

text \<open>What a call may add to the buffers and the queue of a client: nothing.\<close>

definition no_more :: "relay_client \<Rightarrow> relay_client \<Rightarrow> bool" where
  "no_more cl cl' \<longleftrightarrow> (\<forall>ch rv. wc_buf (cl_chans cl' ch) = Some rv \<longrightarrow> wc_buf (cl_chans cl ch) = Some rv) \<and> set (cl_incoming cl') \<subseteq> set (cl_incoming cl)"

lemma client_ok_less: "client_ok log cl \<Longrightarrow> client_inv cl' \<Longrightarrow> no_more cl cl' \<Longrightarrow> client_ok log cl'"
  unfolding client_ok_def no_more_def by blast

lemma no_more_closeLocked: "client_inv cl \<Longrightarrow> closeLocked cl = Ok (did, cl') \<Longrightarrow> no_more cl cl'"
  by (auto simp: closeLocked_ok no_more_def split: if_splits)

lemma no_more_wchan_recv: "wchan_recv ch cl = Some (rv, cl') \<Longrightarrow> no_more cl (drop_waiter t cl')"
  by (auto simp: no_more_def drop_waiter_def wchan_recv_def Let_def split: option.splits if_splits)

lemma no_more_drop_waiter [simp]: "no_more cl (drop_waiter t cl)"
  by (simp add: no_more_def drop_waiter_def)

lemma no_more_call:
  assumes "client_call cl cl'" and "client_inv cl"
  shows "no_more cl cl'"
  using assms
proof (induction rule: client_call.induct)
  case (call_request cl target)
  then show ?case by (auto simp: no_more_def request_begin_def add_waiter_def)
next
  case (call_send cl target)
  then show ?case by (simp add: no_more_def request_send_def drop_waiter_def Let_def split_beta split: outcome.splits)
next
  case (call_requested ctx target ch cl r cl')
  then show ?case by (auto simp: request_end_def no_more_wchan_recv split: option.splits)
next
  case (call_wait cl node)
  then show ?case by (auto simp: no_more_def wait_begin_def add_waiter_def)
next
  case (call_waited ctx node ch cl r cl')
  then show ?case by (auto simp: wait_end_def no_more_wchan_recv split: option.splits)
next
  case (call_incoming cl i "is")
  then show ?case by (auto simp: no_more_def)
next
  case (call_close cl cl')
  then obtain did cl1 where "closeLocked cl = Ok (did, cl1)" and cl': "cl' = (if did then cl1\<lparr>cl_connOpen := False\<rparr> else cl1)"
    by (auto simp: Close_def outcome_simps)
  with no_more_closeLocked [OF call_close(2)] show ?case by (auto simp: no_more_def)
qed

lemma client_ok_call: "client_ok log cl \<Longrightarrow> client_call cl cl' \<Longrightarrow> client_ok log cl'"
  using client_ok_less no_more_call client_call_step client_step_inv unfolding client_ok_def by blast

lemma client_ok_closed: "client_ok log cl \<Longrightarrow> closeAllPending cl = Ok cl' \<Longrightarrow> client_ok log cl'"
  using client_ok_less [of log cl cl'] no_more_closeLocked [of cl] inv_closeAllPending [of cl]
  by (auto simp: closeAllPending_def outcome_simps client_ok_def)

lemma client_ok_dispatch:
  assumes "client_ok log cl" and "genuine log rv" and "dispatchRendezvous rv cl = Ok cl'"
  shows "client_ok log cl'"
proof -
  have "client_inv cl'" using inv_dispatch [of cl rv] assms by (auto simp: client_ok_def)
  then show ?thesis
    using assms unfolding client_ok_def dispatchRendezvous_def
    by (auto simp: Let_def split: if_splits option.splits)
qed

lemma client_ok_read:
  assumes "client_ok log cl" and "\<forall>rv. msg = Some (RelayRendezvous rv) \<longrightarrow> genuine log rv" and "read_round msg cl = Ok cl'"
  shows "client_ok log cl'"
  using assms client_ok_closed [OF assms(1)] client_ok_dispatch [OF assms(1)]
  by (auto simp: read_round_def dispatchError_def split: option.splits envelope.splits)

subsection \<open>The whole system\<close>

lemma unread_subset: "set (unread N n) \<subseteq> set (rs_out (rn_server N) n)"
  by (simp add: unread_def set_drop_subset)

lemma client_ok_new: "client_ok log (new_client ident port conn addr)"
  using client_inv_new by (simp add: client_ok_def new_client_def)

lemma Connect_new:
  "Connect dialed ident port = (Ok cl, True) \<Longrightarrow> \<exists>conn addr. cl = new_client ident port conn addr"
  by (auto simp: Connect_def split_beta Let_def split: outcome.splits option.splits prod.splits)

lemma net_step_inv: "net_step N N' \<Longrightarrow> net_inv N \<Longrightarrow> net_inv N'"
proof (induction rule: net_step.induct)
  case (net_message conn N msg)
  then have "server_ok (rn_log (net_serve conn msg N)) (rn_server (net_serve conn msg N))"
    using server_ok_Serve [where log = "rn_log N" and s = "rn_server N" and conn = conn and msg = msg and ip = "rn_ips N ! conn"] by (simp add: net_inv_def net_serve_def)
  with net_message show ?case by (auto simp: net_inv_def net_serve_def client_ok_mono split: option.split)
next
  case (net_break N conn)
  then show ?case by (simp add: net_inv_def server_ok_def break_conn_def)
next
  case (net_connect N n e room ident port cl)
  then show ?case using Connect_new client_ok_new by (fastforce simp: net_inv_def)
next
  case (net_call N n cl cl')
  then show ?case using client_ok_call [of "rn_log N" cl cl'] by (simp add: net_inv_def)
next
  case (net_read N n cl m ms cl')
  have "\<forall>rv. m = RelayRendezvous rv \<longrightarrow> genuine (rn_log N) rv"
    using unread_subset [of N n] net_read.hyps(2) net_read.prems by (auto simp: net_inv_def server_ok_def)
  then show ?case using net_read client_ok_read [of "rn_log N" cl "Some m" cl'] by (auto simp: net_inv_def)
next
  case (net_lost N n cl cl')
  then show ?case using client_ok_read [of "rn_log N" cl None cl'] by (simp add: net_inv_def)
qed (simp add: net_inv_def)

interpretation relay_net_steps: guarded_steps net_step net_inv "\<lambda>_ _. True"
  by unfold_locales (simp_all add: net_step_inv)

lemma net_reach_inv: "net_reach N \<Longrightarrow> net_inv N"
  unfolding net_reach_def by (erule relay_net_steps.steps_inv) (simp add: net_inv_def empty_net_def server_ok_def)

section \<open>Properties\<close>

text \<open>
  C26. What a client learns about a peer is what that peer has told the relay. In every state the relay and its clients can reach,
  whatever is sent to the relay and however the messages interleave, a rendezvous that \<open>RequestRendezvous\<close> returns, or that waits
  on the \<open>Incoming\<close> channel, has the node id and the key of one registration and the address this registration came from: a node
  cannot register under an address that is not its own.
\<close>

theorem rendezvous_genuine:
  assumes "net_reach N" and "rn_client N n = Some cl"
    and "request_end None target ch cl = Some (Ok info, cl') \<or> info \<in> set (cl_incoming cl)"
  shows "\<exists>ip reg. (ip, reg) \<in> set (rn_log N) \<and> info = \<lparr>ri_PeerNodeID = arr_of (rr_NodeId reg), ri_PeerPublicKey = rr_PublicKey reg,
    ri_PeerExternalAddr = ip @ '':'' @ dec_nat (unat (rr_ListenPort reg))\<rparr>"
proof -
  have ok: "client_ok (rn_log N) cl" using net_reach_inv [OF assms(1)] assms(2) by (simp add: net_inv_def)
  have "\<exists>rv. genuine (rn_log N) rv \<and> info = rendezvousFromProto rv"
    using assms(3)
  proof
    assume "request_end None target ch cl = Some (Ok info, cl')"
    then obtain rv where "wc_buf (cl_chans cl ch) = Some rv" "info = rendezvousFromProto rv"
      by (auto simp: request_end_def wchan_recv_def Let_def split: option.splits if_splits)
    then show ?thesis using ok by (auto simp: client_ok_def)
  qed (use ok in \<open>auto simp: client_ok_def\<close>)
  then show ?thesis by (force simp: genuine_def introduces_def rendezvousFromProto_def)
qed

text \<open>A node that asks the relay for itself, for the witness.\<close>

abbreviation ex_reg :: relay_register where
  "ex_reg \<equiv> \<lparr>rr_NodeId = list_of (arr_of [1] :: id32), rr_PublicKey = replicate 32 1, rr_ListenPort = 7\<rparr>"

lemma ex_remoteIP: "remoteIP ''h:1'' = ''h''"
  by code_simp

lemma ex_net_steps:
  obtains N cl where "net_reach N" and "rn_client N 0 = Some cl" and "cl_incoming cl \<noteq> []" and "rn_log N = [(''h'', ex_reg)]"
proof -
  define N1 where "N1 = empty_net\<lparr>rn_ips := [''h'']\<rparr>"
  define N2 where "N2 = net_serve 0 (Some (RelayRegister ex_reg)) N1"
  define s2 where "s2 = NewServer\<lparr>rs_registry := [arr_of [1] \<mapsto> ex_relay_entry 1 0],
    rs_phase := (\<lambda>_. Waiting)(0 := Serving (ex_relay_entry 1 0)), rs_out := (\<lambda>_. [])(0 := [RelayRegistered ''h:7''])\<rparr>"
  have srv: "Serve 0 ''h'' (Some (RelayRegister ex_reg)) NewServer = s2" unfolding s2_def by (subst ex_registered) simp_all
  have N2: "N2 = N1\<lparr>rn_server := s2, rn_log := [(''h'', ex_reg)]\<rparr>"
    using srv by (simp add: N2_def net_serve_def N1_def empty_net_def taken_up_def)
  let ?dialed = "\<lparr>ch_in = unread N2 0, ch_end = ErrIO, ch_out = [], ch_room = None\<rparr>"
  obtain cl where cl: "Connect (Ok ?dialed) ex_node 7 = (Ok cl, True)" "cl_pending cl = []" "\<not> cl_closed cl" "\<not> cl_incomingClosed cl" "cl_incoming cl = []"
    by (simp add: Connect_def chan_recv_def unread_def N2 N1_def empty_net_def s2_def new_client_def)
  define N3 where "N3 = N2\<lparr>rn_client := (rn_client N2)(0 \<mapsto> cl), rn_read := (rn_read N2)(0 := Suc (rn_read N2 0))\<rparr>"
  define N4 where "N4 = net_serve 0 (Some (RelayConnect (list_of (arr_of [1] :: id32)))) N3"
  obtain rv where un: "unread N4 0 = [RelayRendezvous rv, RelayRendezvous rv]" "length (rv_PeerNodeId rv) = 32"
    by (simp add: N4_def net_serve_def unread_def N3_def N2 N1_def empty_net_def s2_def Serve_def serve_message_def handleConnect_def
        entry_send_def rendezvous_of_def Let_def)
  obtain cl' where cl': "read_round (Some (RelayRendezvous rv)) cl = Ok cl'" "cl_incoming cl' \<noteq> []"
    using cl un(2) by (simp add: read_round_def dispatchRendezvous_def)
  have client: "rn_client N4 0 = Some cl" by (simp add: N4_def net_serve_def N3_def)
  have "net_step empty_net N1" using net_accept [of empty_net "''h:1''"] by (simp add: N1_def ex_remoteIP empty_net_def)
  moreover have "net_step N1 N2" unfolding N2_def by (rule net_message) (simp add: N1_def)
  moreover have "net_step N2 N3" unfolding N3_def by (rule net_connect [OF cl(1)])
  moreover have "net_step N3 N4" unfolding N4_def by (rule net_message) (simp add: N3_def N2 N1_def)
  moreover note net_read [OF client un(1) cl'(1)]
  ultimately have "net_reach (N4\<lparr>rn_client := (rn_client N4)(0 \<mapsto> cl'), rn_read := (rn_read N4)(0 := Suc (rn_read N4 0))\<rparr>)"
    unfolding net_reach_def by (meson rtranclp.intros)
  then show thesis
    by (rule that) (use cl' in \<open>simp_all add: N4_def net_serve_def taken_up_def N3_def N2 s2_def\<close>)
qed

theorem rendezvous_genuine_witness:
  "\<exists>N cl. net_reach N \<and> rn_client N 0 = Some cl \<and> cl_incoming cl \<noteq> [] \<and> hd (cl_incoming cl) =
    \<lparr>ri_PeerNodeID = arr_of [1], ri_PeerPublicKey = replicate 32 1, ri_PeerExternalAddr = ''h:7''\<rparr>"
proof -
  obtain N cl where N: "net_reach N" "rn_client N 0 = Some cl" "cl_incoming cl \<noteq> []" "rn_log N = [(''h'', ex_reg)]"
    by (rule ex_net_steps)
  from rendezvous_genuine [OF N(1,2), of _ _ "hd (cl_incoming cl)"] N(3,4) have "hd (cl_incoming cl) =
    \<lparr>ri_PeerNodeID = arr_of [1], ri_PeerPublicKey = replicate 32 1, ri_PeerExternalAddr = ''h:7''\<rparr>"
    by (auto simp: ex_port)
  with N show ?thesis by blast
qed

text \<open>
  C27. A rendezvous takes place. When two nodes are registered and can be written to, and one asks for the other while nobody else uses
  its client, the relay answers with one message to each: \<open>RequestRendezvous\<close> returns the key and the address under which the other
  node is registered, and the other node finds those of the first on its \<open>Incoming\<close> channel.
\<close>

theorem rendezvous_completes:
  assumes "relay_reach s" and "rs_phase s a = Serving ea" and "rs_up s a" and "rs_registry s target = Some eb"
    and "rs_up s (re_conn eb)" and "re_conn eb \<noteq> a" and "s' = Serve a ip (Some (RelayConnect (list_of target))) s"
    and "client_reach clA" and "\<not> cl_closed clA" and "cl_connOpen clA" and "ch_room (cl_conn clA) = None"
    and "client_reach clB" and "\<not> cl_closed clB" and "re_nodeID ea \<notin> fst ` set (cl_pending clB)" and "length (cl_incoming clB) < 16"
  shows "\<exists>toA toB clA' clB'. rs_out s' a = rs_out s a @ [toA] \<and> rs_out s' (re_conn eb) = rs_out s (re_conn eb) @ [toB]
    \<and> RequestRendezvous ctxErr [Some toA] target clA =
        (Ok \<lparr>ri_PeerNodeID = target, ri_PeerPublicKey = re_publicKey eb, ri_PeerExternalAddr = re_externalAddr eb\<rparr>, clA')
    \<and> ch_out (cl_conn clA') = ch_out (cl_conn clA) @ [RelayConnect (list_of target)]
    \<and> read_round (Some toB) clB = Ok clB'
    \<and> cl_incoming clB' = cl_incoming clB @
        [\<lparr>ri_PeerNodeID = re_nodeID ea, ri_PeerPublicKey = re_publicKey ea, ri_PeerExternalAddr = re_externalAddr ea\<rparr>]"
proof -
  have inv: "re_conn ea = a" "re_nodeID eb = target"
    using relay_reach_inv [OF assms(1)] assms(2,4) by (auto simp: relay_inv_def)
  have out: "rs_out s' a = rs_out s a @ [rendezvous_of eb]" "rs_out s' (re_conn eb) = rs_out s (re_conn eb) @ [rendezvous_of ea]"
    using relay_introduces_both [OF assms(2) inv(1) assms(3), of ip target] assms(4-7) by (simp_all add: Let_def)
  obtain clA' where A: "RequestRendezvous ctxErr [Some (rendezvous_of eb)] target clA =
        (Ok \<lparr>ri_PeerNodeID = target, ri_PeerPublicKey = re_publicKey eb, ri_PeerExternalAddr = re_externalAddr eb\<rparr>, clA')"
      "ch_out (cl_conn clA') = ch_out (cl_conn clA) @ [RelayConnect (list_of target)]"
    using assms(9-11) inv(2)
    by (simp add: RequestRendezvous_def request_begin_def add_waiter_def request_send_def request_end_def wchan_recv_def read_round_def
        rendezvous_of_def dispatchRendezvous_def set_pending_def rendezvousFromProto_def drop_waiter_def Let_def)
  have "client_inv clB" using assms(12) by (rule client_reach_inv)
  moreover have "map_of (cl_pending clB) (re_nodeID ea) = None" using assms(14) by (simp add: map_of_eq_None_iff)
  ultimately obtain clB' where "read_round (Some (rendezvous_of ea)) clB = Ok clB'" "cl_incoming clB' = cl_incoming clB @
        [\<lparr>ri_PeerNodeID = re_nodeID ea, ri_PeerPublicKey = re_publicKey ea, ri_PeerExternalAddr = re_externalAddr ea\<rparr>]"
    using assms(13,15) by (simp add: read_round_def rendezvous_of_def dispatchRendezvous_def rendezvousFromProto_def client_inv_def)
  with out A show ?thesis by blast
qed

theorem rendezvous_completes_witness:
  "\<exists>toA clA'. RequestRendezvous ErrIO [Some toA] (arr_of [1]) ex_client =
    (Ok \<lparr>ri_PeerNodeID = arr_of [1], ri_PeerPublicKey = replicate 32 1, ri_PeerExternalAddr = ''h:7''\<rparr>, clA')"
proof -
  have client: "cl_connOpen ex_client" "ch_room (cl_conn ex_client) = None" "cl_incoming ex_client = []"
    by (simp_all add: ex_client_def new_client_def)
  have reg: "rs_registry ex_relay2 (arr_of [1]) = Some (ex_relay_entry 1 4)" by (simp add: ex_relay2_sel fun_upd_def)
  from rendezvous_completes [OF ex_relay_reach(3) ex_relay2_sel(2) _ reg _ _ refl ex_client_reach _ client(1,2) ex_client_reach, where ctxErr = ErrIO and ip = "''h''"]
  show ?thesis by (force simp: ex_relay2_sel(3) client)
qed

text \<open>
  An IPv6 host is joined to the port without brackets: the address that is registered and handed to peers is one that
  \<open>net.SplitHostPort\<close> refuses.
\<close>

lemma no_colon_dec_nat: "CHR '':'' \<notin> set (dec_nat n)"
proof (induction n rule: dec_nat.induct)
  case (1 n)
  have "\<forall>d < 10. CHR '':'' \<noteq> ''0123456789'' ! d" by (simp add: numeral_eq_Suc All_less_Suc)
  then have "n < 10 \<longrightarrow> CHR '':'' \<noteq> ''0123456789'' ! n" "CHR '':'' \<noteq> ''0123456789'' ! (n mod 10)" by simp_all
  then show ?case using 1 by (subst dec_nat.simps) simp
qed

lemma ipv6_address_unusable:
  assumes "CHR '':'' \<in> set host" and "hd host \<noteq> CHR ''[''"
  shows "SplitHostPort (host @ '':'' @ dec_nat p) = None"
proof -
  have "takeWhile (\<lambda>c. c \<noteq> CHR '':'') (rev (host @ '':'' @ dec_nat p)) = rev (dec_nat p)"
    using no_colon_dec_nat [of p] by (simp add: takeWhile_append)
  then have "last_colon (host @ '':'' @ dec_nat p) = Some (length host)" by (simp add: last_colon_def)
  moreover have "host \<noteq> []" using assms(1) by auto
  ultimately show ?thesis using assms by (simp add: SplitHostPort_def)
qed

lemma ipv6_remoteIP: "remoteIP ''[::1]:9'' = ''::1''"
  by code_simp

text \<open>A node behind a NAT learns its address from the relay's echo.\<close>

lemma echo_discovers:
  "length addr \<le> 64 \<Longrightarrow> read_discovery relay (map (\<lambda>d. (fst d, Some relay)) (serveUDPEcho [Some addr]) @ pkts) e = Ok addr"
  by simp

end
