(* ===== verification/Watcher.thy ===== *)
theory Watcher
  imports File_Transfer Catalog_Spec
begin

text \<open>
  The folder watcher, \<open>internal/watcher/watcher.go\<close>: indexing and removal over the catalog store and the local
  index, and the debouncer with its timers. \<open>mtime\<close> gives the modification time \<open>os.Stat\<close> reports. The timers of
  the debouncer are numbered; a timer that expires starts a goroutine, which first takes the lock to delete the map entry
  and then indexes the file. These are separate steps, so events can fall in between.
\<close>

record 'b watcher =
  wt_dir :: string
  wt_catalog :: "'b store"
  wt_index :: local_index
  wt_onChange :: bool
  wt_changes :: nat
  wt_fs :: fs

definition New :: "string \<Rightarrow> 'b store \<Rightarrow> local_index \<Rightarrow> bool \<Rightarrow> fs \<Rightarrow> 'b watcher" where
  "New dir cat index onChange fs = \<lparr>wt_dir = dir, wt_catalog = cat, wt_index = index, wt_onChange = onChange, wt_changes = 0, wt_fs = fs\<rparr>"

definition notifyChange :: "'b watcher \<Rightarrow> 'b watcher" where
  "notifyChange w = (if wt_onChange w then w\<lparr>wt_changes := Suc (wt_changes w)\<rparr> else w)"

definition watched_hashFile :: "(bytes \<Rightarrow> id32) \<Rightarrow> string \<Rightarrow> fs \<Rightarrow> id32 outcome \<times> fs" where
  "watched_hashFile sha path fs =
     (case os_Open path fs of
        (Ok _, fs1) \<Rightarrow> (let (c, fs2) = os_ReadFile path fs1 in (obind c (\<lambda>content. Ok (sha content)), fs2))
      | (r, fs1) \<Rightarrow> (fail_of r, fs1))"

definition indexFile ::
  "'b bolt \<Rightarrow> (bytes \<Rightarrow> id32) \<Rightarrow> (string \<Rightarrow> gotime) \<Rightarrow> (nat \<Rightarrow> gotime) \<Rightarrow> string \<Rightarrow> 'b watcher \<Rightarrow> unit outcome \<times> 'b watcher" where
  "indexFile B sha mtime clk path w =
     (case os_Stat path (wt_fs w) of
        (Ok info, fs1) \<Rightarrow>
          if fi_dir info then (Ok (), w\<lparr>wt_fs := fs1\<rparr>)
          else (case watched_hashFile sha path fs1 of
                  (Ok hash, fs2) \<Rightarrow>
                    (let entry = \<lparr>e_FileID = hash, e_Name = filepath_Base path, e_Size = of_nat (fi_size info), e_ModTime = mtime path,
                           e_OwnerNodeID = arr_of [], e_LocalPath = path, e_Deleted = False, e_UpdatedAt = zero_time\<rparr>
                     in case PutLocal B clk (wt_catalog w) entry of
                          (Ok _, s) \<Rightarrow>
                            (case Add sha path (wt_index w) fs2 of
                               (Ok _, idx, fs3) \<Rightarrow> (Ok (), notifyChange (w\<lparr>wt_catalog := s, wt_index := idx, wt_fs := fs3\<rparr>))
                             | (r, idx, fs3) \<Rightarrow> (owrap ''index add'' r, w\<lparr>wt_catalog := s, wt_index := idx, wt_fs := fs3\<rparr>))
                        | (r, s) \<Rightarrow> (owrap ''catalog put'' r, w\<lparr>wt_catalog := s, wt_fs := fs2\<rparr>))
                | (r, fs2) \<Rightarrow> (owrap (''hash '' @ path) (fail_of r), w\<lparr>wt_fs := fs2\<rparr>))
      | (r, fs1) \<Rightarrow> (fail_of r, w\<lparr>wt_fs := fs1\<rparr>))"

definition handleRemove :: "'b bolt \<Rightarrow> (nat \<Rightarrow> gotime) \<Rightarrow> string \<Rightarrow> 'b watcher \<Rightarrow> 'b watcher" where
  "handleRemove B clk path w =
     (case LookupLocalByPath B (wt_catalog w) path of
        None \<Rightarrow> w
      | Some entry \<Rightarrow>
          (case DeleteLocal B clk (wt_catalog w) (e_FileID entry) of
             (Ok _, s) \<Rightarrow> notifyChange (w\<lparr>wt_catalog := s, wt_index := RemoveHash (e_FileID entry) (wt_index w)\<rparr>)
           | (_, s) \<Rightarrow> w\<lparr>wt_catalog := s\<rparr>))"

text \<open>\<open>scan\<close>: \<open>visits\<close> is what \<open>filepath.WalkDir\<close> calls the function with; \<open>clks\<close> the clock during each visit.\<close>

fun scan ::
  "'b bolt \<Rightarrow> (bytes \<Rightarrow> id32) \<Rightarrow> (string \<Rightarrow> gotime) \<Rightarrow> (nat \<Rightarrow> nat \<Rightarrow> gotime) \<Rightarrow> nat \<Rightarrow> (string \<times> bool \<times> err option) list \<Rightarrow>
   'b watcher \<Rightarrow> unit outcome \<times> 'b watcher" where
  "scan B sha mtime clks i [] w = (Ok (), w)"
| "scan B sha mtime clks i ((path, regular, werr) # visits) w =
     (case werr of
        Some e \<Rightarrow> (Err e, w)
      | None \<Rightarrow> if \<not> regular then scan B sha mtime clks (Suc i) visits w
                else scan B sha mtime clks (Suc i) visits (snd (indexFile B sha mtime (clks i) path w)))"

section \<open>The debouncer\<close>

definition debounceDelay :: gotime where
  "debounceDelay = 500000000"

record debouncer =
  db_timers :: "string \<rightharpoonup> nat"
  db_path :: "nat \<Rightarrow> string"
  db_armed :: "nat \<rightharpoonup> gotime"
  db_next :: nat
  db_started :: "nat list"
  db_indexing :: "string list"

definition newDebouncer :: debouncer where
  "newDebouncer = \<lparr>db_timers = Map.empty, db_path = (\<lambda>_. []), db_armed = Map.empty, db_next = 0, db_started = [], db_indexing = []\<rparr>"

definition schedule :: "gotime \<Rightarrow> string \<Rightarrow> debouncer \<Rightarrow> debouncer" where
  "schedule now path d =
     (case db_timers d path of
        Some t \<Rightarrow> d\<lparr>db_armed := (db_armed d)(t \<mapsto> now + debounceDelay)\<rparr>
      | None \<Rightarrow> d\<lparr>db_timers := (db_timers d)(path \<mapsto> db_next d), db_path := (db_path d)(db_next d := path),
                   db_armed := (db_armed d)(db_next d \<mapsto> now + debounceDelay), db_next := Suc (db_next d)\<rparr>)"

definition cancel :: "string \<Rightarrow> debouncer \<Rightarrow> debouncer" where
  "cancel path d =
     (case db_timers d path of
        Some t \<Rightarrow> d\<lparr>db_armed := (db_armed d)(t := None), db_timers := (db_timers d)(path := None)\<rparr>
      | None \<Rightarrow> d)"

text \<open>A timer expires and its function starts; it deletes the map entry under the lock; then it indexes the file.\<close>

definition expire :: "gotime \<Rightarrow> nat \<Rightarrow> debouncer \<Rightarrow> debouncer" where
  "expire now t d =
     (case db_armed d t of
        Some at \<Rightarrow> if at \<le> now then d\<lparr>db_armed := (db_armed d)(t := None), db_started := t # db_started d\<rparr> else d
      | None \<Rightarrow> d)"

definition fire :: "nat \<Rightarrow> debouncer \<Rightarrow> debouncer" where
  "fire t d =
     (if t \<in> set (db_started d)
      then d\<lparr>db_timers := (db_timers d)(db_path d t := None), db_started := remove1 t (db_started d),
             db_indexing := db_path d t # db_indexing d\<rparr>
      else d)"

definition index_due ::
  "'b bolt \<Rightarrow> (bytes \<Rightarrow> id32) \<Rightarrow> (string \<Rightarrow> gotime) \<Rightarrow> (nat \<Rightarrow> gotime) \<Rightarrow> string \<Rightarrow> 'b watcher \<times> debouncer \<Rightarrow> 'b watcher \<times> debouncer" where
  "index_due B sha mtime clk path = (\<lambda>(w, d).
     if path \<in> set (db_indexing d)
     then (snd (indexFile B sha mtime clk path w), d\<lparr>db_indexing := remove1 path (db_indexing d)\<rparr>) else (w, d))"

section \<open>Events\<close>

record fs_event =
  ev_Name :: string
  ev_Create :: bool
  ev_Write :: bool
  ev_Remove :: bool
  ev_Rename :: bool

definition handleEvent :: "'b bolt \<Rightarrow> gotime \<Rightarrow> (nat \<Rightarrow> gotime) \<Rightarrow> fs_event \<Rightarrow> 'b watcher \<times> debouncer \<Rightarrow> 'b watcher \<times> debouncer" where
  "handleEvent B now clk ev = (\<lambda>(w, d).
     if ev_Create ev \<or> ev_Write ev then (w, schedule now (ev_Name ev) d)
     else if ev_Remove ev \<or> ev_Rename ev then (handleRemove B clk (ev_Name ev) w, cancel (ev_Name ev) d)
     else (w, d))"

text \<open>One round of the loop: the state, or \<open>None\<close> when it returns.\<close>

datatype watch_input = CtxDone | EventIn fs_event | EventsClosed | WatchError err | ErrorsClosed

definition loop_round ::
  "'b bolt \<Rightarrow> gotime \<Rightarrow> (nat \<Rightarrow> gotime) \<Rightarrow> watch_input \<Rightarrow> 'b watcher \<times> debouncer \<Rightarrow> ('b watcher \<times> debouncer) option" where
  "loop_round B now clk inp wd =
     (case inp of
        CtxDone \<Rightarrow> None
      | EventIn ev \<Rightarrow> Some (handleEvent B now clk ev wd)
      | EventsClosed \<Rightarrow> None
      | WatchError e \<Rightarrow> Some wd
      | ErrorsClosed \<Rightarrow> None)"

text \<open>\<open>Run\<close> up to its loop; \<open>inited\<close> and \<open>added\<close> are what \<open>fsnotify\<close> returns.\<close>

definition Run ::
  "'b bolt \<Rightarrow> (bytes \<Rightarrow> id32) \<Rightarrow> (string \<Rightarrow> gotime) \<Rightarrow> (nat \<Rightarrow> nat \<Rightarrow> gotime) \<Rightarrow> (string \<times> bool \<times> err option) list \<Rightarrow>
   unit outcome \<Rightarrow> unit outcome \<Rightarrow> 'b watcher \<Rightarrow> debouncer outcome \<times> 'b watcher" where
  "Run B sha mtime clks visits inited added w =
     (let (r, w1) = scan B sha mtime clks 0 visits w
      in (obind (owrap ''watcher scan'' r) (\<lambda>_.
          obind (owrap ''watcher init'' inited) (\<lambda>_.
          obind (owrap ''watcher add'' added) (\<lambda>_. Ok newDebouncer))), w1))"

section \<open>A file is indexed and removed\<close>

lemma notifyChange_sel [simp]:
  "wt_catalog (notifyChange w) = wt_catalog w" "wt_index (notifyChange w) = wt_index w" "wt_fs (notifyChange w) = wt_fs w"
  by (simp_all add: notifyChange_def)

definition entry_of :: "(bytes \<Rightarrow> id32) \<Rightarrow> (string \<Rightarrow> gotime) \<Rightarrow> id32 \<Rightarrow> gotime \<Rightarrow> string \<Rightarrow> bytes \<Rightarrow> entry" where
  "entry_of sha mtime self now path c = stored \<lparr>e_FileID = sha c, e_Name = filepath_Base path, e_Size = of_nat (length c),
     e_ModTime = mtime path, e_OwnerNodeID = self, e_LocalPath = path, e_Deleted = False, e_UpdatedAt = now\<rparr>"

lemma entry_of_sel [simp]:
  "e_FileID (entry_of sha mtime self now path c) = sha c" "e_Deleted (entry_of sha mtime self now path c) = False"
  "e_LocalPath (entry_of sha mtime self now path c) = to_utf8 path"
  by (simp_all add: entry_of_def stored_def)

context bolt_laws
begin

lemma indexFile_effect:
  assumes inv: "catalog_inv B (wt_catalog w)" and "json_time_ok (clk 0)" "json_time_ok (clk 1)" "json_time_ok (mtime path)"
    and commit: "\<And>db. bkt_commit B db" and "healthy (wt_fs w)" and content: "fs_files (wt_fs w) path = Some c"
  obtains w' where "indexFile B sha mtime clk path w = (Ok (), w')" and "catalog_inv B (wt_catalog w')"
    and "st_selfID (wt_catalog w') = st_selfID (wt_catalog w)"
    and "ent B (fst (st_db (wt_catalog w'))) = (\<lambda>a f. if a = st_selfID (wt_catalog w) \<and> f = sha c
      then Some (entry_of sha mtime (st_selfID (wt_catalog w)) (clk 0) path c) else ent B (fst (st_db (wt_catalog w))) a f)"
    and "wt_index w' = (wt_index w)(sha c \<mapsto> path)"
    and "healthy (wt_fs w')" and "fs_files (wt_fs w') = fs_files (wt_fs w)"
proof -
  have h: "fs_fail (wt_fs w) = (\<lambda>_. False)" using assms(6) by (simp add: healthy_def)
  let ?s = "wt_catalog w"
  let ?e = "\<lparr>e_FileID = sha c, e_Name = filepath_Base path, e_Size = of_nat (length c), e_ModTime = mtime path,
    e_OwnerNodeID = arr_of [], e_LocalPath = path, e_Deleted = False, e_UpdatedAt = zero_time\<rparr>"
  obtain eb' ab' where put: "fst (PutLocal B clk ?s ?e) = Ok ()" and db: "st_db (snd (PutLocal B clk ?s ?e)) = (eb', ab')"
    and ent: "ent B eb' = (\<lambda>a f. if a = st_selfID ?s \<and> f = e_FileID ?e
       then Some (stored (?e\<lparr>e_OwnerNodeID := st_selfID ?s, e_UpdatedAt := clk 0, e_Deleted := False\<rparr>)) else ent B (fst (st_db ?s)) a f)"
    by (rule PutLocal_effect [OF inv assms(2,3) _ commit, where e = ?e]) (use assms(4) in auto)
  obtain s' where s': "PutLocal B clk ?s ?e = (Ok (), s')" using put by (metis prod.collapse)
  define fs' where "fs' = (wt_fs w)\<lparr>fs_calls := fs_calls (wt_fs w) + 5\<rparr>"
  have run: "indexFile B sha mtime clk path w =
      (Ok (), notifyChange (w\<lparr>wt_catalog := s', wt_index := (wt_index w)(sha c \<mapsto> path), wt_fs := fs'\<rparr>))"
    using s' content h
    by (simp add: indexFile_def watched_hashFile_def Add_def hashFile_def fs_defs exists_path_def fs'_def eval_nat_numeral)
  have self: "st_selfID s' = st_selfID ?s"
    using store_update_selfID s' by (metis PutLocal_def snd_conv)
  show ?thesis
    using that [OF run] PutLocal_inv [OF inv, of clk ?e] s' db ent h self
    by (simp add: entry_of_def healthy_def fs'_def cong: if_cong)
qed

lemma handleRemove_effect:
  assumes inv: "catalog_inv B (wt_catalog w)" and "json_time_ok (clk 0)" and commit: "\<And>db. bkt_commit B db"
    and found: "LookupLocalByPath B (wt_catalog w) path = Some e"
  shows "ent B (fst (st_db (wt_catalog (handleRemove B clk path w)))) (st_selfID (wt_catalog w)) (e_FileID e) =
      Some (e\<lparr>e_Deleted := True, e_UpdatedAt := clk 0\<rparr>)"
    and "wt_index (handleRemove B clk path w) = (wt_index w)(e_FileID e := None)"
    and "catalog_inv B (wt_catalog (handleRemove B clk path w))"
proof -
  have e: "ent B (fst (st_db (wt_catalog w))) (st_selfID (wt_catalog w)) (e_FileID e) = Some e"
    using LookupLocalByPath_spec(2) [OF inv found] by simp
  obtain eb' ab' where del: "fst (DeleteLocal B clk (wt_catalog w) (e_FileID e)) = Ok ()"
    and db: "st_db (snd (DeleteLocal B clk (wt_catalog w) (e_FileID e))) = (eb', ab')"
    and ent: "ent B eb' = (\<lambda>a g. if a = st_selfID (wt_catalog w) \<and> g = e_FileID e
       then Some (e\<lparr>e_Deleted := True, e_UpdatedAt := clk 0\<rparr>) else ent B (fst (st_db (wt_catalog w))) a g)"
    by (rule DeleteLocal_effect [where clk = clk, OF inv assms(2) commit e])
  obtain s' where s': "DeleteLocal B clk (wt_catalog w) (e_FileID e) = (Ok (), s')" using del by (metis prod.collapse)
  show "ent B (fst (st_db (wt_catalog (handleRemove B clk path w)))) (st_selfID (wt_catalog w)) (e_FileID e) =
      Some (e\<lparr>e_Deleted := True, e_UpdatedAt := clk 0\<rparr>)"
    using db ent by (simp add: handleRemove_def found s')
  show "wt_index (handleRemove B clk path w) = (wt_index w)(e_FileID e := None)"
    by (simp add: handleRemove_def found s' RemoveHash_def)
  show "catalog_inv B (wt_catalog (handleRemove B clk path w))"
    using DeleteLocal_inv [OF inv, of clk "e_FileID e"] by (simp add: handleRemove_def found s')
qed

end

section \<open>Runs of the debouncer\<close>

text \<open>The steps of the debouncer; under \<open>Some p\<close>, those that neither cancel \<open>p\<close> nor fire a timer of \<open>p\<close>.\<close>

inductive db_step :: "string option \<Rightarrow> debouncer \<Rightarrow> debouncer \<Rightarrow> bool" for hold where
  step_schedule: "db_step hold d (schedule now q d)"
| step_cancel: "hold \<noteq> Some q \<Longrightarrow> db_step hold d (cancel q d)"
| step_expire: "db_step hold d (expire now t d)"
| step_fire: "hold \<noteq> Some (db_path d t) \<Longrightarrow> db_step hold d (fire t d)"
| step_index: "db_step hold d (d\<lparr>db_indexing := remove1 q (db_indexing d)\<rparr>)"

definition debounce_inv :: "debouncer \<Rightarrow> bool" where
  "debounce_inv d \<longleftrightarrow>
     (\<forall>p t. db_timers d p = Some t \<longrightarrow> db_path d t = p \<and> t < db_next d)
   \<and> (\<forall>t \<in> dom (db_armed d) \<union> set (db_started d). t < db_next d)"

definition due :: "string \<Rightarrow> debouncer \<Rightarrow> bool" where
  "due p d \<longleftrightarrow> (\<exists>t. db_path d t = p \<and> (db_armed d t \<noteq> None \<or> t \<in> set (db_started d)))"

lemma debounce_inv_step: "db_step hold d d' \<Longrightarrow> debounce_inv d \<Longrightarrow> debounce_inv d'"
proof (induction rule: db_step.induct)
  case (step_schedule d now q)
  then show ?case
    by (cases "db_timers d q") (auto simp: debounce_inv_def schedule_def less_Suc_eq)
next
  case (step_cancel q d)
  then show ?case
    by (cases "db_timers d q") (auto simp: debounce_inv_def cancel_def)
next
  case (step_expire d now t)
  then show ?case
    by (cases "db_armed d t") (auto simp: debounce_inv_def expire_def)
next
  case (step_fire d t)
  then show ?case using set_remove1_subset [of t "db_started d"] by (auto simp: debounce_inv_def fire_def)
next
  case (step_index d q)
  then show ?case by (simp add: debounce_inv_def)
qed

lemma due_schedule: "debounce_inv d \<Longrightarrow> due p (schedule now p d)"
  by (cases "db_timers d p") (auto simp: due_def schedule_def debounce_inv_def)

lemma due_kept:
  assumes "db_step (Some p) d d'" and "debounce_inv d" and "due p d"
  shows "due p d'"
proof -
  obtain t where t: "db_path d t = p" "db_armed d t \<noteq> None \<or> t \<in> set (db_started d)" using assms(3) by (auto simp: due_def)
  then have fresh: "t < db_next d" using assms(2) by (auto simp: debounce_inv_def)
  have timer: "db_timers d q = Some s \<Longrightarrow> db_path d s = q" for q s using assms(2) by (simp add: debounce_inv_def)
  have "db_path d' t = p \<and> (db_armed d' t \<noteq> None \<or> t \<in> set (db_started d'))"
    using assms(1)
  proof cases
    case (step_schedule now q)
    then show ?thesis using t fresh by (simp add: schedule_def split: option.split)
  next
    case (step_cancel q)
    then show ?thesis using t timer by (auto simp: cancel_def split: option.split)
  next
    case (step_expire now u)
    then show ?thesis using t by (auto simp: expire_def split: option.split)
  next
    case (step_fire u)
    then have "t \<noteq> u" using t by auto
    then show ?thesis using step_fire t by (auto simp: fire_def in_set_remove1)
  next
    case (step_index q)
    then show ?thesis using t by simp
  qed
  then show ?thesis by (auto simp: due_def)
qed

definition db_reach :: "debouncer \<Rightarrow> bool" where
  "db_reach = (db_step None)\<^sup>*\<^sup>* newDebouncer"

interpretation debounce: guarded_steps "db_step hold" debounce_inv "\<lambda>d d'. \<forall>p. hold = Some p \<longrightarrow> due p d \<longrightarrow> due p d'" for hold
  using debounce_inv_step due_kept by unfold_locales auto

lemma db_reach_inv: "db_reach d \<Longrightarrow> debounce_inv d"
  unfolding db_reach_def by (erule debounce.steps_inv) (simp add: debounce_inv_def newDebouncer_def)

section \<open>Properties\<close>

abbreviation ex_watcher :: "ref_bucket watcher" where
  "ex_watcher \<equiv> New ''/d'' ex_store NewLocalIndex True ex_fs"

lemma New_sel [simp]:
  "wt_catalog (New dir cat index onChange fs) = cat" "wt_index (New dir cat index onChange fs) = index" "wt_fs (New dir cat index onChange fs) = fs"
  by (simp_all add: New_def)

lemma ex_fs_file: "healthy ex_fs" "fs_files ex_fs ''/d/a'' = Some [1, 2, 3]"
  by (simp_all add: healthy_def ex_fs_def)

lemma ascii_path: "to_utf8 ''/d/a'' = ''/d/a''"
  by (simp add: to_utf8_ascii char_byte_def)

lemma ex_path_free: "LookupLocalByPath ref_bolt ex_store ''/d/a'' = None"
  by (simp add: LookupLocalByPath_def cursor_prefix_def)

text \<open>
  C35. A file that appears is shared and one that disappears is withdrawn. With a working disk and
  clock, indexing a file stores a live entry of this node under the hash of its content and makes the hash lead to the
  path. When no other live entry had this path, the removal of the path afterwards marks that entry as deleted and takes
  the hash out of the index.
\<close>

theorem index_then_remove:
  assumes "bolt_laws B" and "catalog_reach B (wt_catalog w)" and "\<forall>j. json_time_ok (clk j)" and "json_time_ok (mtime path)"
    and "\<forall>db. bkt_commit B db" and "healthy (wt_fs w)" and "fs_files (wt_fs w) path = Some c" and "to_utf8 path = path"
    and "LookupLocalByPath B (wt_catalog w) path = None"
  shows "\<exists>w' e. indexFile B sha mtime clk path w = (Ok (), w') \<and> GetEntry B (wt_catalog w') (st_selfID (wt_catalog w)) (sha c) = Ok (Some e)
    \<and> \<not> e_Deleted e \<and> e_LocalPath e = path \<and> Lookup (wt_index w') (sha c) = Some path
    \<and> GetEntry B (wt_catalog (handleRemove B clk path w')) (st_selfID (wt_catalog w)) (sha c) = Ok (Some (e\<lparr>e_Deleted := True, e_UpdatedAt := clk 0\<rparr>))
    \<and> Lookup (wt_index (handleRemove B clk path w')) (sha c) = None"
proof -
  note q = bolt_laws.GetEntry_ent [OF assms(1)] and inv = bolt_laws.catalog_reach_inv [OF assms(1,2)]
  let ?e = "entry_of sha mtime (st_selfID (wt_catalog w)) (clk 0) path c"
  have clk: "json_time_ok (clk j)" and commit: "bkt_commit B db" for j db using assms(3,5) by blast+
  obtain w' where run: "indexFile B sha mtime clk path w = (Ok (), w')" and inv': "catalog_inv B (wt_catalog w')"
    and self: "st_selfID (wt_catalog w') = st_selfID (wt_catalog w)"
    and ent': "ent B (fst (st_db (wt_catalog w'))) = (\<lambda>a f. if a = st_selfID (wt_catalog w) \<and> f = sha c
      then Some ?e else ent B (fst (st_db (wt_catalog w))) a f)"
    and idx: "wt_index w' = (wt_index w)(sha c \<mapsto> path)"
    by (rule bolt_laws.indexFile_effect [where clk = clk and mtime = mtime and path = path, OF assms(1) inv clk clk assms(4) commit assms(6,7)])
  have "LookupLocalByPath B (wt_catalog w') path \<noteq> None"
    by (subst bolt_laws.LookupLocalByPath_spec(1) [OF assms(1) inv']) (auto simp: self ent' assms(8) intro!: exI [of _ "sha c"])
  then obtain e where found: "LookupLocalByPath B (wt_catalog w') path = Some e" by blast
  have "e = ?e"
    using bolt_laws.LookupLocalByPath_spec(2) [OF assms(1) inv' found] assms(9)
    by (auto simp: self ent' bolt_laws.LookupLocalByPath_spec(1) [OF assms(1) inv] split: if_splits)
  note rm = bolt_laws.handleRemove_effect [where clk = clk, OF assms(1) inv' clk commit found, unfolded this self]
  show ?thesis
    using run idx rm(1,2) by (intro exI [of _ w'] exI [of _ ?e]) (simp add: q [OF inv'] q [OF rm(3)] ent' assms(8) Lookup_def)
qed

theorem index_then_remove_witness:
  "\<exists>w' e. indexFile ref_bolt ex_sha (\<lambda>_. 0) (\<lambda>_. 0) ''/d/a'' ex_watcher = (Ok (), w')
    \<and> GetEntry ref_bolt (wt_catalog w') (arr_of [1]) ex_id = Ok (Some e) \<and> \<not> e_Deleted e
    \<and> Lookup (wt_index (handleRemove ref_bolt (\<lambda>_. 0) ''/d/a'' w')) ex_id = None"
proof -
  have "\<exists>w' e. indexFile ref_bolt ex_sha (\<lambda>_. 0) (\<lambda>_. 0) ''/d/a'' ex_watcher = (Ok (), w')
    \<and> GetEntry ref_bolt (wt_catalog w') (st_selfID (wt_catalog ex_watcher)) (ex_sha [1, 2, 3]) = Ok (Some e)
    \<and> \<not> e_Deleted e \<and> e_LocalPath e = ''/d/a'' \<and> Lookup (wt_index w') (ex_sha [1, 2, 3]) = Some ''/d/a''
    \<and> GetEntry ref_bolt (wt_catalog (handleRemove ref_bolt (\<lambda>_. 0) ''/d/a'' w')) (st_selfID (wt_catalog ex_watcher)) (ex_sha [1, 2, 3])
        = Ok (Some (e\<lparr>e_Deleted := True, e_UpdatedAt := 0\<rparr>))
    \<and> Lookup (wt_index (handleRemove ref_bolt (\<lambda>_. 0) ''/d/a'' w')) (ex_sha [1, 2, 3]) = None"
    by (rule index_then_remove [OF ref.bolt_laws_axioms]) (simp_all add: ex_reach ex_fs_file ascii_path ex_path_free)
  then show ?thesis by auto
qed

text \<open>
  A file that is changed in place stays listed under its old content as well: after it is indexed
  again with other content, this node still has a live entry for the old hash and its index still leads from the old hash
  to the path, which now holds something else.
\<close>

lemma modified_file_stays_listed:
  assumes "bolt_laws B" and "catalog_reach B (wt_catalog w)" and "\<forall>j. json_time_ok (clk j)" and "json_time_ok (mtime path)"
    and "\<forall>db. bkt_commit B db" and "healthy (wt_fs w)" and "fs_files (wt_fs w) path = Some c"
    and "indexFile B sha mtime clk path w = (Ok (), w1)"
    and "w2 = w1\<lparr>wt_fs := (wt_fs w1)\<lparr>fs_files := (fs_files (wt_fs w1))(path \<mapsto> c')\<rparr>\<rparr>" and "sha c' \<noteq> sha c"
  shows "\<exists>w3 e. indexFile B sha mtime clk path w2 = (Ok (), w3)
    \<and> GetEntry B (wt_catalog w3) (st_selfID (wt_catalog w)) (sha c) = Ok (Some e) \<and> \<not> e_Deleted e
    \<and> Lookup (wt_index w3) (sha c) = Some path \<and> fs_files (wt_fs w3) path = Some c'"
proof -
  note inv = bolt_laws.catalog_reach_inv [OF assms(1,2)]
  have clk: "json_time_ok (clk j)" and commit: "bkt_commit B db" for j db using assms(3,5) by blast+
  obtain w' where run: "indexFile B sha mtime clk path w = (Ok (), w')" and inv': "catalog_inv B (wt_catalog w')"
    and ent': "ent B (fst (st_db (wt_catalog w'))) = (\<lambda>a f. if a = st_selfID (wt_catalog w) \<and> f = sha c
      then Some (entry_of sha mtime (st_selfID (wt_catalog w)) (clk 0) path c) else ent B (fst (st_db (wt_catalog w))) a f)"
    and idx: "wt_index w' = (wt_index w)(sha c \<mapsto> path)" and h: "healthy (wt_fs w')"
    by (rule bolt_laws.indexFile_effect [where clk = clk and mtime = mtime and path = path, OF assms(1) inv clk clk assms(4) commit assms(6,7)])
  have w1: "w1 = w'" using run assms(8) by simp
  have w2: "catalog_inv B (wt_catalog w2)" "healthy (wt_fs w2)" "fs_files (wt_fs w2) path = Some c'"
    using inv' h by (simp_all add: assms(9) w1 healthy_def)
  obtain w3 where run3: "indexFile B sha mtime clk path w2 = (Ok (), w3)" and inv3: "catalog_inv B (wt_catalog w3)"
    and ent3: "ent B (fst (st_db (wt_catalog w3))) = (\<lambda>a f. if a = st_selfID (wt_catalog w2) \<and> f = sha c'
      then Some (entry_of sha mtime (st_selfID (wt_catalog w2)) (clk 0) path c') else ent B (fst (st_db (wt_catalog w2))) a f)"
    and idx3: "wt_index w3 = (wt_index w2)(sha c' \<mapsto> path)" and files: "fs_files (wt_fs w3) = fs_files (wt_fs w2)"
    by (rule bolt_laws.indexFile_effect [where clk = clk and mtime = mtime and path = path, OF assms(1) w2(1) clk clk assms(4) commit w2(2,3)])
  show ?thesis
    using assms(10) run3 files w2(3)
    by (simp add: bolt_laws.GetEntry_ent [OF assms(1) inv3] ent3 ent' idx3 idx Lookup_def assms(9) w1)
qed

text \<open>
  C40. No change is lost in the debouncer: from the moment a path is scheduled until a timer of that path
  fires or the path is cancelled, however other events, expiries and firings interleave, some timer of the path is set or
  has expired and is about to index it.
\<close>

theorem scheduled_not_lost:
  assumes "db_reach d" and "(db_step (Some p))\<^sup>*\<^sup>* (schedule now p d) d'"
  shows "\<exists>t. db_path d' t = p \<and> (db_armed d' t \<noteq> None \<or> t \<in> set (db_started d'))"
proof -
  have "debounce_inv (schedule now p d)"
    by (rule debounce_inv_step [where hold = None, OF step_schedule db_reach_inv [OF assms(1)]])
  from debounce.steps_rel [OF assms(2) this] have "due p d'"
    using due_schedule [OF db_reach_inv [OF assms(1)]] by simp
  then show ?thesis by (simp add: due_def)
qed

theorem scheduled_not_lost_witness:
  "\<exists>t. db_path (cancel ''b'' (schedule 5 ''a'' newDebouncer)) t = ''a'' \<and>
    (db_armed (cancel ''b'' (schedule 5 ''a'' newDebouncer)) t \<noteq> None \<or> t \<in> set (db_started (cancel ''b'' (schedule 5 ''a'' newDebouncer))))"
proof (rule scheduled_not_lost)
  show "db_reach newDebouncer" by (simp add: db_reach_def)
  show "(db_step (Some ''a''))\<^sup>*\<^sup>* (schedule 5 ''a'' newDebouncer) (cancel ''b'' (schedule 5 ''a'' newDebouncer))"
    by (rule r_into_rtranclp) (rule step_cancel, simp)
qed

end
