(* ===== verification/Peer_Handler.thy ===== *)
theory Peer_Handler
  imports File_Transfer Catalog_Spec
begin

text \<open>
  The message handler of a peer connection, \<open>internal/protocol/handler.go\<close>, over the catalog store and the file
  sender. Connections are numbered; each has the message channel of its stream and the node id of its peer, which
  is fixed. A nil catalog is \<open>None\<close>. The callback of \<open>SetOnCatalogUpdate\<close> is represented by how often it was called.
\<close>

record 'b handler =
  ha_index :: local_index
  ha_catalog :: "'b store option"
  ha_selfID :: id32
  ha_onUpdate :: bool
  ha_updates :: nat
  ha_conns :: "id32 \<rightharpoonup> nat"
  ha_chans :: "nat \<Rightarrow> chan"
  ha_peer :: "nat \<Rightarrow> id32"
  ha_fs :: fs

definition NewHandler :: "local_index \<Rightarrow> 'b store option \<Rightarrow> id32 \<Rightarrow> (nat \<Rightarrow> chan) \<Rightarrow> (nat \<Rightarrow> id32) \<Rightarrow> fs \<Rightarrow> 'b handler" where
  "NewHandler sender cat selfID chans peers fs = \<lparr>ha_index = sender, ha_catalog = cat, ha_selfID = selfID, ha_onUpdate = False,
     ha_updates = 0, ha_conns = Map.empty, ha_chans = chans, ha_peer = peers, ha_fs = fs\<rparr>"

definition SetOnCatalogUpdate :: "'b handler \<Rightarrow> 'b handler" where
  "SetOnCatalogUpdate h = h\<lparr>ha_onUpdate := True\<rparr>"

definition conn_Send :: "nat \<Rightarrow> envelope \<Rightarrow> 'b handler \<Rightarrow> unit outcome \<times> 'b handler" where
  "conn_Send n env h = (let (r, c) = chan_send (ha_chans h n) env in (r, h\<lparr>ha_chans := (ha_chans h)(n := c)\<rparr>))"

definition registerConn :: "id32 \<Rightarrow> nat \<Rightarrow> 'b handler \<Rightarrow> 'b handler" where
  "registerConn peerID n h = h\<lparr>ha_conns := (ha_conns h)(peerID \<mapsto> n)\<rparr>"

definition unregisterConn :: "id32 \<Rightarrow> 'b handler \<Rightarrow> 'b handler" where
  "unregisterConn peerID h = h\<lparr>ha_conns := (ha_conns h)(peerID := None)\<rparr>"

definition sendCatalogOfferTo :: "'b bolt \<Rightarrow> 'b store \<Rightarrow> nat \<Rightarrow> 'b handler \<Rightarrow> unit outcome \<times> 'b handler" where
  "sendCatalogOfferTo B s n h =
     (case owrap ''list for peer'' (ListForPeer B s (ha_peer h n)) of
        Ok entries \<Rightarrow> conn_Send n (CatalogOffer (EntriesToProto entries)) h
      | r \<Rightarrow> (fail_of r, h))"

text \<open>The loop of \<open>handleCatalogOffer\<close>: files that do not convert are skipped.\<close>

fun accepted :: "catalog_file list \<Rightarrow> entry list" where
  "accepted [] = []"
| "accepted (f # fs) = (case ProtoToEntry f of Ok e \<Rightarrow> e # accepted fs | _ \<Rightarrow> accepted fs)"

definition handleCatalogOffer :: "'b bolt \<Rightarrow> (nat \<Rightarrow> gotime) \<Rightarrow> catalog_file list \<Rightarrow> nat \<Rightarrow> 'b handler \<Rightarrow> unit outcome \<times> 'b handler" where
  "handleCatalogOffer B clk files n h =
     (case ha_catalog h of
        None \<Rightarrow> (Ok (), h)
      | Some s \<Rightarrow>
          (let entries = accepted files;
               (r, s1) = PutPeerEntries B clk s (ha_peer h n) entries;
               h1 = h\<lparr>ha_catalog := Some s1\<rparr>
           in case owrap ''put peer entries'' r of
                Ok _ \<Rightarrow> conn_Send n (CatalogAck (of_nat (length entries)))
                         (if ha_onUpdate h1 then h1\<lparr>ha_updates := Suc (ha_updates h1)\<rparr> else h1)
              | r \<Rightarrow> (r, h1)))"

definition handleFileRequest ::
  "(nat \<Rightarrow> err option) \<Rightarrow> (nat \<Rightarrow> nat option) \<Rightarrow> file_request \<Rightarrow> nat \<Rightarrow> 'b handler \<Rightarrow> unit outcome \<times> 'b handler" where
  "handleFileRequest ctx plan req n h =
     (if length (frq_FileId req) \<noteq> 32
      then conn_Send n (PbError \<lparr>pe_Code = ''bad_request'', pe_Message = ''file_id must be 32 bytes''\<rparr>) h
      else let (r, c, fs) = HandleRequest (ha_index h) ctx plan (arr_of (frq_FileId req)) (ha_chans h n) (ha_fs h)
           in (r, h\<lparr>ha_chans := (ha_chans h)(n := c), ha_fs := fs\<rparr>))"

text \<open>What the surroundings give a run of \<open>Serve\<close> at each round of its loop: the contexts, the sizes the file reads return and the clock.\<close>

record serve_env =
  sv_ctx :: "nat \<Rightarrow> err option"
  sv_reqctx :: "nat \<Rightarrow> nat \<Rightarrow> err option"
  sv_plan :: "nat \<Rightarrow> nat \<Rightarrow> nat option"
  sv_clk :: "nat \<Rightarrow> nat \<Rightarrow> gotime"

definition dispatch :: "'b bolt \<Rightarrow> serve_env \<Rightarrow> nat \<Rightarrow> envelope \<Rightarrow> nat \<Rightarrow> 'b handler \<Rightarrow> unit outcome \<times> 'b handler" where
  "dispatch B E i env n h =
     (case env of
        FileRequest req \<Rightarrow> handleFileRequest (sv_reqctx E i) (sv_plan E i) req n h
      | CatalogOffer files \<Rightarrow> handleCatalogOffer B (sv_clk E i) files n h
      | CatalogAck count \<Rightarrow> (Ok (), h)
      | _ \<Rightarrow> (Err (Message ''handler: unhandled message type''), h))"

section \<open>The loop of a connection\<close>

lemma chan_send_ch_in [simp]: "ch_in (snd (chan_send c env)) = ch_in c"
  by (simp add: chan_send_def split: option.splits nat.splits)

lemma conn_Send_ch_in [simp]: "ch_in (ha_chans (snd (conn_Send n env h)) m) = ch_in (ha_chans h m)"
  by (simp add: conn_Send_def split_beta)

lemma send_chunks_ch_in [simp]: "ch_in (snd (send_chunks ctx plan i rest f c)) = ch_in c"
proof (induction ctx plan i rest f c rule: send_chunks.induct)
  case (1 ctx plan i rest f c)
  have "ch_in (snd (send_chunks ctx plan (Suc i) (drop n rest) f (snd (chan_send c env)))) = ch_in c"
    if "ctx i = None" "plan i = Some k" "rest \<noteq> []" "n = min (max 1 k) (min chunkSize (length rest))"
      "env = FileChunk \<lparr>fc_FileId = list_of f, fc_Data = take n rest, fc_Eof = False\<rparr>" "is_ok (fst (chan_send c env))" for k n env
    using 1 [OF that(1,2,3,4), of "chan_send c env" "fst (chan_send c env)" "snd (chan_send c env)"] that(5,6) by simp
  then show ?case
    by (subst send_chunks.simps) (auto simp: split_beta Let_def split: option.split)
qed

lemma HandleRequest_ch_in [simp]: "ch_in (fst (snd (HandleRequest idx ctx plan f c fs))) = ch_in c"
  by (simp add: HandleRequest_def sendNotFound_def split_beta Let_def split: option.split outcome.split prod.split)

lemma dispatch_ch_in [simp]: "ch_in (ha_chans (snd (dispatch B E i env n h)) m) = ch_in (ha_chans h m)"
  by (auto simp: dispatch_def handleFileRequest_def handleCatalogOffer_def Let_def split_beta split: envelope.splits option.splits outcome.splits)

function serve_loop :: "'b bolt \<Rightarrow> serve_env \<Rightarrow> nat \<Rightarrow> nat \<Rightarrow> 'b handler \<Rightarrow> 'b handler" where
  "serve_loop B E i n h =
     (if sv_ctx E i \<noteq> None then h
      else case ch_in (ha_chans h n) of
             [] \<Rightarrow> h
           | env # envs \<Rightarrow>
               serve_loop B E (Suc i) n (snd (dispatch B E i env n (h\<lparr>ha_chans := (ha_chans h)(n := (ha_chans h n)\<lparr>ch_in := envs\<rparr>)\<rparr>))))"
  by pat_completeness auto
termination
  by (relation "measure (\<lambda>(B, E, i, n, h). length (ch_in (ha_chans h n)))") auto

declare serve_loop.simps [simp del]

definition serve_begin :: "'b bolt \<Rightarrow> nat \<Rightarrow> 'b handler \<Rightarrow> 'b handler" where
  "serve_begin B n h =
     (let h1 = registerConn (ha_peer h n) n h
      in case ha_catalog h1 of None \<Rightarrow> h1 | Some s \<Rightarrow> snd (sendCatalogOfferTo B s n h1))"

definition Serve :: "'b bolt \<Rightarrow> serve_env \<Rightarrow> nat \<Rightarrow> 'b handler \<Rightarrow> 'b handler" where
  "Serve B E n h = unregisterConn (ha_peer h n) (serve_loop B E 0 n (serve_begin B n h))"

text \<open>\<open>BroadcastCatalog\<close>; \<open>order\<close> is the order in which the map of connections is walked.\<close>

fun broadcast :: "'b bolt \<Rightarrow> 'b store \<Rightarrow> nat list \<Rightarrow> 'b handler \<Rightarrow> 'b handler" where
  "broadcast B s [] h = h"
| "broadcast B s (n # ns) h = broadcast B s ns (snd (sendCatalogOfferTo B s n h))"

definition BroadcastCatalog :: "'b bolt \<Rightarrow> nat list \<Rightarrow> 'b handler \<Rightarrow> 'b handler" where
  "BroadcastCatalog B order h = (case ha_catalog h of None \<Rightarrow> h | Some s \<Rightarrow> broadcast B s order h)"

section \<open>What the operations keep\<close>

lemma conn_Send_sel [simp]:
  "ha_conns (snd (conn_Send n env h)) = ha_conns h" "ha_peer (snd (conn_Send n env h)) = ha_peer h"
  "ha_catalog (snd (conn_Send n env h)) = ha_catalog h"
  "m \<noteq> n \<Longrightarrow> ha_chans (snd (conn_Send n env h)) m = ha_chans h m"
  by (simp_all add: conn_Send_def split_beta)

lemma conn_Send_open:
  "ch_room (ha_chans h n) = None \<Longrightarrow>
   conn_Send n env h = (Ok (), h\<lparr>ha_chans := (ha_chans h)(n := (ha_chans h n)\<lparr>ch_out := ch_out (ha_chans h n) @ [env]\<rparr>)\<rparr>)"
  by (simp add: conn_Send_def)

lemma sendCatalogOfferTo_sel [simp]:
  "ha_conns (snd (sendCatalogOfferTo B s n h)) = ha_conns h" "ha_peer (snd (sendCatalogOfferTo B s n h)) = ha_peer h"
  "m \<noteq> n \<Longrightarrow> ha_chans (snd (sendCatalogOfferTo B s n h)) m = ha_chans h m"
  by (simp_all add: sendCatalogOfferTo_def split: outcome.split)

lemma dispatch_sel [simp]:
  "ha_conns (snd (dispatch B E i env n h)) = ha_conns h" "ha_peer (snd (dispatch B E i env n h)) = ha_peer h"
  by (auto simp: dispatch_def handleFileRequest_def handleCatalogOffer_def Let_def split_beta
      split: envelope.split option.split outcome.split)

lemma serve_loop_sel:
  "ha_conns (serve_loop B E i n h) = ha_conns h \<and> ((\<forall>i. sv_ctx E i = None) \<longrightarrow> ch_in (ha_chans (serve_loop B E i n h) n) = [])"
proof (induction B E i n h rule: serve_loop.induct)
  case (1 B E i n h)
  then show ?case by (subst (1 2) serve_loop.simps) (auto split: list.split)
qed

section \<open>An offer and its receipt\<close>

lemma json_time_ok_cut: "json_time_ok t \<Longrightarrow> from_unix (unix t) = t div second * second \<and> json_time_ok (t div second * second)"
  by (auto simp: json_time_ok_def time_min_def time_max_def from_unix_unix)

lemma accepted_offer:
  assumes "\<forall>e \<in> set es. json_time_ok (e_ModTime e)"
  shows "accepted (EntriesToProto es) =
    map (\<lambda>e. e\<lparr>e_ModTime := e_ModTime e div second * second, e_LocalPath := '''', e_UpdatedAt := zero_time\<rparr>) es"
  using assms by (induction es) (auto simp: EntriesToProto_def ProtoToEntry_def EntryToProto_def json_time_ok_cut)

lemma offered_live:
  assumes "\<forall>e \<in> set es. \<not> e_Deleted e"
  shows "(case offered clk p i es f of None \<Rightarrow> f \<notin> e_FileID ` set es | Some e \<Rightarrow> f \<in> e_FileID ` set es \<and> \<not> e_Deleted e)"
  using assms
proof (induction es arbitrary: i)
  case (Cons e es)
  from Cons.prems Cons.IH [of "Suc i"] show ?case by (auto simp: stored_def split: option.split_asm)
qed simp

context bolt_laws
begin

lemma listed_times:
  assumes "catalog_inv B s" and "ent B (fst (st_db s)) a f = Some e"
  shows "json_time_ok (e_ModTime e) \<and> e_OwnerNodeID e = a \<and> e_FileID e = f"
  using assms unfolding catalog_inv_def db_inv_def keyed_def ent_def by (force simp: bind_eq_Some_conv)

lemma offer_received:
  assumes inv: "catalog_inv B s" and "\<And>j. json_time_ok (clk j)" and "\<And>db. bkt_commit B db"
    and "\<forall>e \<in> set es. json_time_ok (e_ModTime e) \<and> \<not> e_Deleted e"
    and "ha_catalog h = Some s" and "ch_room (ha_chans h n) = None" and "ha_peer h n = a"
  shows "\<exists>h' s'. handleCatalogOffer B clk (EntriesToProto es) n h = (Ok (), h') \<and> ha_catalog h' = Some s' \<and> catalog_inv B s'
    \<and> (\<forall>f. (\<exists>e. ent B (fst (st_db s')) a f = Some e \<and> \<not> e_Deleted e) \<longleftrightarrow> f \<in> e_FileID ` set es)
    \<and> (\<forall>x f. x \<noteq> a \<longrightarrow> ent B (fst (st_db s')) x f = ent B (fst (st_db s)) x f)
    \<and> last (ch_out (ha_chans h' n)) = CatalogAck (of_nat (length es))"
proof -
  let ?es = "accepted (EntriesToProto es)"
  have es: "?es = map (\<lambda>e. e\<lparr>e_ModTime := e_ModTime e div second * second, e_LocalPath := '''', e_UpdatedAt := zero_time\<rparr>) es"
    using assms(4) by (intro accepted_offer) simp
  have ok: "fst (PutPeerEntries B clk s a ?es) = Ok ()"
    using assms(4) by (subst PutPeerEntries_ok_iff [OF inv assms(2,3)]) (auto simp: es json_time_ok_cut)
  obtain s' where s': "PutPeerEntries B clk s a ?es = (Ok (), s')" using ok by (metis prod.collapse)
  note ent' = PutPeerEntries_ent [OF ok]
  have "f \<in> e_FileID ` set ?es \<longleftrightarrow> f \<in> e_FileID ` set es" for f by (force simp: es image_iff)
  moreover have "\<forall>e \<in> set ?es. \<not> e_Deleted e" using assms(4) by (auto simp: es)
  ultimately have live: "(\<exists>e. offered clk a 0 ?es f = Some e \<and> \<not> e_Deleted e) \<longleftrightarrow> f \<in> e_FileID ` set es" for f
    using offered_live [where es = ?es and clk = clk and p = a and i = 0 and f = f] by (auto split: option.split_asm)
  have len: "length ?es = length es" by (simp add: es)
  define h1 where "h1 = (if ha_onUpdate h then h\<lparr>ha_catalog := Some s', ha_updates := Suc (ha_updates h)\<rparr> else h\<lparr>ha_catalog := Some s'\<rparr>)"
  have h1: "ha_catalog h1 = Some s'" "ha_chans h1 = ha_chans h" by (simp_all add: h1_def)
  have "handleCatalogOffer B clk (EntriesToProto es) n h = conn_Send n (CatalogAck (of_nat (length es))) h1"
    using assms(5,7) by (simp add: handleCatalogOffer_def s' len h1_def)
  moreover have "catalog_inv B s'" using PutPeerEntries_inv [OF inv, where clk = clk and p = a and es = ?es] by (simp add: s')
  ultimately show ?thesis using live ent' assms(6) h1 by (simp add: s' conn_Send_open)
qed

text \<open>An offer that one node sends and another dispatches, on the tables of both.\<close>

lemma offer_exchanged:
  assumes inv: "catalog_inv B sa" "catalog_inv B sb" and commit: "\<And>db. bkt_commit B db" and clk: "\<And>j. json_time_ok (sv_clk E i j)"
    and ha: "ha_peer ha n = b" "ch_room (ha_chans ha n) = None"
    and hb: "ha_catalog hb = Some sb" "ha_peer hb m = a" "ch_room (ha_chans hb m) = None"
  obtains files hb' sb' where "ch_out (ha_chans (snd (sendCatalogOfferTo B sa n ha)) n) = ch_out (ha_chans ha n) @ [CatalogOffer files]"
    and "dispatch B E i (CatalogOffer files) m hb = (Ok (), hb')" and "ha_catalog hb' = Some sb'" and "catalog_inv B sb'"
    and "last (ch_out (ha_chans hb' m)) = CatalogAck (of_nat (length files))"
    and "\<forall>f. (\<exists>e. ent B (fst (st_db sb')) a f = Some e \<and> \<not> e_Deleted e) \<longleftrightarrow>
           (\<exists>x e. x \<noteq> b \<and> ent B (fst (st_db sa)) x f = Some e \<and> \<not> e_Deleted e)"
    and "\<forall>x f. x \<noteq> a \<longrightarrow> ent B (fst (st_db sb')) x f = ent B (fst (st_db sb)) x f"
proof -
  note ids = listed_times [OF inv(1)]
  obtain es where es: "ListForPeer B sa b = Ok es"
    and set: "set es = {e. \<not> e_Deleted e \<and> ent B (fst (st_db sa)) (e_OwnerNodeID e) (e_FileID e) = Some e \<and> e_OwnerNodeID e \<noteq> b}"
    by (rule ListForPeer_spec [OF inv(1)])
  have live: "\<forall>e \<in> set es. json_time_ok (e_ModTime e) \<and> \<not> e_Deleted e" using ids by (auto simp: set)
  have files: "f \<in> e_FileID ` set es \<longleftrightarrow> (\<exists>x e. x \<noteq> b \<and> ent B (fst (st_db sa)) x f = Some e \<and> \<not> e_Deleted e)" for f
  proof
    assume "\<exists>x e. x \<noteq> b \<and> ent B (fst (st_db sa)) x f = Some e \<and> \<not> e_Deleted e"
    then obtain x e where e: "x \<noteq> b" "ent B (fst (st_db sa)) x f = Some e" "\<not> e_Deleted e" by blast
    then show "f \<in> e_FileID ` set es" using ids [OF e(2)] by (force simp: set)
  qed (auto simp: set)
  from offer_received [where clk = "sv_clk E i", OF inv(2) clk commit live hb(1,3,2)]
  obtain h' s' where rcv: "handleCatalogOffer B (sv_clk E i) (EntriesToProto es) m hb = (Ok (), h')"
    and s': "ha_catalog h' = Some s'" "catalog_inv B s'" "last (ch_out (ha_chans h' m)) = CatalogAck (of_nat (length es))"
    and new: "\<forall>f. (\<exists>e. ent B (fst (st_db s')) a f = Some e \<and> \<not> e_Deleted e) \<longleftrightarrow> f \<in> e_FileID ` set es"
    and old: "\<forall>x f. x \<noteq> a \<longrightarrow> ent B (fst (st_db s')) x f = ent B (fst (st_db sb)) x f"
    by blast
  show thesis
  proof (rule that [of "EntriesToProto es" h' s'])
    show "ch_out (ha_chans (snd (sendCatalogOfferTo B sa n ha)) n) = ch_out (ha_chans ha n) @ [CatalogOffer (EntriesToProto es)]"
      using ha by (simp add: sendCatalogOfferTo_def es conn_Send_open)
    show "last (ch_out (ha_chans h' m)) = CatalogAck (of_nat (length (EntriesToProto es)))"
      using s'(3) by (simp add: EntriesToProto_def)
  qed (use rcv s' new old files in \<open>auto simp: dispatch_def\<close>)
qed

end

section \<open>Broadcast\<close>

lemma broadcast_other: "n \<notin> set ns \<Longrightarrow> ha_chans (broadcast B s ns h) n = ha_chans h n"
  by (induction ns arbitrary: h) auto

lemma broadcast_sends:
  assumes "distinct ns" and "n \<in> set ns" and "ch_room (ha_chans h n) = None" and "ListForPeer B s (ha_peer h n) = Ok es"
  shows "ch_out (ha_chans (broadcast B s ns h) n) = ch_out (ha_chans h n) @ [CatalogOffer (EntriesToProto es)]"
  using assms
proof (induction ns arbitrary: h)
  case (Cons m ns)
  show ?case
  proof (cases "m = n")
    case True
    then show ?thesis using Cons.prems by (simp add: broadcast_other sendCatalogOfferTo_def conn_Send_open)
  next
    case False
    then show ?thesis using Cons.prems Cons.IH [of "snd (sendCatalogOfferTo B s m h)"] by simp
  qed
qed simp

section \<open>Properties\<close>

definition ex_serve :: serve_env where
  "ex_serve = \<lparr>sv_ctx = (\<lambda>_. None), sv_reqctx = (\<lambda>_ _. None), sv_plan = (\<lambda>_ _. Some 1), sv_clk = (\<lambda>_ _. 0)\<rparr>"

abbreviation ex_handler :: "ref_bucket store \<Rightarrow> byte \<Rightarrow> envelope list \<Rightarrow> ref_bucket handler" where
  "ex_handler s peer msgs \<equiv> NewHandler NewLocalIndex (Some s) (st_selfID s) (\<lambda>_. ex_chan msgs) (\<lambda>_. arr_of [peer]) ex_fs"

lemma ex_handler_sel [simp]:
  "ha_catalog (NewHandler i c s ch p fs) = c" "ha_chans (NewHandler i c s ch p fs) = ch" "ha_peer (NewHandler i c s ch p fs) = p"
  "ha_conns (NewHandler i c s ch p fs) = Map.empty"
  by (simp_all add: NewHandler_def)

text \<open>
  C8. The catalogs of two nodes after one has offered its own to the other: the offer is sent and
  accepted, and then the receiver lists under the sender exactly the files that the sender has a live entry for from
  anyone but the receiver, while every other owner's entries at the receiver are as before. The receiver acknowledges the
  number of files.
\<close>

theorem catalog_exchange:
  assumes "bolt_laws B" and "catalog_reach B sa" and "catalog_reach B sb" and "\<forall>db. bkt_commit B db" and "\<forall>j. json_time_ok (sv_clk E i j)"
    and "ha_peer ha n = b" and "ch_room (ha_chans ha n) = None"
    and "ha_catalog hb = Some sb" and "ha_peer hb m = a" and "ch_room (ha_chans hb m) = None"
  shows "\<exists>offer hb' sb' count. ch_out (ha_chans (snd (sendCatalogOfferTo B sa n ha)) n) = ch_out (ha_chans ha n) @ [offer]
    \<and> dispatch B E i offer m hb = (Ok (), hb') \<and> ha_catalog hb' = Some sb' \<and> last (ch_out (ha_chans hb' m)) = CatalogAck count
    \<and> (\<forall>f. (\<exists>e. GetEntry B sb' a f = Ok (Some e) \<and> \<not> e_Deleted e) \<longleftrightarrow>
           (\<exists>x e. x \<noteq> b \<and> GetEntry B sa x f = Ok (Some e) \<and> \<not> e_Deleted e))
    \<and> (\<forall>x f. x \<noteq> a \<longrightarrow> GetEntry B sb' x f = GetEntry B sb x f)"
proof -
  note inv = bolt_laws.catalog_reach_inv [OF assms(1,2)] bolt_laws.catalog_reach_inv [OF assms(1,3)]
  have clk: "json_time_ok (sv_clk E i j)" and commit: "bkt_commit B db" for j db using assms(4,5) by blast+
  obtain files hb' sb' where x: "ch_out (ha_chans (snd (sendCatalogOfferTo B sa n ha)) n) = ch_out (ha_chans ha n) @ [CatalogOffer files]"
    "dispatch B E i (CatalogOffer files) m hb = (Ok (), hb')" "ha_catalog hb' = Some sb'"
    and inv': "catalog_inv B sb'" and ack: "last (ch_out (ha_chans hb' m)) = CatalogAck (of_nat (length files))"
    and live: "\<forall>f. (\<exists>e. ent B (fst (st_db sb')) a f = Some e \<and> \<not> e_Deleted e) \<longleftrightarrow>
           (\<exists>x e. x \<noteq> b \<and> ent B (fst (st_db sa)) x f = Some e \<and> \<not> e_Deleted e)"
    and rest: "\<forall>x f. x \<noteq> a \<longrightarrow> ent B (fst (st_db sb')) x f = ent B (fst (st_db sb)) x f"
    by (rule bolt_laws.offer_exchanged [OF assms(1) inv commit clk assms(6-10)])
  note q = bolt_laws.GetEntry_ent [OF assms(1)]
  have "\<forall>f. (\<exists>e. GetEntry B sb' a f = Ok (Some e) \<and> \<not> e_Deleted e) \<longleftrightarrow>
      (\<exists>x e. x \<noteq> b \<and> GetEntry B sa x f = Ok (Some e) \<and> \<not> e_Deleted e)"
    unfolding q [OF inv(1)] q [OF inv'] using live by simp
  moreover have "\<forall>x f. x \<noteq> a \<longrightarrow> GetEntry B sb' x f = GetEntry B sb x f"
    unfolding q [OF inv(2)] q [OF inv'] using rest by simp
  ultimately show ?thesis using x ack by blast
qed

theorem catalog_exchange_witness:
  "\<exists>offer hb' sb'. ch_out (ha_chans (snd (sendCatalogOfferTo ref_bolt ex_store1 0 (ex_handler ex_store1 2 []))) 0) = [offer]
    \<and> dispatch ref_bolt ex_serve 0 offer 3 (ex_handler ex_store 1 []) = (Ok (), hb') \<and> ha_catalog hb' = Some sb'
    \<and> (\<exists>e. GetEntry ref_bolt sb' (arr_of [1]) (arr_of [7]) = Ok (Some e) \<and> \<not> e_Deleted e)"
proof -
  have "(\<exists>x e. x \<noteq> arr_of [2] \<and> GetEntry ref_bolt ex_store1 x (arr_of [7]) = Ok (Some e) \<and> \<not> e_Deleted e)"
    using ex_get1 by force
  moreover note catalog_exchange [OF ref.bolt_laws_axioms ex_reach1 ex_reach, where E = ex_serve and i = 0 and n = 0 and m = 3
      and ha = "ex_handler ex_store1 2 []" and hb = "ex_handler ex_store 1 []" and a = "arr_of [1]" and b = "arr_of [2]"]
  ultimately show ?thesis by (fastforce simp: ex_serve_def)
qed

text \<open>
  C39. Serving a connection ends once the peer's messages are used up: \<open>Serve\<close> returns, with every
  message read although some of them were refused, and the peer's registration removed.
\<close>

theorem serve_drains:
  assumes "\<forall>i. sv_ctx E i = None"
  shows "ch_in (ha_chans (Serve B E n h) n) = [] \<and> ha_conns (Serve B E n h) = (ha_conns h)(ha_peer h n := None)"
  using serve_loop_sel [of B E 0 n "serve_begin B n h"] assms
  by (auto simp: Serve_def unregisterConn_def serve_begin_def registerConn_def Let_def split: option.split)

theorem serve_drains_witness:
  "ch_in (ha_chans (Serve ref_bolt ex_serve 2 (ex_handler ex_store 1 [RelayError [], FileRequest \<lparr>frq_FileId = []\<rparr>])) 2) = []"
  by (rule serve_drains [THEN conjunct1]) (simp add: ex_serve_def)

text \<open>
  A broadcast reaches every registered connection: in whichever order the connections are walked
  and whichever other sends fail, a connection that can be written to is sent one offer, and it holds exactly what its
  own peer is to be offered.
\<close>

lemma broadcast_reaches_all:
  assumes "ha_catalog h = Some s" and "distinct order" and "set order = ran (ha_conns h)"
    and "ha_conns h p = Some n" and "ch_room (ha_chans h n) = None" and "ListForPeer B s (ha_peer h n) = Ok es"
  shows "ch_out (ha_chans (BroadcastCatalog B order h) n) = ch_out (ha_chans h n) @ [CatalogOffer (EntriesToProto es)]"
  using broadcast_sends [OF assms(2) _ assms(5,6)] assms(1,3,4) by (auto simp: BroadcastCatalog_def intro: ranI)

end
