(* ===== verification/Download.thy ===== *)
theory Download
  imports File_Transfer Catalog "HOL-Library.Multiset"
begin

text \<open>
  Catalog-aware downloads, \<open>internal/download/download.go\<close>: the owners of a file are tried, most recently
  seen first, until one serves it; the verified file is renamed to the name in the catalog if that is free.

  The interfaces \<open>CatalogReader\<close>, \<open>PeerDialer\<close> and \<open>FileIndexer\<close> are the fields of the record \<open>downloader\<close>
  and the local index; \<open>sort.Slice\<close> promises a sorted permutation and nothing about ties, so the order it gives
  is a field too, with \<open>sorts\<close> as its contract. Dialling, the context and the random file names are given per
  attempt.
\<close>

record downloader =
  dl_getOwners :: "id32 \<Rightarrow> owner_hint list outcome"
  dl_getEntry :: "id32 \<Rightarrow> id32 \<Rightarrow> entry option outcome"
  dl_dial :: "nat \<Rightarrow> id32 \<Rightarrow> chan outcome"
  dl_sha :: "bytes \<Rightarrow> id32"
  dl_sharedDir :: string
  dl_selfID :: id32
  dl_sort :: "owner_hint list \<Rightarrow> owner_hint list"
  dl_ctx :: "nat \<Rightarrow> nat \<Rightarrow> err option"
  dl_rnds :: "nat \<Rightarrow> string list"

definition sorts :: "(owner_hint list \<Rightarrow> owner_hint list) \<Rightarrow> bool" where
  "sorts srt \<longleftrightarrow> (\<forall>hs. mset (srt hs) = mset hs \<and> sorted_wrt (\<lambda>a b. h_SeenAt b \<le> h_SeenAt a) (srt hs))"

abbreviation ErrNoAvailableOwner :: err where
  "ErrNoAvailableOwner \<equiv> Sentinel ''download: no available owner for file''"

definition filterSelf :: "owner_hint list \<Rightarrow> id32 \<Rightarrow> owner_hint list" where
  "filterSelf owners selfID = filter (\<lambda>o'. h_NodeID o' \<noteq> selfID) owners"

definition renameToOriginal :: "downloader \<Rightarrow> id32 \<Rightarrow> id32 \<Rightarrow> string \<Rightarrow> fs \<Rightarrow> string \<times> fs" where
  "renameToOriginal D fileID ownerNodeID hashPath fs =
     (case dl_getEntry D ownerNodeID fileID of
        Ok (Some entry) \<Rightarrow>
          if e_Name entry = '''' then (hashPath, fs)
          else let safeName = filepath_Base (e_Name entry)
               in if safeName = ''.'' \<or> safeName = ''/'' then (hashPath, fs)
                  else let target = filepath_Join (dl_sharedDir D) safeName;
                           (st, fs1) = os_Stat target fs
                       in if is_ok st then (hashPath, fs1)
                          else let (rn, fs2) = os_Rename hashPath target fs1
                               in if is_ok rn then (target, fs2) else (hashPath, fs2)
      | _ \<Rightarrow> (hashPath, fs))"

definition tryOwner ::
  "downloader \<Rightarrow> nat \<Rightarrow> id32 \<Rightarrow> id32 \<Rightarrow> local_index \<times> fs \<Rightarrow> string outcome \<times> local_index \<times> fs" where
  "tryOwner D i fileID ownerNodeID = (\<lambda>(idx, fs).
     case owrap ''dial'' (dl_dial D i ownerNodeID) of
       Ok conn \<Rightarrow>
         (case RequestFile (dl_sha D) (dl_ctx D i) fileID (dl_sharedDir D) (dl_rnds D i) conn fs of
            (Ok destPath, _, fs1) \<Rightarrow>
              (let (finalPath, fs2) = renameToOriginal D fileID ownerNodeID destPath fs1;
                   (_, idx', fs3) = Add (dl_sha D) finalPath idx fs2
               in (Ok finalPath, idx', fs3))
          | (r, _, fs1) \<Rightarrow> (owrap ''request file'' r, idx, fs1))
     | r \<Rightarrow> (fail_of r, idx, fs))"

fun try_owners ::
  "downloader \<Rightarrow> nat \<Rightarrow> id32 \<Rightarrow> owner_hint list \<Rightarrow> local_index \<times> fs \<Rightarrow> string outcome \<times> local_index \<times> fs" where
  "try_owners D i fileID [] (idx, fs) = (Err (Wrap ''last error'' ErrNoAvailableOwner), idx, fs)"
| "try_owners D i fileID (owner # owners) (idx, fs) =
     (case tryOwner D i fileID (h_NodeID owner) (idx, fs) of
        (Err e, idx', fs') \<Rightarrow> try_owners D (Suc i) fileID owners (idx', fs')
      | res \<Rightarrow> res)"

definition Download :: "downloader \<Rightarrow> id32 \<Rightarrow> local_index \<times> fs \<Rightarrow> string outcome \<times> local_index \<times> fs" where
  "Download D fileID = (\<lambda>(idx, fs).
     case owrap ''download get owners'' (dl_getOwners D fileID) of
       Ok found \<Rightarrow>
         (let owners = filterSelf found (dl_selfID D)
          in if owners = [] then (Err ErrNoAvailableOwner, idx, fs)
             else try_owners D 0 fileID (dl_sort D owners) (idx, fs))
     | r \<Rightarrow> (fail_of r, idx, fs))"

section \<open>One attempt\<close>

lemma Add_preserved:
  "fs_files (snd (snd (Add sha p idx fs))) = fs_files fs" "fs_dirs (snd (snd (Add sha p idx fs))) = fs_dirs fs"
  "fs_fail (snd (snd (Add sha p idx fs))) = fs_fail fs"
  by (auto simp: Add_def hashFile_def split_beta Let_def split: outcome.splits)

text \<open>
  The rename stays in the shared directory: the name is a plain one or \<open>..\<close>, whose target is a directory
  and is refused. It moves the file to a free name or leaves it alone.
\<close>

lemma base_name_cases:
  assumes "filepath_Base p \<noteq> ''/''" and "filepath_Base p \<noteq> ''.''" and "p \<noteq> ''''"
  shows "plain_name (filepath_Base p) \<or> filepath_Base p = ''..''"
proof -
  have "filepath_Base p \<noteq> ''''"
  proof (cases "dropWhile (\<lambda>c. c = sep) (rev p)")
    case Nil
    with assms(1,3) show ?thesis by (simp add: filepath_Base_def)
  next
    case (Cons c cs)
    with hd_dropWhile [of "\<lambda>c. c = sep" "rev p"] have "c \<noteq> sep" by simp
    with Cons assms(3) show ?thesis by (simp add: filepath_Base_def)
  qed
  moreover have "sep \<notin> set (filepath_Base p)" using filepath_Base_no_sep [of p] assms(1) by blast
  ultimately show ?thesis using assms(2) by (simp add: plain_name_def)
qed

lemma renameToOriginal_effect:
  assumes "abs_dir (dl_sharedDir D)" and "fs_dirs fs (filepath_Join (dl_sharedDir D) ''..'')"
    and "renameToOriginal D fileID ownerID hp fs = (p, fs')" and "fs_files fs hp = Some content"
  shows "fs_dirs fs' = fs_dirs fs \<and> fs_fail fs' = fs_fail fs \<and>
    (p = hp \<and> fs_files fs' = fs_files fs \<or>
     (\<exists>name. plain_name name \<and> p = dl_sharedDir D @ [sep] @ name \<and> fs_files fs' = (fs_files fs)(hp := None, p \<mapsto> content) \<and>
        (healthy fs \<longrightarrow> fs_files fs p = None)))"
proof (cases "\<exists>e. dl_getEntry D ownerID fileID = Ok (Some e) \<and> e_Name e \<noteq> ''''
    \<and> filepath_Base (e_Name e) \<noteq> ''.'' \<and> filepath_Base (e_Name e) \<noteq> ''/''")
  case False
  with assms(3) show ?thesis
    by (auto simp: renameToOriginal_def Let_def split: outcome.splits option.splits if_splits)
next
  case True
  then obtain e where e: "dl_getEntry D ownerID fileID = Ok (Some e)" "e_Name e \<noteq> ''''"
    "filepath_Base (e_Name e) \<noteq> ''.''" "filepath_Base (e_Name e) \<noteq> ''/''" by blast
  let ?name = "filepath_Base (e_Name e)"
  let ?t = "filepath_Join (dl_sharedDir D) ?name"
  let ?fs1 = "snd (os_Stat ?t fs)"
  note step = assms(3) [unfolded renameToOriginal_def e(1)]
  show ?thesis
  proof (cases "is_ok (fst (os_Stat ?t fs))")
    case True
    with step e show ?thesis by (auto simp: split_beta Let_def)
  next
    case stat: False
    let ?rn = "os_Rename hp ?t ?fs1"
    have p: "p = (if is_ok (fst ?rn) then ?t else hp)" and fs': "fs' = snd ?rn"
      using step e stat by (auto simp: split_beta Let_def split: if_splits)
    show ?thesis
    proof (cases rule: os_Rename_cases [of ?fs1 hp ?t])
      case (failed er)
      then show ?thesis by (simp add: p fs')
    next
      case (performed c)
      then have c: "c = content" and nd: "\<not> fs_dirs fs ?t" using assms(4) by simp_all
      with assms(2) base_name_cases [OF e(4,3,2)] have pn: "plain_name ?name" by auto
      have t: "?t = dl_sharedDir D @ [sep] @ ?name" by (rule filepath_Join_plain [OF assms(1) pn])
      have "fs_files fs ?t = None" if "healthy fs"
        using that stat by (auto simp: os_Stat_def syscall_def healthy_def Let_def split: option.splits if_splits)
      with performed c pn t show ?thesis by (simp add: p fs')
    qed
  qed
qed

definition hash_path :: "downloader \<Rightarrow> id32 \<Rightarrow> string" where
  "hash_path D fileID = dl_sharedDir D @ [sep] @ hex_encode (list_of fileID)"

text \<open>The shared directory is an absolute path, and the one above it is a directory.\<close>

definition shared_ok :: "downloader \<Rightarrow> fs \<Rightarrow> bool" where
  "shared_ok D fs \<longleftrightarrow> abs_dir (dl_sharedDir D) \<and> fs_dirs fs (filepath_Join (dl_sharedDir D) ''..'')"

text \<open>What a successful attempt leaves: the verified file in the shared directory, nothing else changed.\<close>

definition served :: "downloader \<Rightarrow> id32 \<Rightarrow> string \<Rightarrow> fs \<Rightarrow> fs \<Rightarrow> bool" where
  "served D fileID p fs fs' \<longleftrightarrow>
     (\<exists>name content. plain_name name \<and> p = dl_sharedDir D @ [sep] @ name \<and> dl_sha D content = fileID \<and>
        fs_files fs' p = Some content \<and>
        (\<forall>q. q \<noteq> p \<longrightarrow> q \<noteq> hash_path D fileID \<longrightarrow> fs_files fs' q = fs_files fs q) \<and>
        (healthy fs \<longrightarrow> p \<noteq> hash_path D fileID \<longrightarrow> fs_files fs p = None))"

lemma served_cong: "fs_files a = fs_files b \<Longrightarrow> served D fileID p fs a = served D fileID p fs b"
  by (simp add: served_def)

lemma tryOwner_effect:
  assumes sh: "shared_ok D fs" and res: "tryOwner D i fileID ownerID (idx, fs) = (r, idx', fs')"
    and dial: "dl_dial D i ownerID \<noteq> Panic"
  shows "fs_dirs fs' = fs_dirs fs \<and> fs_fail fs' = fs_fail fs \<and> r \<noteq> Panic \<and>
    (\<forall>p. r = Ok p \<longrightarrow> served D fileID p fs fs') \<and>
    (\<forall>e. r = Err e \<longrightarrow> idx' = idx \<and> (healthy fs \<longrightarrow> fs_files fs' = fs_files fs))"
proof (cases "dl_dial D i ownerID")
  case Panic
  with dial show ?thesis by simp
next
  case (Err e)
  with res show ?thesis by (auto simp: tryOwner_def)
next
  case (Ok conn)
  let ?d = "dl_sharedDir D"
  from sh have d: "abs_dir ?d" and up: "fs_dirs fs (filepath_Join ?d ''..'')" by (simp_all add: shared_ok_def)
  obtain r1 c1 fs1 where rf: "RequestFile (dl_sha D) (dl_ctx D i) fileID ?d (dl_rnds D i) conn fs = (r1, c1, fs1)"
    by (cases "RequestFile (dl_sha D) (dl_ctx D i) fileID ?d (dl_rnds D i) conn fs") auto
  from RequestFile_preserved [of "dl_sha D" "dl_ctx D i" fileID ?d "dl_rnds D i" conn fs]
  have keep1: "fs_dirs fs1 = fs_dirs fs" "fs_fail fs1 = fs_fail fs" by (simp_all add: rf)
  note step = res [unfolded tryOwner_def Ok]
  show ?thesis
  proof (cases "\<exists>p. r1 = Ok p")
    case False
    with RequestFile_effect [OF d rf] obtain e where "r1 = Err e" "healthy fs \<longrightarrow> fs_files fs1 = fs_files fs" by auto
    with step rf keep1 show ?thesis by auto
  next
    case True
    with RequestFile_effect [OF d rf] obtain content where r1: "r1 = Ok (hash_path D fileID)"
      and sha: "dl_sha D content = fileID" and f1: "fs_files fs1 = (fs_files fs)(hash_path D fileID \<mapsto> content)"
      by (auto simp: hash_path_def)
    obtain p fs2 where ren: "renameToOriginal D fileID ownerID (hash_path D fileID) fs1 = (p, fs2)"
      by (cases "renameToOriginal D fileID ownerID (hash_path D fileID) fs1")
    have fs3: "r = Ok p" "fs' = snd (snd (Add (dl_sha D) p idx fs2))"
      using step rf r1 ren by (auto simp: split_beta Let_def)
    have h1: "healthy fs1 = healthy fs" using keep1 by (simp add: healthy_def)
    from renameToOriginal_effect [OF d _ ren, of content] up f1 keep1
    have eff: "fs_dirs fs2 = fs_dirs fs" "fs_fail fs2 = fs_fail fs" "p = hash_path D fileID \<and> fs_files fs2 = fs_files fs1 \<or>
       (\<exists>name. plain_name name \<and> p = ?d @ [sep] @ name \<and> fs_files fs2 = (fs_files fs1)(hash_path D fileID := None, p \<mapsto> content) \<and>
        (healthy fs \<longrightarrow> fs_files fs1 p = None))"
      by (auto simp: h1)
    have "served D fileID p fs fs2"
      using eff(3)
    proof (elim disjE exE conjE)
      assume "p = hash_path D fileID" "fs_files fs2 = fs_files fs1"
      then show ?thesis
        using f1 sha hex_plain_name [of fileID] by (auto simp: served_def hash_path_def)
    next
      fix name
      assume n: "plain_name name" "p = ?d @ [sep] @ name"
        and f2: "fs_files fs2 = (fs_files fs1)(hash_path D fileID := None, p \<mapsto> content)"
        and free: "healthy fs \<longrightarrow> fs_files fs1 p = None"
      have "healthy fs \<longrightarrow> p \<noteq> hash_path D fileID \<longrightarrow> fs_files fs p = None" using free f1 by auto
      with n f2 f1 sha show ?thesis unfolding served_def by (intro exI [of _ name] exI [of _ content]) auto
    qed
    then have "served D fileID p fs fs'" using served_cong [of fs' fs2] by (simp add: fs3 Add_preserved)
    with eff(1,2) show ?thesis by (simp add: fs3 Add_preserved)
  qed
qed


section \<open>The sequence of attempts\<close>

definition verified :: "downloader \<Rightarrow> id32 \<Rightarrow> string \<Rightarrow> fs \<Rightarrow> bool" where
  "verified D fileID p fs' \<longleftrightarrow>
     (\<exists>name content. plain_name name \<and> p = dl_sharedDir D @ [sep] @ name \<and> dl_sha D content = fileID \<and>
        fs_files fs' p = Some content)"

lemma served_verified: "served D fileID p fs fs' \<Longrightarrow> verified D fileID p fs'"
  by (auto simp: served_def verified_def)

lemma served_from: "fs_files fs1 = fs_files fs \<Longrightarrow> healthy fs1 = healthy fs \<Longrightarrow> served D fileID p fs1 fs' = served D fileID p fs fs'"
  by (simp add: served_def)

lemma shared_ok_from: "fs_dirs fs1 = fs_dirs fs \<Longrightarrow> shared_ok D fs1 = shared_ok D fs"
  by (simp add: shared_ok_def)

lemma try_owners_effect:
  assumes "shared_ok D fs" and "\<forall>i n. dl_dial D i n \<noteq> Panic" and "try_owners D i fileID hs (idx, fs) = (r, idx', fs')"
  shows "r \<noteq> Panic \<and> (\<forall>p. r = Ok p \<longrightarrow> verified D fileID p fs' \<and> (healthy fs \<longrightarrow> served D fileID p fs fs')) \<and>
    (\<forall>e. r = Err e \<longrightarrow> errors_is e ''download: no available owner for file'' \<and> idx' = idx \<and> (healthy fs \<longrightarrow> fs_files fs' = fs_files fs))"
  using assms(1,3)
proof (induction hs arbitrary: i fs)
  case Nil
  then show ?case by auto
next
  case (Cons h hs)
  obtain r1 idx1 fs1 where t: "tryOwner D i fileID (h_NodeID h) (idx, fs) = (r1, idx1, fs1)"
    by (cases "tryOwner D i fileID (h_NodeID h) (idx, fs)") auto
  note eff = tryOwner_effect [OF Cons.prems(1) t assms(2) [rule_format]]
  show ?case
  proof (cases r1)
    case (Ok p)
    with Cons.prems(2) t eff show ?thesis by (auto dest: served_verified)
  next
    case Panic
    with eff show ?thesis by simp
  next
    case (Err e)
    with eff have keep: "idx1 = idx" "fs_dirs fs1 = fs_dirs fs" "healthy fs1 = healthy fs" "healthy fs \<longrightarrow> fs_files fs1 = fs_files fs"
      by (auto simp: healthy_def)
    with Cons.IH [of fs1 "Suc i"] Cons.prems t Err show ?thesis
      using shared_ok_from [OF keep(2), of D] served_from [of fs1 fs] by auto
  qed
qed

text \<open>An owner who answers, at whatever attempt the turn comes to it.\<close>

definition good_owner :: "downloader \<Rightarrow> id32 \<Rightarrow> id32 \<Rightarrow> bool" where
  "good_owner D fileID n \<longleftrightarrow> (\<forall>i. dl_ctx D i = (\<lambda>_. None) \<and> (\<exists>c resp cs rest. dl_dial D i n = Ok c \<and> ch_room c = None \<and>
     ch_in c = FileResponse resp # cs @ last_chunk fileID # rest \<and> \<not> frs_NotFound resp \<and>
     list_all (body_chunk fileID) cs \<and> dl_sha D (concat (map chunk_data cs)) = fileID))"

text \<open>The shared directory can take the file: it exists, every attempt finds a free temporary name, no directory is in the way.\<close>

definition room_for :: "downloader \<Rightarrow> id32 \<Rightarrow> fs \<Rightarrow> bool" where
  "room_for D fileID fs \<longleftrightarrow> healthy fs \<and> fs_dirs fs (dl_sharedDir D) \<and> \<not> fs_dirs fs (hash_path D fileID) \<and>
     (\<forall>i. \<exists>r \<in> set (dl_rnds D i). \<not> exists_path fs (dl_sharedDir D @ [sep] @ ''.kin-tmp-'' @ r))"

lemma tryOwner_good:
  assumes "shared_ok D fs" and "room_for D fileID fs" and "good_owner D fileID n"
  shows "\<exists>p. fst (tryOwner D i fileID n (idx, fs)) = Ok p"
proof -
  from assms(3) obtain c resp cs rest where c: "dl_dial D i n = Ok c" "ch_room c = None"
    "ch_in c = FileResponse resp # cs @ last_chunk fileID # rest" "\<not> frs_NotFound resp"
    "list_all (body_chunk fileID) cs" "dl_sha D (concat (map chunk_data cs)) = fileID" and ctx: "dl_ctx D i = (\<lambda>_. None)"
    unfolding good_owner_def by blast
  from assms(2) obtain r where r: "r \<in> set (dl_rnds D i)" "\<not> exists_path fs (dl_sharedDir D @ [sep] @ ''.kin-tmp-'' @ r)"
    unfolding room_for_def by blast
  from assms(1,2) have d: "abs_dir (dl_sharedDir D)" "healthy fs" "fs_dirs fs (dl_sharedDir D)"
    "\<not> fs_dirs fs (dl_sharedDir D @ [sep] @ hex_encode (list_of fileID))"
    by (simp_all add: shared_ok_def room_for_def hash_path_def)
  from RequestFile_stream [where sha = "dl_sha D", OF d(1-3) r d(4) c(5,6,4,3,2)] show ?thesis
    by (auto simp: tryOwner_def c(1) ctx split_beta Let_def)
qed

lemma try_owners_good:
  assumes "\<forall>i n. dl_dial D i n \<noteq> Panic" and "shared_ok D fs" and "room_for D fileID fs"
    and "h \<in> set hs" and "good_owner D fileID (h_NodeID h)"
  shows "\<exists>p. fst (try_owners D i fileID hs (idx, fs)) = Ok p"
  using assms(2-4)
proof (induction hs arbitrary: i fs)
  case (Cons h' hs)
  obtain r1 idx1 fs1 where t: "tryOwner D i fileID (h_NodeID h') (idx, fs) = (r1, idx1, fs1)"
    by (cases "tryOwner D i fileID (h_NodeID h') (idx, fs)") auto
  note eff = tryOwner_effect [OF Cons.prems(1) t assms(1) [rule_format]]
  show ?case
  proof (cases r1)
    case (Ok p)
    with t show ?thesis by simp
  next
    case Panic
    with eff show ?thesis by simp
  next
    case (Err e)
    from Cons.prems(2) have "healthy fs" by (simp add: room_for_def)
    with eff Err have keep: "idx1 = idx" "fs_dirs fs1 = fs_dirs fs" "fs_files fs1 = fs_files fs" "healthy fs1"
      by (auto simp: healthy_def)
    then have "room_for D fileID fs1" using Cons.prems(2) by (simp add: room_for_def exists_path_def)
    moreover have "h \<noteq> h'" using tryOwner_good [OF Cons.prems(1,2) assms(5), of i idx] t Err by auto
    ultimately show ?thesis
      using Cons.IH [of fs1 "Suc i"] Cons.prems t Err keep shared_ok_from [OF keep(2), of D] by simp
  qed
qed simp

lemma try_owners_same_dial:
  "\<forall>h \<in> set hs. \<forall>i. dial' i (h_NodeID h) = dl_dial D i (h_NodeID h) \<Longrightarrow>
   try_owners (D\<lparr>dl_dial := dial'\<rparr>) i fileID hs (idx, fs) = try_owners D i fileID hs (idx, fs)"
proof (induction hs arbitrary: i idx fs)
  case (Cons h hs)
  have "renameToOriginal (D\<lparr>dl_dial := dial'\<rparr>) = renameToOriginal D"
    by (simp add: fun_eq_iff renameToOriginal_def Let_def cong: if_cong outcome.case_cong option.case_cong)
  then have "tryOwner (D\<lparr>dl_dial := dial'\<rparr>) i fileID (h_NodeID h) (idx, fs) = tryOwner D i fileID (h_NodeID h) (idx, fs)"
    using Cons.prems by (simp add: tryOwner_def cong: outcome.case_cong)
  with Cons show ?case by (auto split: outcome.splits prod.splits)
qed simp


section \<open>Properties\<close>

lemma Download_found:
  assumes "dl_getOwners D fileID = Ok found" and "filterSelf found (dl_selfID D) \<noteq> []"
  shows "Download D fileID (idx, fs) = try_owners D 0 fileID (dl_sort D (filterSelf found (dl_selfID D))) (idx, fs)"
  using assms by (simp add: Download_def)

lemma Download_cases:
  obtains (found) hs where "dl_getOwners D fileID = Ok hs" "filterSelf hs (dl_selfID D) \<noteq> []"
    | (none) e where "Download D fileID (idx, fs) = (Err e, idx, fs)"
    | (crash) "dl_getOwners D fileID = Panic"
  by (cases "dl_getOwners D fileID"; cases "filterSelf (case dl_getOwners D fileID of Ok hs \<Rightarrow> hs) (dl_selfID D) = []")
    (use that in \<open>auto simp: Download_def\<close>)

lemma Download_reaches:
  assumes "shared_ok D fs" and "\<forall>i n. dl_dial D i n \<noteq> Panic" and "sorts (dl_sort D)" and "room_for D fileID fs"
    and "dl_getOwners D fileID = Ok found" and "h \<in> set found" and "h_NodeID h \<noteq> dl_selfID D" and "good_owner D fileID (h_NodeID h)"
  obtains p idx' fs' where "Download D fileID (idx, fs) = (Ok p, idx', fs')" and "verified D fileID p fs'"
proof -
  let ?hs = "filterSelf found (dl_selfID D)"
  from assms(6,7) have "h \<in> set ?hs" by (simp add: filterSelf_def)
  moreover have "mset (dl_sort D ?hs) = mset ?hs" using assms(3) by (simp add: sorts_def)
  ultimately have h: "h \<in> set (dl_sort D ?hs)" and ne: "?hs \<noteq> []" by (auto dest: mset_eq_setD)
  obtain p idx' fs' where run: "try_owners D 0 fileID (dl_sort D ?hs) (idx, fs) = (Ok p, idx', fs')"
    using try_owners_good [OF assms(2,1,4) h assms(8), of 0 idx] by (metis prod.collapse)
  show thesis
    using that [of p idx' fs'] try_owners_effect [OF assms(1,2) run] run Download_found [OF assms(5) ne] by simp
qed

text \<open>A catalog with one foreign owner whose entry has a hostile name, for the witnesses.\<close>

definition ex_dl :: "string \<Rightarrow> envelope list \<Rightarrow> downloader" where
  "ex_dl name msgs = \<lparr>dl_getOwners = (\<lambda>_. Ok [\<lparr>h_NodeID = arr_of [1], h_SeenAt = 5\<rparr>, \<lparr>h_NodeID = arr_of [2], h_SeenAt = 3\<rparr>]),
     dl_getEntry = (\<lambda>_ _. Ok (Some (zero_entry\<lparr>e_Name := name\<rparr>))), dl_dial = (\<lambda>_ _. Ok (ex_chan msgs)),
     dl_sha = ex_sha, dl_sharedDir = ''/e'', dl_selfID = arr_of [1], dl_sort = sort_key (\<lambda>h. - h_SeenAt h),
     dl_ctx = (\<lambda>_ _. None), dl_rnds = (\<lambda>_. [''0''])\<rparr>"

abbreviation ex_file :: "envelope list" where
  "ex_file \<equiv> [ex_resp, FileChunk \<lparr>fc_FileId = list_of ex_id, fc_Data = [1, 2, 3], fc_Eof = False\<rparr>, last_chunk ex_id]"

lemma ex_dl_sel [simp]:
  "dl_getOwners (ex_dl n m) f = Ok [\<lparr>h_NodeID = arr_of [1], h_SeenAt = 5\<rparr>, \<lparr>h_NodeID = arr_of [2], h_SeenAt = 3\<rparr>]"
  "dl_dial (ex_dl n m) i a = Ok (ex_chan m)" "dl_sha (ex_dl n m) = ex_sha" "dl_sharedDir (ex_dl n m) = ''/e''"
  "dl_selfID (ex_dl n m) = arr_of [1]" "dl_sort (ex_dl n m) = sort_key (\<lambda>h. - h_SeenAt h)"
  "dl_ctx (ex_dl n m) i = (\<lambda>_. None)" "dl_rnds (ex_dl n m) i = [''0'']"
  by (simp_all add: ex_dl_def)

lemma ex_shared_ok: "shared_ok (ex_dl n m) ex_fs"
proof -
  have "filepath_Join ''/e'' ''..'' = ''/''" by code_simp
  then show ?thesis by (simp add: shared_ok_def ex_abs_dir ex_fs_def)
qed

lemma ex_good_owner: "good_owner (ex_dl n ex_file) ex_id (arr_of [2])"
proof -
  let ?cs = "[FileChunk \<lparr>fc_FileId = list_of ex_id, fc_Data = [1, 2, 3], fc_Eof = False\<rparr>]"
  have "ex_file = ex_resp # ?cs @ last_chunk ex_id # []" by simp
  moreover have "list_all (body_chunk ex_id) ?cs" by (simp add: body_chunk_def chunkSize_def)
  ultimately show ?thesis
    unfolding good_owner_def by (intro allI conjI exI [of _ "ex_chan ex_file"]) (force intro: exI [of _ ?cs])+
qed

lemma ex_room_for: "room_for (ex_dl n m) ex_id ex_fs"
proof -
  have "length (''/e'' @ [sep] @ hex_encode (list_of ex_id)) = 67" by simp
  then have "\<not> fs_dirs ex_fs (hash_path (ex_dl n m) ex_id)" by (auto simp: hash_path_def ex_fs_def)
  then show ?thesis by (simp add: room_for_def) (auto simp: ex_fs_def exists_path_def)
qed

text \<open>
  C7. A file that \<open>Download\<close> returns is verified and inside the shared directory: its path is the shared
  directory and one plain name, whatever name the peer gave the file (a path, \<open>..\<close>), and its content has the
  requested hash. This holds for every behaviour of the peers, the catalog and the disk. When no system call
  fails by itself, no file but the result and the one under the hash changes, and a file that was there is never
  overwritten under a name from the catalog.
\<close>

theorem download_verified:
  assumes "shared_ok D fs" and "\<forall>i n. dl_dial D i n \<noteq> Panic" and "Download D fileID (idx, fs) = (Ok p, idx', fs')"
  shows "(\<exists>name content. plain_name name \<and> p = dl_sharedDir D @ [sep] @ name \<and> fs_files fs' p = Some content \<and>
      dl_sha D content = fileID) \<and>
    (healthy fs \<longrightarrow> (\<forall>q. q \<noteq> p \<longrightarrow> q \<noteq> hash_path D fileID \<longrightarrow> fs_files fs' q = fs_files fs q) \<and>
      (p \<noteq> hash_path D fileID \<longrightarrow> fs_files fs p = None))"
proof -
  from assms(3) obtain found where f: "dl_getOwners D fileID = Ok found" "filterSelf found (dl_selfID D) \<noteq> []"
    by (cases rule: Download_cases [where D = D and fileID = fileID and idx = idx and fs = fs]) (auto simp: Download_def)
  from assms(3) Download_found [OF f] have
    "try_owners D 0 fileID (dl_sort D (filterSelf found (dl_selfID D))) (idx, fs) = (Ok p, idx', fs')" by simp
  from try_owners_effect [OF assms(1,2) this] show ?thesis
    by (auto simp: verified_def served_def)
qed

text \<open>
  C20. A reachable owner is found: when some hinted owner other than this node answers the request
  completely, \<open>Download\<close> succeeds, however the other owners behave and in whatever order the sort puts them.
\<close>

theorem download_finds_owner:
  assumes "shared_ok D fs" and "\<forall>i n. dl_dial D i n \<noteq> Panic" and "sorts (dl_sort D)" and "room_for D fileID fs"
    and "dl_getOwners D fileID = Ok found" and "h \<in> set found" and "h_NodeID h \<noteq> dl_selfID D"
    and "good_owner D fileID (h_NodeID h)"
  shows "\<exists>p. fst (Download D fileID (idx, fs)) = Ok p"
  by (rule Download_reaches [where idx = idx, OF assms]) simp

lemma ex_sorts: "sorts (sort_key (\<lambda>h. - h_SeenAt h))"
proof -
  have "sorted_wrt (\<lambda>a b. h_SeenAt b \<le> h_SeenAt a) (sort_key (\<lambda>h. - h_SeenAt h) hs)" for hs :: "owner_hint list"
    using sorted_sort_key [of "\<lambda>h. - h_SeenAt h" hs] by (simp add: sorted_map)
  then show ?thesis by (simp add: sorts_def)
qed

lemma ex_getOwners:
  "dl_getOwners (ex_dl n m) ex_id = Ok [\<lparr>h_NodeID = arr_of [1], h_SeenAt = 5\<rparr>, \<lparr>h_NodeID = arr_of [2], h_SeenAt = 3\<rparr>]"
  by simp

theorem download_finds_owner_witness:
  "\<exists>p. fst (Download (ex_dl ''../../evil'' ex_file) ex_id (NewLocalIndex, ex_fs)) = Ok p"
  by (rule download_finds_owner [OF ex_shared_ok _ _ ex_room_for ex_getOwners, where h = "\<lparr>h_NodeID = arr_of [2], h_SeenAt = 3\<rparr>"])
    (simp_all add: ex_sorts ex_good_owner)

lemma ex_downloaded: "\<exists>p idx' fs'. Download (ex_dl ''../../evil'' ex_file) ex_id (NewLocalIndex, ex_fs) = (Ok p, idx', fs')"
proof -
  let ?run = "try_owners (ex_dl ''../../evil'' ex_file) 0 ex_id [\<lparr>h_NodeID = arr_of [2], h_SeenAt = 3\<rparr>] (NewLocalIndex, ex_fs)"
  have "\<exists>p. fst ?run = Ok p"
    by (rule try_owners_good [OF _ ex_shared_ok ex_room_for, where h = "\<lparr>h_NodeID = arr_of [2], h_SeenAt = 3\<rparr>"])
      (simp_all add: ex_good_owner)
  moreover have "Download (ex_dl ''../../evil'' ex_file) ex_id (NewLocalIndex, ex_fs) = ?run"
    by (subst Download_found [OF ex_getOwners]) (simp_all add: filterSelf_def del: try_owners.simps)
  ultimately show ?thesis by (cases ?run) (auto simp del: try_owners.simps)
qed

theorem download_verified_witness:
  "\<exists>name content. plain_name name \<and> ex_sha content = ex_id \<and>
    fs_files (snd (snd (Download (ex_dl ''../../evil'' ex_file) ex_id (NewLocalIndex, ex_fs)))) (''/e'' @ [sep] @ name) = Some content"
proof -
  obtain p idx' fs' where run: "Download (ex_dl ''../../evil'' ex_file) ex_id (NewLocalIndex, ex_fs) = (Ok p, idx', fs')"
    using ex_downloaded by blast
  from download_verified [OF ex_shared_ok _ run] obtain name content where
    "plain_name name" "p = ''/e'' @ [sep] @ name" "fs_files fs' p = Some content" "ex_sha content = ex_id" by auto
  then show ?thesis unfolding run snd_conv by blast
qed

text \<open>
  This node is never dialled for its own file: whatever dialling oneself would give, the result of
  \<open>Download\<close> is the same.
\<close>

lemma download_never_dials_self:
  assumes "sorts (dl_sort D)" and "\<forall>i n. n \<noteq> dl_selfID D \<longrightarrow> dial' i n = dl_dial D i n"
  shows "Download (D\<lparr>dl_dial := dial'\<rparr>) fileID (idx, fs) = Download D fileID (idx, fs)"
proof (cases "\<exists>hs. dl_getOwners D fileID = Ok hs \<and> filterSelf hs (dl_selfID D) \<noteq> []")
  case True
  then obtain hs where hs: "dl_getOwners D fileID = Ok hs" "filterSelf hs (dl_selfID D) \<noteq> []" by blast
  let ?s = "dl_sort D (filterSelf hs (dl_selfID D))"
  have "mset ?s = mset (filterSelf hs (dl_selfID D))" using assms(1) by (simp add: sorts_def)
  from mset_eq_setD [OF this] have "\<forall>h \<in> set ?s. h_NodeID h \<noteq> dl_selfID D" by (simp add: filterSelf_def)
  then have "try_owners (D\<lparr>dl_dial := dial'\<rparr>) 0 fileID ?s (idx, fs) = try_owners D 0 fileID ?s (idx, fs)"
    using assms(2) by (intro try_owners_same_dial) auto
  with hs show ?thesis by (simp add: Download_def)
next
  case False
  then show ?thesis by (auto simp: Download_def outcome_simps split: outcome.splits)
qed

end
