(* ===== verification/Sharing.thy ===== *)
theory Sharing
  imports Watcher Peer_Handler Download
begin

text \<open>
  Files on their way from one node to another: the watcher of one node finds a file, its handler offers the catalog, the handler of
  another node stores the offer, and the downloader of that node fetches the file from the one that has it. The pieces are those of
  \<open>Watcher\<close>, \<open>Peer_Handler\<close>, \<open>Download\<close> and \<open>File_Transfer\<close>; here they are put together.
\<close>

section \<open>What a served connection answers\<close>

text \<open>The request for a file that the sender has, as the handler dispatches it.\<close>

lemma dispatch_request:
  assumes "ha_index h f = Some path" and "fs_files (ha_fs h) path = Some content" and "healthy (ha_fs h)"
    and "sv_reqctx E i = (\<lambda>_. None)" and "\<forall>j. sv_plan E i j \<noteq> None" and "ch_room (ha_chans h n) = None"
  obtains cs h' where "dispatch B E i (FileRequest \<lparr>frq_FileId = list_of f\<rparr>) n h = (Ok (), h')"
    and "ch_out (ha_chans h' n) = ch_out (ha_chans h n) @
      FileResponse \<lparr>frs_FileId = list_of f, frs_Size = of_nat (length content), frs_NotFound = False\<rparr> # cs @ [last_chunk f]"
    and "list_all (body_chunk f) cs" and "concat (map chunk_data cs) = content"
proof -
  obtain cs c' fs' where run: "HandleRequest (ha_index h) (\<lambda>_. None) (sv_plan E i) f (ha_chans h n) (ha_fs h) = (Ok (), c', fs')"
    and out: "ch_out c' = ch_out (ha_chans h n) @
      FileResponse \<lparr>frs_FileId = list_of f, frs_Size = of_nat (length content), frs_NotFound = False\<rparr> # cs @ [last_chunk f]"
    and cs: "list_all (body_chunk f) cs" "concat (map chunk_data cs) = content"
    by (rule HandleRequest_stream [where idx = "ha_index h" and fileID = f and plan = "sv_plan E i", OF assms(1-3,5,6)])
  show thesis
    by (rule that [of "h\<lparr>ha_chans := (ha_chans h)(n := c'), ha_fs := fs'\<rparr>" cs, OF _ _ cs])
      (use run out assms(4) in \<open>simp_all add: dispatch_def handleFileRequest_def\<close>)
qed

text \<open>A connection on which a peer has sent one request: the offer of the catalog comes first, if there is a catalog.\<close>

lemma Serve_answers:
  assumes idx: "ha_index h f = Some path" and src: "fs_files (ha_fs h) path = Some content" and fs: "healthy (ha_fs h)"
    and ctx: "\<forall>i. sv_ctx E i = None" "sv_reqctx E 0 = (\<lambda>_. None)" and plan: "\<forall>j. sv_plan E 0 j \<noteq> None"
    and chan: "ch_room (ha_chans h n) = None" "ch_in (ha_chans h n) = [FileRequest \<lparr>frq_FileId = list_of f\<rparr>]" "ch_out (ha_chans h n) = []"
    and cat: "\<forall>s. ha_catalog h = Some s \<longrightarrow> is_ok (ListForPeer B s (ha_peer h n))"
  obtains offer cs where "ch_out (ha_chans (Serve B E n h) n) = offer @
      FileResponse \<lparr>frs_FileId = list_of f, frs_Size = of_nat (length content), frs_NotFound = False\<rparr> # cs @ [last_chunk f]"
    and "list_all (body_chunk f) cs" and "concat (map chunk_data cs) = content"
    and "ha_catalog h = None \<longrightarrow> offer = []" and "ha_catalog h \<noteq> None \<longrightarrow> (\<exists>files. offer = [CatalogOffer files])"
proof -
  define h1 where "h1 = serve_begin B n h"
  obtain offer where h1: "ha_index h1 = ha_index h" "ha_fs h1 = ha_fs h" "ha_chans h1 n = (ha_chans h n)\<lparr>ch_out := offer\<rparr>"
    and offer: "ha_catalog h = None \<longrightarrow> offer = []" "ha_catalog h \<noteq> None \<longrightarrow> (\<exists>files. offer = [CatalogOffer files])"
  proof (cases "ha_catalog h")
    case None
    then show thesis using that [of "[]"] chan by (simp add: h1_def serve_begin_def registerConn_def Let_def)
  next
    case (Some s)
    with cat obtain es where "ListForPeer B s (ha_peer h n) = Ok es" by (cases "ListForPeer B s (ha_peer h n)") auto
    then show thesis
      using that [of "[CatalogOffer (EntriesToProto es)]"] chan Some
      by (simp add: h1_def serve_begin_def registerConn_def Let_def sendCatalogOfferTo_def conn_Send_open)
  qed
  define h2 where "h2 = h1\<lparr>ha_chans := (ha_chans h1)(n := (ha_chans h1 n)\<lparr>ch_in := []\<rparr>)\<rparr>"
  have h2: "ha_index h2 f = Some path" "fs_files (ha_fs h2) path = Some content" "healthy (ha_fs h2)"
    "ch_room (ha_chans h2 n) = None" "ch_out (ha_chans h2 n) = offer" "ch_in (ha_chans h2 n) = []"
    using idx src fs chan by (simp_all add: h2_def h1)
  obtain cs h' where run: "dispatch B E 0 (FileRequest \<lparr>frq_FileId = list_of f\<rparr>) n h2 = (Ok (), h')"
    and out: "ch_out (ha_chans h' n) = offer @
      FileResponse \<lparr>frs_FileId = list_of f, frs_Size = of_nat (length content), frs_NotFound = False\<rparr> # cs @ [last_chunk f]"
    and cs: "list_all (body_chunk f) cs" "concat (map chunk_data cs) = content"
    by (rule dispatch_request [OF h2(1-3) ctx(2) plan h2(4), where B = B, unfolded h2(5)])
  have "ch_in (ha_chans h' n) = []" using dispatch_ch_in [of B E 0 "FileRequest \<lparr>frq_FileId = list_of f\<rparr>" n h2 n] run h2(6) by simp
  then have "serve_loop B E 1 n h' = h'" by (subst serve_loop.simps) (simp add: ctx)
  moreover have "serve_loop B E 0 n h1 = serve_loop B E 1 n h'"
    using run by (subst serve_loop.simps) (simp add: ctx h1 chan h2_def)
  ultimately have "ha_chans (Serve B E n h) n = ha_chans h' n" by (simp add: Serve_def unregisterConn_def h1_def)
  then show thesis using that [OF _ cs offer] out by simp
qed

text \<open>A node whose handler answers the request for a file it has is an owner the downloader can use.\<close>

lemma answering_owner:
  assumes "ha_index h f = Some path" and "fs_files (ha_fs h) path = Some content" and "healthy (ha_fs h)"
    and "sv_reqctx E j = (\<lambda>_. None)" and "\<forall>l. sv_plan E j l \<noteq> None" and "ch_room (ha_chans h n) = None" and "ch_out (ha_chans h n) = []"
    and run: "dispatch B E j (FileRequest \<lparr>frq_FileId = list_of f\<rparr>) n h = (answered, h')"
    and dial: "\<forall>l. \<exists>c. dl_dial D l a = Ok c \<and> ch_room c = None \<and> ch_in c = ch_out (ha_chans h' n)"
    and ctx: "\<forall>l. dl_ctx D l = (\<lambda>_. None)" and sha: "dl_sha D content = f"
  shows "answered = Ok ()" and "good_owner D f a"
proof -
  obtain cs h2 where ans: "dispatch B E j (FileRequest \<lparr>frq_FileId = list_of f\<rparr>) n h = (Ok (), h2)"
    "ch_out (ha_chans h2 n) = ch_out (ha_chans h n) @
       FileResponse \<lparr>frs_FileId = list_of f, frs_Size = of_nat (length content), frs_NotFound = False\<rparr> # cs @ [last_chunk f]"
    "list_all (body_chunk f) cs" "concat (map chunk_data cs) = content"
    by (rule dispatch_request [where B = B, OF assms(1-6)])
  then show "answered = Ok ()" using run by simp
  have h2: "h2 = h'" using ans(1) run by simp
  show "good_owner D f a"
    unfolding good_owner_def
  proof (intro allI conjI)
    fix l
    obtain c where "dl_dial D l a = Ok c" "ch_room c = None" "ch_in c = ch_out (ha_chans h' n)" using dial by blast
    then show "\<exists>c resp cs rest. dl_dial D l a = Ok c \<and> ch_room c = None \<and> ch_in c = FileResponse resp # cs @ last_chunk f # rest \<and>
        \<not> frs_NotFound resp \<and> list_all (body_chunk f) cs \<and> dl_sha D (concat (map chunk_data cs)) = f"
      using ans(2-4) assms(7) sha h2 by (intro exI [of _ c] exI [of _ cs] exI) auto
  qed (simp add: ctx)
qed

section \<open>Properties\<close>


text \<open>Two nodes, for the witnesses.\<close>

definition ex_nodeA :: "ref_bucket watcher \<Rightarrow> ref_bucket handler" where
  "ex_nodeA w = NewHandler (wt_index w) None (arr_of [1]) (\<lambda>_. ex_chan []) (\<lambda>_. arr_of [2]) (wt_fs w)"

lemma ex_nodeA_sel [simp]:
  "ha_index (ex_nodeA w) = wt_index w" "ha_fs (ex_nodeA w) = wt_fs w" "ha_chans (ex_nodeA w) = (\<lambda>_. ex_chan [])"
  "ha_peer (ex_nodeA w) = (\<lambda>_. arr_of [2])" "ha_catalog (ex_nodeA w) = None"
  by (simp_all add: ex_nodeA_def NewHandler_def)

definition ex_fetch :: "ref_bucket store \<Rightarrow> envelope list \<Rightarrow> downloader" where
  "ex_fetch s msgs = (ex_dl ''a'' msgs)\<lparr>dl_getOwners := GetOwners ref_bolt s, dl_selfID := arr_of [2]\<rparr>"

lemma ex_fetch_sel [simp]:
  "dl_getOwners (ex_fetch s msgs) = GetOwners ref_bolt s" "dl_selfID (ex_fetch s msgs) = arr_of [2]" "dl_sha (ex_fetch s msgs) = ex_sha"
  "dl_dial (ex_fetch s msgs) = (\<lambda>_ _. Ok (ex_chan msgs))" "dl_sort (ex_fetch s msgs) = sort_key (\<lambda>h. - h_SeenAt h)"
  "dl_ctx (ex_fetch s msgs) = (\<lambda>_ _. None)"
  by (simp_all add: ex_fetch_def ex_dl_def)

lemma ex_fetch_ready: "shared_ok (ex_fetch s msgs) ex_fs" "room_for (ex_fetch s msgs) ex_id ex_fs"
  using ex_shared_ok [of "''a''" msgs] ex_room_for [of "''a''" msgs]
  by (simp_all add: ex_fetch_def shared_ok_def room_for_def hash_path_def)


text \<open>
  C28. A download needs a connection on which no catalog is offered. When the owner's handler serves the connection the request comes in on
  and has no catalog, \<open>RequestFile\<close> stores the file. When it has one, as in the daemon, its offer is the first message, which
  \<open>RequestFile\<close> takes for the answer: it fails whatever the owner has, and leaves the files as they were.
\<close>

theorem download_meets_offer:
  assumes "bolt_laws B" and "\<forall>s. ha_catalog h = Some s \<longrightarrow> catalog_reach B s"
    and "Lookup (ha_index h) f = Some path" and "fs_files (ha_fs h) path = Some content" and "sha content = f" and "healthy (ha_fs h)"
    and "\<forall>i. sv_ctx E i = None" and "sv_reqctx E 0 = (\<lambda>_. None)" and "\<forall>j. sv_plan E 0 j \<noteq> None"
    and "ha_chans h n = \<lparr>ch_in = [FileRequest \<lparr>frq_FileId = list_of f\<rparr>], ch_end = ErrIO, ch_out = [], ch_room = None\<rparr>"
    and "abs_dir d" and "healthy fs" and "fs_dirs fs d" and "r \<in> set rnds" and "\<not> exists_path fs (d @ [sep] @ ''.kin-tmp-'' @ r)"
    and "\<not> fs_dirs fs (d @ [sep] @ hex_encode (list_of f))"
    and "ch_room rc = None" and "ch_in rc = ch_out (ha_chans (Serve B E n h) n)"
    and "RequestFile sha (\<lambda>_. None) f d rnds rc fs = (res, rc', fs')"
  shows "if ha_catalog h = None
    then res = Ok (d @ [sep] @ hex_encode (list_of f)) \<and> fs_files fs' = (fs_files fs)(d @ [sep] @ hex_encode (list_of f) \<mapsto> content)
    else res = Err (Message ''receiver: expected FileResponse'') \<and> fs_files fs' = fs_files fs"
proof -
  have list: "is_ok (ListForPeer B s p)" if "ha_catalog h = Some s" for s p
    by (rule bolt_laws.ListForPeer_spec [OF assms(1) bolt_laws.catalog_reach_inv [OF assms(1)], of s p]) (use assms(2) that in auto)
  have "ha_index h f = Some path" using assms(3) by (simp add: Lookup_def)
  then obtain offer cs where out: "ch_out (ha_chans (Serve B E n h) n) = offer @
      FileResponse \<lparr>frs_FileId = list_of f, frs_Size = of_nat (length content), frs_NotFound = False\<rparr> # cs @ [last_chunk f]"
    and cs: "list_all (body_chunk f) cs" "concat (map chunk_data cs) = content"
    and offer: "ha_catalog h = None \<longrightarrow> offer = []" "ha_catalog h \<noteq> None \<longrightarrow> (\<exists>files. offer = [CatalogOffer files])"
    by (rule Serve_answers [where B = B and n = n and E = E and content = content]) (use assms list in simp_all)
  show ?thesis
  proof (cases "ha_catalog h")
    case None
    then have "ch_in rc = FileResponse \<lparr>frs_FileId = list_of f, frs_Size = of_nat (length content), frs_NotFound = False\<rparr> # cs @ last_chunk f # []"
      using out offer(1) assms(18) by simp
    from RequestFile_stream [OF assms(11-16) cs(1) _ _ this assms(17), of sha] cs(2) assms(5,19)
    have "res = Ok (d @ [sep] @ hex_encode (list_of f))" "fs_files fs' (d @ [sep] @ hex_encode (list_of f)) = Some content" by auto
    with RequestFile_effect [OF assms(11,19)] None show ?thesis by auto
  next
    case (Some s)
    then obtain files rest where "ch_in rc = CatalogOffer files # rest" using out offer(2) assms(18) by auto
    then have "chan_recv (rc\<lparr>ch_out := ch_out rc @ [FileRequest \<lparr>frq_FileId = list_of f\<rparr>]\<rparr>) =
        (Ok (CatalogOffer files), rc\<lparr>ch_out := ch_out rc @ [FileRequest \<lparr>frq_FileId = list_of f\<rparr>], ch_in := rest\<rparr>)"
      by (simp add: chan_recv_def)
    then show ?thesis using assms(17,19) Some by (auto simp: RequestFile_def)
  qed
qed

theorem download_meets_offer_witness:
  "fst (RequestFile ex_sha (\<lambda>_. None) ex_id ''/e'' [''0'']
     (ex_chan (ch_out (ha_chans (Serve ref_bolt ex_serve 2 ((ex_handler ex_store 1 [FileRequest \<lparr>frq_FileId = list_of ex_id\<rparr>])
       \<lparr>ha_index := NewLocalIndex(ex_id \<mapsto> ''/d/a'')\<rparr>)) 2))) ex_fs) = Err (Message ''receiver: expected FileResponse'')"
proof -
  let ?h = "(ex_handler ex_store 1 [FileRequest \<lparr>frq_FileId = list_of ex_id\<rparr>])\<lparr>ha_index := NewLocalIndex(ex_id \<mapsto> ''/d/a'')\<rparr>"
  let ?run = "RequestFile ex_sha (\<lambda>_. None) ex_id ''/e'' [''0''] (ex_chan (ch_out (ha_chans (Serve ref_bolt ex_serve 2 ?h) 2))) ex_fs"
  have "length (''/e'' @ [sep] @ hex_encode (list_of ex_id)) = 67" by simp
  then have dst: "\<not> fs_dirs ex_fs (''/e'' @ [sep] @ hex_encode (list_of ex_id))" by (auto simp: ex_fs_def)
  obtain res rc' fs' where run: "?run = (res, rc', fs')" by (metis prod_cases3)
  have "if ha_catalog ?h = None then res = Ok (''/e'' @ [sep] @ hex_encode (list_of ex_id)) \<and>
      fs_files fs' = (fs_files ex_fs)(''/e'' @ [sep] @ hex_encode (list_of ex_id) \<mapsto> [1, 2, 3])
    else res = Err (Message ''receiver: expected FileResponse'') \<and> fs_files fs' = fs_files ex_fs"
    by (rule download_meets_offer [OF ref.bolt_laws_axioms _ _ _ _ _ _ _ _ _ ex_abs_dir _ _ _ _ dst _ _ run, where r = "''0''" and path = "''/d/a''"])
      (simp_all add: ex_reach Lookup_def NewHandler_def ex_serve_def ex_fs_def healthy_def exists_path_def)
  then show ?thesis unfolding run by (simp add: NewHandler_def)
qed

end
