(* ===== verification/Message_Size.thy ===== *)
theory Message_Size
  imports Catalog_Spec Wire File_Transfer
begin

text \<open>
  What fits into a frame. \<open>protocol.WriteMsg\<close> refuses a message of more than 4 MiB; whether a message of the program can be that large
  depends on the encoding of its fields (\<open>Proto_Wire\<close>, and the hypothesis \<open>pb_encodes\<close> on the runtime). The messages of a transfer always fit, since the sender cuts a
  file into chunks of 64 KiB. A catalog offer is one message with every file in it, so it fits as long as the catalog is small.
\<close>

section \<open>Sizes of fields\<close>

lemma length_varint_small: "n < 128 \<Longrightarrow> length (varint n) = 1"
  by (simp add: varint.simps)

lemma varint_word: "length (varint (unat v)) \<le> 10" for v :: "64 word"
  using length_varint [of "unat v" 9] unsigned_less [of v, where ?'a = nat] by simp

lemma length_f_int: "n < 15 \<Longrightarrow> length (enc_fields (f_int n v)) \<le> 11"
  using varint_word [of v] by (simp add: f_int_def enc_fields_def length_varint_small)

lemma length_f_bool: "n < 15 \<Longrightarrow> length (enc_fields (f_bool n b)) \<le> 2"
  by (simp add: f_bool_def enc_fields_def length_varint_small)

lemma length_bytes_field: "n < 15 \<Longrightarrow> length b < 128 ^ Suc k \<Longrightarrow> length (enc_field (n, WBytes b)) \<le> 2 + k + length b"
  using length_varint [of "length b" k] by (simp add: length_varint_small)

lemma length_f_bytes: "n < 15 \<Longrightarrow> length b < 128 ^ Suc k \<Longrightarrow> length (enc_fields (f_bytes n b)) \<le> 2 + k + length b"
  using length_bytes_field [of n b k] by (simp add: f_bytes_def enc_fields_def)

lemma length_f_id: "n < 15 \<Longrightarrow> length (enc_fields (f_bytes n (list_of x))) = 34" for x :: id32
proof -
  have "list_of x \<noteq> []" using length_list_of [of x] by force
  then show "n < 15 \<Longrightarrow> ?thesis" by (simp add: f_bytes_def enc_fields_def length_varint_small)
qed

lemma length_enc_envelope:
  assumes "payload_fields env = Some (n, fs)" and "n < 15" and "length (enc_fields fs) < 128 ^ 4"
  shows "length (enc_envelope env) \<le> 5 + length (enc_fields fs)"
  using length_bytes_field [of n "enc_fields fs" 3] assms by (simp add: enc_envelope_def)

section \<open>The messages of a transfer\<close>

lemma response_fits: "fits (FileResponse \<lparr>frs_FileId = list_of fileID, frs_Size = sz, frs_NotFound = nf\<rparr>)" for fileID :: id32
proof -
  let ?r = "\<lparr>frs_FileId = list_of fileID, frs_Size = sz, frs_NotFound = nf\<rparr>"
  have "length (enc_fields (file_response_fields ?r)) \<le> 47"
    using length_f_id [of 1 fileID] length_f_int [of 2 sz] length_f_bool [of 3 nf] by (simp add: file_response_fields_def)
  with length_enc_envelope [of "FileResponse ?r"] show ?thesis by (simp add: fits_def maxMsgSize_def)
qed

lemma chunk_fits:
  fixes fileID :: id32
  assumes "length d \<le> chunkSize"
  shows "fits (FileChunk \<lparr>fc_FileId = list_of fileID, fc_Data = d, fc_Eof = eof\<rparr>)"
proof -
  let ?c = "\<lparr>fc_FileId = list_of fileID, fc_Data = d, fc_Eof = eof\<rparr>"
  have "length (enc_fields (file_chunk_fields ?c)) \<le> 34 + (4 + 65536) + 2"
    using length_f_id [of 1 fileID] length_f_bytes [of 2 d 2] length_f_bool [of 3 eof] assms by (simp add: file_chunk_fields_def chunkSize_def)
  with length_enc_envelope [of "FileChunk ?c"] show ?thesis by (simp add: fits_def maxMsgSize_def)
qed

section \<open>The catalog offer\<close>

lemma file_size:
  "68 \<le> length (enc_fields (catalog_file_fields (EntryToProto e)))"
  "length (e_Name e) \<le> 255 \<Longrightarrow> length (enc_fields (catalog_file_fields (EntryToProto e))) \<le> 350"
  using length_f_id [of 1 "e_FileID e"] length_f_id [of 5 "e_OwnerNodeID e"] length_f_int [of 3 "e_Size e"] length_f_int [of 4 "unix (e_ModTime e)"]
    length_f_bool [of 6 "e_Deleted e"] length_f_bytes [of 2 "string_bytes (e_Name e)" 1]
  by (simp_all add: catalog_file_fields_def EntryToProto_def f_string_def)

abbreviation offer_fields :: "entry list \<Rightarrow> field list" where
  "offer_fields es \<equiv> map (\<lambda>f. (1, WBytes (enc_fields (catalog_file_fields f)))) (EntriesToProto es)"

lemma offer_lower: "70 * length es \<le> length (enc_fields (offer_fields es))"
proof (induction es)
  case (Cons e es)
  have "length (varint n) \<noteq> 0" for n by simp
  then have "1 \<le> length (varint n)" for n by (metis One_nat_def Suc_leI neq0_conv)
  from this [of "length (enc_fields (catalog_file_fields (EntryToProto e)))"] show ?case
    using Cons file_size(1) [of e] by (simp add: EntriesToProto_def enc_fields_def length_varint_small)
qed (simp add: EntriesToProto_def)

lemma offer_upper:
  "\<forall>e\<in>set es. length (e_Name e) \<le> 255 \<Longrightarrow> length (enc_fields (offer_fields es)) \<le> 353 * length es"
proof (induction es)
  case (Cons e es)
  have "length (enc_field (1, WBytes (enc_fields (catalog_file_fields (EntryToProto e))))) \<le> 353"
    using Cons.prems file_size(2) [of e] length_bytes_field [of 1 "enc_fields (catalog_file_fields (EntryToProto e))" 1] by simp
  then show ?case using Cons by (simp add: EntriesToProto_def enc_fields_def)
qed (simp add: EntriesToProto_def)

context bolt_laws
begin

lemma listed_utf8:
  assumes "catalog_inv B s" and "ListForPeer B s x = Ok es"
  shows "list_all (\<lambda>n. to_utf8 n = n) (map e_Name es)"
proof -
  have k: "keyed B (fst (st_db s))" using assms(1) by (simp add: catalog_inv_def db_inv_def)
  obtain es' where es': "ListForPeer B s x = Ok es'"
    "set es' = {e. \<not> e_Deleted e \<and> ent B (fst (st_db s)) (e_OwnerNodeID e) (e_FileID e) = Some e \<and> e_OwnerNodeID e \<noteq> x}"
    by (rule ListForPeer_spec [OF assms(1), of x])
  have "to_utf8 (e_Name e) = e_Name e" if "e \<in> set es" for e
  proof -
    have "ent B (fst (st_db s)) (e_OwnerNodeID e) (e_FileID e) = Some e" using that es' assms(2) by simp
    from keyed_ent [OF k this] show ?thesis by (simp add: stored_eq_iff)
  qed
  then show ?thesis by (simp add: list_all_iff)
qed

lemma offer_fits:
  assumes "catalog_inv B s" and "ListForPeer B s x = Ok es" and "length es \<le> 11881" and "\<forall>e\<in>set es. length (e_Name e) \<le> 255"
  shows "fits (CatalogOffer (EntriesToProto es))"
proof -
  have small: "length (enc_fields (offer_fields es)) \<le> 4193993" using offer_upper [OF assms(4)] assms(3) by simp
  have "length (enc_envelope (CatalogOffer (EntriesToProto es))) \<le> 5 + length (enc_fields (offer_fields es))"
    by (rule length_enc_envelope [where n = 11]) (use small in simp_all)
  moreover have "envelope_strings (CatalogOffer (EntriesToProto es)) = map e_Name es" by (simp add: EntriesToProto_def EntryToProto_def)
  ultimately show ?thesis using small listed_utf8 [OF assms(1,2)] by (simp add: fits_def maxMsgSize_def)
qed

end

lemma offer_refused:
  assumes "pb_encodes marshal" and "59918 < length es"
  shows "\<exists>e. WriteMsg marshal w (CatalogOffer (EntriesToProto es)) = (Err e, w)"
proof -
  have "70 * 59919 \<le> length (enc_fields (offer_fields es))" using offer_lower [of es] assms(2) by simp
  then have "maxMsgSize < length (enc_envelope (CatalogOffer (EntriesToProto es)))" by (simp add: enc_envelope_def maxMsgSize_def)
  with assms(1) show ?thesis
    by (cases "marshal (CatalogOffer (EntriesToProto es))") (auto simp: WriteMsg_def write_frame_def outcome_simps pb_encodes_def)
qed

section \<open>Properties\<close>

text \<open>The store of the witness holds one entry.\<close>

lemma ex_only:
  "ent ref_bolt (fst (st_db ex_store1)) a f = Some e \<longleftrightarrow> a = arr_of [1] \<and> f = arr_of [7] \<and> e = (ex_entry 7)\<lparr>e_OwnerNodeID := arr_of [1]\<rparr>"
proof -
  obtain eb' ab' where "st_db ex_store1 = (eb', ab')"
    and "ent ref_bolt eb' = (\<lambda>a f. if a = st_selfID ex_store \<and> f = e_FileID (ex_entry 7)
       then Some (stored ((ex_entry 7)\<lparr>e_OwnerNodeID := st_selfID ex_store, e_UpdatedAt := 0, e_Deleted := False\<rparr>))
       else ent ref_bolt (fst (st_db ex_store)) a f)"
    by (rule ref.PutLocal_effect [OF ex_inv, where clk = "\<lambda>_. 0" and e = "ex_entry 7"]) simp_all
  then show ?thesis by (auto simp: stored_def ascii_ex ent_def ref_bolt_def)
qed

lemma singleton_list:
  assumes "distinct xs" and "set xs = {x}"
  shows "xs = [x]"
  using distinct_card [OF assms(1)] assms by (cases xs; cases "tl xs") auto

lemma ex_list: "ListForPeer ref_bolt ex_store1 (arr_of [2]) = Ok [(ex_entry 7)\<lparr>e_OwnerNodeID := arr_of [1]\<rparr>]"
proof -
  obtain es where es: "ListForPeer ref_bolt ex_store1 (arr_of [2]) = Ok es" "distinct es"
    "set es = {e. \<not> e_Deleted e \<and> ent ref_bolt (fst (st_db ex_store1)) (e_OwnerNodeID e) (e_FileID e) = Some e \<and> e_OwnerNodeID e \<noteq> arr_of [2]}"
    by (rule ref.ListForPeer_spec [OF ref.catalog_reach_inv [OF ex_reach1]])
  have "arr_of [1] \<noteq> (arr_of [2] :: id32)" by simp
  then have "set es = {(ex_entry 7)\<lparr>e_OwnerNodeID := arr_of [1]\<rparr>}" unfolding es(3) ex_only by auto
  then have "es = [(ex_entry 7)\<lparr>e_OwnerNodeID := arr_of [1]\<rparr>]" using singleton_list [OF es(2)] by blast
  then show ?thesis using es(1) by (rule subst)
qed

text \<open>
  C38. How large a catalog can be offered. An offer is one message. With up to 11,881 files whose names have at most 255 bytes it
  always fits into a frame; with more than 59,918 files it never does, and \<open>WriteMsg\<close> returns an error and writes nothing, so that the peer
  learns of no file at all.
\<close>

theorem offer_size_limit:
  assumes "bolt_laws B" and "pb_encodes marshal" and "catalog_reach B s" and "ListForPeer B s peer = Ok es"
  shows "(length es \<le> 11881 \<and> (\<forall>e\<in>set es. length (e_Name e) \<le> 255) \<longrightarrow> sendable marshal (CatalogOffer (EntriesToProto es))) \<and>
    (59918 < length es \<longrightarrow> (\<exists>e. WriteMsg marshal w (CatalogOffer (EntriesToProto es)) = (Err e, w)))"
  using bolt_laws.offer_fits [OF assms(1) bolt_laws.catalog_reach_inv [OF assms(1,3)] assms(4)] fits_sendable [OF assms(2)] offer_refused [OF assms(2)]
  by blast

theorem offer_size_limit_witness:
  "sendable proto_marshal (CatalogOffer (EntriesToProto [(ex_entry 7)\<lparr>e_OwnerNodeID := arr_of [1]\<rparr>]))"
  by (rule offer_size_limit [OF ref.bolt_laws_axioms proto_pb_encodes ex_reach1 ex_list, THEN conjunct1, THEN mp]) simp

end
