(* ===== verification/Msg_Conn.thy ===== *)
theory Msg_Conn
  imports Transport Message_Size
begin

text \<open>
  The interface that the handler and the transfers use of a connection: \<open>protocol.Conn\<close>, \<open>transfer.MsgReadWriter\<close>. A user of it is a program that
  sends and receives messages and goes on by what it is told; the locale \<open>msg_rw\<close> has the laws of a provider, and its theorem says that
  every program does over the provider what it does over the channel of messages that the other theories use. The providers are
  \<open>transport.Conn\<close>, over the bytes of a QUIC stream, and \<open>testutil.MemConn\<close>, over Go channels.
\<close>

section \<open>Programs over a connection\<close>

text \<open>A program is told whether a send succeeded, and which message came, if any.\<close>

datatype 'r prog =
    Return 'r
  | Snd envelope "bool \<Rightarrow> 'r prog"
  | Rcv "envelope option \<Rightarrow> 'r prog"

text \<open>A run over a provider. A provider that blocks forever ends it without a result.\<close>

primrec run_prog ::
  "('s \<Rightarrow> envelope \<Rightarrow> (bool \<times> 's) option) \<Rightarrow> ('s \<Rightarrow> (envelope option \<times> 's) option) \<Rightarrow> 'r prog \<Rightarrow> 's \<Rightarrow> ('r \<times> 's) option" where
  "run_prog send recv (Return r) s = Some (r, s)"
| "run_prog send recv (Snd env k) s = Option.bind (send s env) (\<lambda>p. run_prog send recv (k (fst p)) (snd p))"
| "run_prog send recv (Rcv k) s = Option.bind (recv s) (\<lambda>p. run_prog send recv (k (fst p)) (snd p))"

text \<open>Every message the program may send is one the connection takes.\<close>

primrec sends_only :: "(envelope \<Rightarrow> bool) \<Rightarrow> 'r prog \<Rightarrow> bool" where
  "sends_only ok (Return r) \<longleftrightarrow> True"
| "sends_only ok (Snd env k) \<longleftrightarrow> ok env \<and> (\<forall>b. sends_only ok (k b))"
| "sends_only ok (Rcv k) \<longleftrightarrow> (\<forall>m. sends_only ok (k m))"

definition got :: "envelope outcome \<Rightarrow> envelope option" where
  "got r = (case r of Ok env \<Rightarrow> Some env | _ \<Rightarrow> None)"

text \<open>The channel of messages. A send blocks when there is no room.\<close>

definition ch_send :: "chan \<Rightarrow> envelope \<Rightarrow> (bool \<times> chan) option" where
  "ch_send c env = (if ch_room c = Some 0 then None else map_option (\<lambda>p. (is_ok (fst p), snd p)) (Some (chan_send c env)))"

definition ch_recv :: "chan \<Rightarrow> (envelope option \<times> chan) option" where
  "ch_recv c = Some (got (fst (chan_recv c)), snd (chan_recv c))"

locale msg_rw =
  fixes send :: "'s \<Rightarrow> envelope \<Rightarrow> (bool \<times> 's) option"
    and recv :: "'s \<Rightarrow> (envelope option \<times> 's) option"
    and rel :: "'s \<Rightarrow> chan \<Rightarrow> bool"
    and ok :: "envelope \<Rightarrow> bool"
  assumes send_sim: "rel s c \<Longrightarrow> ok env \<Longrightarrow> rel_option (rel_prod (=) rel) (send s env) (ch_send c env)"
    and recv_sim: "rel s c \<Longrightarrow> rel_option (rel_prod (=) rel) (recv s) (ch_recv c)"
begin

text \<open>A program gets the same results, or blocks, over the provider and over the channel, and leaves them in relation.\<close>

lemma runs_alike:
  assumes "rel s c" and "sends_only ok p"
  shows "rel_option (rel_prod (=) rel) (run_prog send recv p s) (run_prog ch_send ch_recv p c)"
  using assms
proof (induction p arbitrary: s c)
  case (Snd env k)
  then have "rel_option (rel_prod (=) rel) (send s env) (ch_send c env)" by (intro send_sim) simp_all
  then show ?case by (cases rule: option.rel_cases) (use Snd in \<open>auto simp: rel_prod_conv\<close>)
next
  case (Rcv k)
  then have "rel_option (rel_prod (=) rel) (recv s) (ch_recv c)" by (intro recv_sim)
  then show ?case by (cases rule: option.rel_cases) (use Rcv in \<open>auto simp: rel_prod_conv\<close>)
qed simp

end

section \<open>Connections over a stream\<close>

definition cn_send :: "(envelope \<Rightarrow> bytes outcome) \<Rightarrow> conn \<Rightarrow> envelope \<Rightarrow> (bool \<times> conn) option" where
  "cn_send marshal k env = Some (is_ok (fst (Conn_Send marshal k env)), snd (Conn_Send marshal k env))"

definition cn_recv :: "(bytes \<Rightarrow> envelope outcome) \<Rightarrow> conn \<Rightarrow> (envelope option \<times> conn) option" where
  "cn_recv unmarshal k = Some (got (fst (Conn_Recv unmarshal k)), snd (Conn_Recv unmarshal k))"

lemma msg_rw_conn:
  assumes "pb_laws marshal unmarshal"
  shows "msg_rw (cn_send marshal) (cn_recv unmarshal) (conn_rel marshal pre) (sendable marshal)"
proof
  fix k c env
  assume k: "conn_rel marshal pre k c" "sendable marshal env"
  have room: "ch_room c = None" using k(1) by (simp add: conn_rel_def)
  show "rel_option (rel_prod (=) (conn_rel marshal pre)) (cn_send marshal k env) (ch_send c env)"
    using Conn_Send_sim [OF assms k] room by (simp add: cn_send_def ch_send_def) (metis fst_conv is_ok.simps(1))
next
  fix k c
  assume k: "conn_rel marshal pre k c"
  show "rel_option (rel_prod (=) (conn_rel marshal pre)) (cn_recv unmarshal k) (ch_recv c)"
    using Conn_Recv_sim [OF assms k] Conn_Recv_end [OF assms k]
    by (cases "ch_in c"; cases "fst (Conn_Recv unmarshal k)") (auto simp: cn_recv_def ch_recv_def chan_recv_def got_def)
qed

interpretation pb_conn: msg_rw "cn_send proto_marshal" "cn_recv proto_unmarshal" "conn_rel proto_marshal pre" "sendable proto_marshal"
  by (rule msg_rw_conn [OF proto_pb_laws])

section \<open>Connections in memory\<close>

text \<open>
  \<open>testutil.MemConn\<close>. A Go channel has what was put in and not taken out, its capacity, and whether it is closed; the two ends of a pair
  name the channels by their numbers in the store. A call that blocks is \<open>None\<close>.
\<close>

record go_chan =
  gc_buf :: "envelope list"
  gc_cap :: nat
  gc_closed :: bool

type_synonym go_chans = "nat \<Rightarrow> go_chan"

record mem_conn =
  mm_send :: nat
  mm_recv :: nat
  mm_addr :: string
  mm_peerNodeID :: id32

definition make_chan :: "nat \<Rightarrow> go_chan" where
  "make_chan bufSize = \<lparr>gc_buf = [], gc_cap = bufSize, gc_closed = False\<rparr>"

definition NewMemConnPairWithIDs :: "string \<Rightarrow> nat \<Rightarrow> id32 \<Rightarrow> id32 \<Rightarrow> nat \<Rightarrow> nat \<Rightarrow> go_chans \<Rightarrow> mem_conn \<times> mem_conn \<times> go_chans" where
  "NewMemConnPairWithIDs addr bufSize aID bID ch1 ch2 st =
     (\<lparr>mm_send = ch1, mm_recv = ch2, mm_addr = addr, mm_peerNodeID = bID\<rparr>,
      \<lparr>mm_send = ch2, mm_recv = ch1, mm_addr = addr, mm_peerNodeID = aID\<rparr>,
      st(ch1 := make_chan bufSize, ch2 := make_chan bufSize))"

definition NewMemConnPair :: "string \<Rightarrow> nat \<Rightarrow> nat \<Rightarrow> nat \<Rightarrow> go_chans \<Rightarrow> mem_conn \<times> mem_conn \<times> go_chans" where
  "NewMemConnPair addr bufSize ch1 ch2 st = NewMemConnPairWithIDs addr bufSize (arr_of []) (arr_of []) ch1 ch2 st"

definition MemConn_Send :: "mem_conn \<Rightarrow> envelope \<Rightarrow> go_chans \<Rightarrow> (unit outcome \<times> go_chans) option" where
  "MemConn_Send m env st =
     (let ch = st (mm_send m)
      in if gc_closed ch then Some (Panic, st)
         else if length (gc_buf ch) < gc_cap ch then Some (Ok (), st(mm_send m := ch\<lparr>gc_buf := gc_buf ch @ [env]\<rparr>))
         else None)"

definition MemConn_Recv :: "mem_conn \<Rightarrow> go_chans \<Rightarrow> (envelope outcome \<times> go_chans) option" where
  "MemConn_Recv m st =
     (let ch = st (mm_recv m)
      in case gc_buf ch of
           env # envs \<Rightarrow> Some (Ok env, st(mm_recv m := ch\<lparr>gc_buf := envs\<rparr>))
         | [] \<Rightarrow> if gc_closed ch then Some (Err io_EOF, st) else None)"

definition MemConn_CloseRecv :: "mem_conn \<Rightarrow> go_chans \<Rightarrow> unit outcome \<times> go_chans" where
  "MemConn_CloseRecv m st =
     (let ch = st (mm_recv m) in if gc_closed ch then (Panic, st) else (Ok (), st(mm_recv m := ch\<lparr>gc_closed := True\<rparr>)))"

definition MemConn_Drain :: "mem_conn \<Rightarrow> go_chans \<Rightarrow> nat \<times> go_chans" where
  "MemConn_Drain m st = (length (gc_buf (st (mm_recv m))), st(mm_recv m := (st (mm_recv m))\<lparr>gc_buf := []\<rparr>))"

text \<open>One end of a pair stands for a channel while nobody else uses its two Go channels and the other end has finished sending.\<close>

definition mem_rel :: "mem_conn \<Rightarrow> envelope list \<Rightarrow> go_chans \<Rightarrow> chan \<Rightarrow> bool" where
  "mem_rel m taken st c \<longleftrightarrow>
     mm_send m \<noteq> mm_recv m \<and> \<not> gc_closed (st (mm_send m)) \<and> gc_closed (st (mm_recv m))
   \<and> ch_in c = gc_buf (st (mm_recv m)) \<and> ch_out c = taken @ gc_buf (st (mm_send m))
   \<and> ch_room c = Some (gc_cap (st (mm_send m)) - length (gc_buf (st (mm_send m))))"

definition mm_put :: "mem_conn \<Rightarrow> go_chans \<Rightarrow> envelope \<Rightarrow> (bool \<times> go_chans) option" where
  "mm_put m st env = map_option (\<lambda>p. (is_ok (fst p), snd p)) (MemConn_Send m env st)"

definition mm_get :: "mem_conn \<Rightarrow> go_chans \<Rightarrow> (envelope option \<times> go_chans) option" where
  "mm_get m st = map_option (\<lambda>p. (got (fst p), snd p)) (MemConn_Recv m st)"

interpretation mem: msg_rw "mm_put m" "mm_get m" "mem_rel m taken" "\<lambda>_. True"
proof
  fix st c env
  assume "mem_rel m taken st c"
  then show "rel_option (rel_prod (=) (mem_rel m taken)) (mm_put m st env) (ch_send c env)"
    by (auto simp: mem_rel_def mm_put_def ch_send_def MemConn_Send_def chan_send_def Let_def split: option.split nat.split)
next
  fix st c
  assume "mem_rel m taken st c"
  then show "rel_option (rel_prod (=) (mem_rel m taken)) (mm_get m st) (ch_recv c)"
    by (auto simp: mem_rel_def mm_get_def ch_recv_def MemConn_Recv_def chan_recv_def got_def Let_def split: list.split)
qed

section \<open>The sender as a program\<close>

text \<open>
  \<open>HandleRequest\<close> once more, as the program over \<open>MsgWriter\<close> that it is. Its result is whether it succeeds and the file system after it; over
  a channel it does what \<open>HandleRequest\<close> of \<open>File_Transfer\<close> does.
\<close>

function chunks_over :: "(nat \<Rightarrow> err option) \<Rightarrow> (nat \<Rightarrow> nat option) \<Rightarrow> nat \<Rightarrow> bytes \<Rightarrow> id32 \<Rightarrow> 'f \<Rightarrow> (bool \<times> 'f) prog" where
  "chunks_over ctx plan i rest fileID fs =
     (if ctx i \<noteq> None then Return (False, fs)
      else case plan i of
             None \<Rightarrow> Return (False, fs)
           | Some k \<Rightarrow>
               if rest = [] then Snd (FileChunk \<lparr>fc_FileId = list_of fileID, fc_Data = [], fc_Eof = True\<rparr>) (\<lambda>sent. Return (sent, fs))
               else let n = min (max 1 k) (min chunkSize (length rest))
                    in Snd (FileChunk \<lparr>fc_FileId = list_of fileID, fc_Data = take n rest, fc_Eof = False\<rparr>)
                         (\<lambda>sent. if sent then chunks_over ctx plan (Suc i) (drop n rest) fileID fs else Return (False, fs)))"
  by pat_completeness auto
termination
  by (relation "measure (\<lambda>(_, _, _, rest, _, _). length rest)") (auto simp: chunkSize_def min_def max_def)

declare chunks_over.simps [simp del]

definition HandleRequest_over :: "local_index \<Rightarrow> (nat \<Rightarrow> err option) \<Rightarrow> (nat \<Rightarrow> nat option) \<Rightarrow> id32 \<Rightarrow> fs \<Rightarrow> (bool \<times> fs) prog" where
  "HandleRequest_over idx ctx plan fileID fs =
     (let notFound = (\<lambda>fs. Snd (FileResponse \<lparr>frs_FileId = list_of fileID, frs_Size = 0, frs_NotFound = True\<rparr>) (\<lambda>sent. Return (sent, fs)))
      in case Lookup idx fileID of
           None \<Rightarrow> notFound fs
         | Some path \<Rightarrow>
             (case os_Stat path fs of
                (Ok info, fs1) \<Rightarrow>
                  Snd (FileResponse \<lparr>frs_FileId = list_of fileID, frs_Size = of_nat (fi_size info), frs_NotFound = False\<rparr>)
                    (\<lambda>sent. if \<not> sent then Return (False, fs1)
                       else case os_Open path fs1 of
                              (Ok _, fs2) \<Rightarrow>
                                (case fs_files fs2 path of
                                   Some content \<Rightarrow> chunks_over ctx plan 0 content fileID fs2
                                 | None \<Rightarrow> Return (False, fs2))
                            | (_, fs2) \<Rightarrow> Return (False, fs2))
              | (_, fs1) \<Rightarrow> notFound fs1))"

lemma ch_send_open [simp]: "ch_room c = None \<Longrightarrow> ch_send c env = Some (True, c\<lparr>ch_out := ch_out c @ [env]\<rparr>)"
  by (simp add: ch_send_def)

lemma chunks_over_channel:
  "ch_room c = None \<Longrightarrow> run_prog ch_send ch_recv (chunks_over ctx plan i rest fileID fs) c =
     Some ((is_ok (fst (send_chunks ctx plan i rest fileID c)), fs), snd (send_chunks ctx plan i rest fileID c))"
proof (induction ctx plan i rest fileID c rule: send_chunks.induct)
  case (1 ctx plan i rest fileID c)
  show ?case
  proof (cases "ctx i = None \<and> plan i \<noteq> None \<and> rest \<noteq> []")
    case True
    then obtain k where k: "ctx i = None" "plan i = Some k" "rest \<noteq> []" by auto
    note IH = 1(1) [OF k refl refl prod.collapse]
    let ?n = "min (max 1 k) (min chunkSize (length rest))"
    have "send_chunks ctx plan i rest fileID c = send_chunks ctx plan (Suc i) (drop ?n rest) fileID
        (c\<lparr>ch_out := ch_out c @ [FileChunk \<lparr>fc_FileId = list_of fileID, fc_Data = take ?n rest, fc_Eof = False\<rparr>]\<rparr>)"
      by (subst send_chunks.simps) (simp add: k Let_def 1(2))
    then show ?thesis
      by (subst chunks_over.simps) (use IH 1(2) in \<open>simp add: k Let_def\<close>)
  next
    case False
    then show ?thesis
      unfolding send_chunks.simps [of ctx plan i rest fileID c] chunks_over.simps [of ctx plan i rest fileID fs]
      using 1(2) by (auto split: option.split)
  qed
qed

lemma HandleRequest_over_channel:
  "ch_room c = None \<Longrightarrow> run_prog ch_send ch_recv (HandleRequest_over idx ctx plan fileID fs) c =
     (case HandleRequest idx ctx plan fileID c fs of (r, c', fs') \<Rightarrow> Some ((is_ok r, fs'), c'))"
  by (auto simp: HandleRequest_over_def HandleRequest_def sendNotFound_def chunks_over_channel Let_def split_beta split: option.split outcome.split)

lemma chunks_over_sends: "sends_only fits (chunks_over ctx plan i rest fileID fs)"
proof (induction ctx plan i rest fileID fs rule: chunks_over.induct)
  case (1 ctx plan i rest fileID fs)
  show ?case
    by (subst chunks_over.simps) (use 1 chunk_fits in \<open>auto simp: Let_def split: option.split\<close>)
qed

lemma HandleRequest_over_sends: "sends_only fits (HandleRequest_over idx ctx plan fileID fs)"
  using response_fits chunks_over_sends by (auto simp: HandleRequest_over_def Let_def split: option.split prod.split outcome.split)

lemma sends_only_mono: "sends_only ok p \<Longrightarrow> (\<And>env. ok env \<Longrightarrow> ok' env) \<Longrightarrow> sends_only ok' p"
  by (induction p) auto

lemma run_open:
  "ch_room c = None \<Longrightarrow> \<exists>r c'. run_prog ch_send ch_recv p c = Some (r, c') \<and> ch_room c' = None"
proof (induction p arbitrary: c)
  case (Rcv k)
  then show ?case by (cases "ch_in c") (simp_all add: ch_recv_def chan_recv_def)
qed simp_all

section \<open>Properties\<close>

text \<open>
  C29. Code over messages runs over connections. Take any program that sends messages which marshal to at most 4 MiB and receives messages,
  deciding what to do next by what came and by what could be sent. Over a connection that stands for a channel it ends with the result it has
  over the channel, and the connection then stands for the channel after it: its stream holds the frames of the messages sent.
\<close>

theorem programs_over_connections:
  assumes "pb_laws marshal unmarshal" and "conn_rel marshal pre k c" and "sends_only (sendable marshal) p"
  shows "\<exists>r k' c'. run_prog (cn_send marshal) (cn_recv unmarshal) p k = Some (r, k') \<and> run_prog ch_send ch_recv p c = Some (r, c') \<and>
    conn_rel marshal pre k' c'"
proof -
  have "ch_room c = None" using assms(2) by (simp add: conn_rel_def)
  then obtain r c' where c': "run_prog ch_send ch_recv p c = Some (r, c')" using run_open [of c p] by blast
  have "rel_option (rel_prod (=) (conn_rel marshal pre)) (run_prog (cn_send marshal) (cn_recv unmarshal) p k) (Some (r, c'))"
    using msg_rw.runs_alike [OF msg_rw_conn [OF assms(1)] assms(2,3)] c' by metis
  then obtain k' where "run_prog (cn_send marshal) (cn_recv unmarshal) p k = Some (r, k')" "conn_rel marshal pre k' c'"
    by (auto simp: option_rel_Some2)
  with c' show ?thesis by blast
qed

theorem programs_over_connections_witness:
  "\<exists>k'. run_prog (cn_send proto_marshal) (cn_recv proto_unmarshal) (Rcv (\<lambda>m. Snd (CatalogAck 5) (\<lambda>sent. Return (m, sent))))
     (ex_conn (msg_frame proto_marshal (CatalogAck 7))) = Some ((Some (CatalogAck 7), True), k') \<and>
   w_out (qs_w (cn_stream k')) = msg_frame proto_marshal (CatalogAck 5)"
proof -
  let ?p = "Rcv (\<lambda>m. Snd (CatalogAck 5) (\<lambda>sent. Return (m, sent)))"
  have k: "conn_rel proto_marshal [] (ex_conn (msg_frame proto_marshal (CatalogAck 7))) (ex_chan [CatalogAck 7])"
    by (simp add: conn_rel_def newConn_def ex_sendable)
  have p: "sends_only (sendable proto_marshal) ?p" by (simp add: ex_sendable)
  have run: "run_prog ch_send ch_recv ?p (ex_chan [CatalogAck 7]) = Some ((Some (CatalogAck 7), True), (ex_chan [])\<lparr>ch_out := [CatalogAck 5]\<rparr>)"
    by (simp add: ch_recv_def chan_recv_def got_def)
  obtain r k' c' where k': "run_prog (cn_send proto_marshal) (cn_recv proto_unmarshal) ?p (ex_conn (msg_frame proto_marshal (CatalogAck 7))) = Some (r, k')"
    "run_prog ch_send ch_recv ?p (ex_chan [CatalogAck 7]) = Some (r, c')" "conn_rel proto_marshal [] k' c'"
    using programs_over_connections [OF proto_pb_laws k p] by blast
  have "r = (Some (CatalogAck 7), True)" "c' = (ex_chan [])\<lparr>ch_out := [CatalogAck 5]\<rparr>" using k'(2) unfolding run by simp_all
  with k'(1,3) show ?thesis unfolding conn_rel_def by (intro exI [of _ k']) simp
qed



end
