(* ===== verification/Ipc.thy ===== *)
theory Ipc
  imports Peerstore
begin

text \<open>
  The control interface between the daemon and its clients: the types of \<open>internal/daemon/types.go\<close>, the helpers and
  the socket server of \<open>internal/daemon/server.go\<close>, and the client of \<open>internal/ipc/client.go\<close>. The framing of the JSON
  messages is in the theory Wire; here a message is its value. The parameters of a request are what \<open>json.Unmarshal\<close>
  makes of them for the two methods that have any. The message of an error is kept as the error it renders.
\<close>

section \<open>Types\<close>

record file_info =
  fl_FileID :: string
  fl_Name :: string
  fl_Size :: "64 word"
  fl_ModTime :: string
  fl_OwnerNodeID :: string
  fl_IsLocal :: bool

record peer_info =
  pi_NodeID :: string
  pi_NodeIDShort :: string
  pi_TrustState :: string
  pi_LastSeen :: string
  pi_Endpoints :: "string list"
  pi_Online :: bool

record status_resp =
  sr_NodeID :: string
  sr_NodeIDShort :: string
  sr_ListenAddr :: string
  sr_SharedDir :: string
  sr_PeerCount :: nat
  sr_RelayAddr :: string
  sr_RelayOnline :: bool

datatype ipc_data =
    StatusResponse status_resp
  | PeersResponse "peer_info list"
  | InviteResponse string
  | JoinResponse string
  | CatalogResponse "file_info list"

record request =
  rq_ID :: "64 word"
  rq_Method :: string
  rq_join :: "string outcome"
  rq_download :: "string outcome"

record response =
  rs_ID :: "64 word"
  rs_Error :: "(string \<times> err) option"
  rs_Data :: "ipc_data option"

datatype event = PeerOnline peer_info | PeerOffline string | CatalogUpdated

definition errResponse :: "64 word \<Rightarrow> string \<Rightarrow> err \<Rightarrow> response" where
  "errResponse i code message = \<lparr>rs_ID = i, rs_Error = Some (code, message), rs_Data = None\<rparr>"

definition okResponse :: "64 word \<Rightarrow> ipc_data \<Rightarrow> response" where
  "okResponse i d = \<lparr>rs_ID = i, rs_Error = None, rs_Data = Some d\<rparr>"

definition hexNodeID :: "id32 \<Rightarrow> string" where
  "hexNodeID n = hex_encode (list_of n)"

definition shortID :: "string \<Rightarrow> string" where
  "shortID h = (if 16 < length h then take 16 h else h)"

section \<open>The socket server\<close>

text \<open>
  Connections are numbered; \<open>is_up n\<close> says whether writing to the connection \<open>n\<close> works. A subscriber is the
  connection it was made on.
\<close>

datatype ipc_msg = Resp response | Evt event

record ipc_server =
  is_closed :: bool
  is_subs :: "nat list"
  is_subClosed :: "nat \<Rightarrow> bool"
  is_open :: "nat \<Rightarrow> bool"
  is_up :: "nat \<Rightarrow> bool"
  is_out :: "nat \<Rightarrow> ipc_msg list"
  is_listening :: bool

text \<open>
  \<open>removeStaleSocket\<close>: what \<open>os.Stat\<close>, a connection attempt and \<open>os.Remove\<close> return.
\<close>

definition removeStaleSocket :: "unit outcome \<Rightarrow> bool \<Rightarrow> unit outcome \<Rightarrow> unit outcome" where
  "removeStaleSocket stat live removed =
     (case stat of
        Err e \<Rightarrow> if errors_is e ''file does not exist'' then Ok () else Err e
      | Panic \<Rightarrow> Panic
      | Ok _ \<Rightarrow> if live then Err (Message ''another daemon is already running'') else removed)"

definition NewIpcServer :: "unit outcome \<Rightarrow> bool \<Rightarrow> unit outcome \<Rightarrow> unit outcome \<Rightarrow> unit outcome \<Rightarrow> (nat \<Rightarrow> bool) \<Rightarrow> ipc_server outcome" where
  "NewIpcServer stat live removed listened chmodded up =
     obind (owrap ''daemon: stale socket'' (removeStaleSocket stat live removed)) (\<lambda>_.
     obind (owrap ''daemon: listen'' listened) (\<lambda>_.
     obind (owrap ''daemon: chmod socket'' chmodded) (\<lambda>_.
     Ok \<lparr>is_closed = False, is_subs = [], is_subClosed = (\<lambda>_. False), is_open = (\<lambda>_. True), is_up = up, is_out = (\<lambda>_. []),
         is_listening = True\<rparr>)))"

definition conn_write :: "nat \<Rightarrow> ipc_msg \<Rightarrow> ipc_server \<Rightarrow> bool \<times> ipc_server" where
  "conn_write n m s =
     (if is_open s n \<and> is_up s n then (True, s\<lparr>is_out := (is_out s)(n := is_out s n @ [m])\<rparr>) else (False, s))"

definition conn_close :: "nat \<Rightarrow> ipc_server \<Rightarrow> ipc_server" where
  "conn_close n s = s\<lparr>is_open := (is_open s)(n := False)\<rparr>"

definition sub_send :: "nat \<Rightarrow> event \<Rightarrow> ipc_server \<Rightarrow> bool \<times> ipc_server" where
  "sub_send n ev s = (if is_subClosed s n then (False, s) else conn_write n (Evt ev) s)"

definition sub_close :: "nat \<Rightarrow> ipc_server \<Rightarrow> ipc_server" where
  "sub_close n s = (if is_subClosed s n then s else conn_close n (s\<lparr>is_subClosed := (is_subClosed s)(n := True)\<rparr>))"

definition removeSub :: "nat \<Rightarrow> ipc_server \<Rightarrow> ipc_server" where
  "removeSub n s = s\<lparr>is_subs := remove1 n (is_subs s)\<rparr>"

fun send_all :: "event \<Rightarrow> nat list \<Rightarrow> ipc_server \<Rightarrow> ipc_server" where
  "send_all ev [] s = s"
| "send_all ev (n # ns) s =
     (let (sent, s1) = sub_send n ev s in send_all ev ns (if sent then s1 else sub_close n (removeSub n s1)))"

definition ipc_Broadcast :: "event \<Rightarrow> ipc_server \<Rightarrow> ipc_server" where
  "ipc_Broadcast ev s = send_all ev (is_subs s) s"

definition ipc_Close :: "ipc_server \<Rightarrow> ipc_server" where
  "ipc_Close s =
     (if is_closed s then s
      else (fold sub_close (is_subs s) (s\<lparr>is_closed := True, is_subs := []\<rparr>))\<lparr>is_listening := False\<rparr>)"

definition handleSubscribe :: "nat \<Rightarrow> 64 word \<Rightarrow> ipc_server \<Rightarrow> ipc_server" where
  "handleSubscribe n reqID s =
     (let (sent, s1) = conn_write n (Resp \<lparr>rs_ID = reqID, rs_Error = None, rs_Data = None\<rparr>) s
      in if sent then s1\<lparr>is_subs := is_subs s1 @ [n]\<rparr> else conn_close n s1)"

text \<open>The end of a subscription: the read on its connection fails.\<close>

definition subscribe_ends :: "nat \<Rightarrow> ipc_server \<Rightarrow> ipc_server" where
  "subscribe_ends n s = conn_close n (removeSub n s)"

text \<open>One round of \<open>handleConn\<close> on what \<open>ReadJSON\<close> returned; \<open>handle\<close> answers a request and may change the daemon's state.\<close>

definition handleConn ::
  "(request \<Rightarrow> 'd \<Rightarrow> response outcome \<times> 'd) \<Rightarrow> nat \<Rightarrow> request option \<Rightarrow> 'd \<Rightarrow> ipc_server \<Rightarrow> ('d \<times> ipc_server) outcome" where
  "handleConn handle n inp d s =
     (case inp of
        None \<Rightarrow> Ok (d, conn_close n s)
      | Some req \<Rightarrow>
          if rq_Method req = ''subscribe'' then Ok (d, handleSubscribe n (rq_ID req) s)
          else (let (resp, d1) = handle req d
                in obind resp (\<lambda>resp.
                   let (sent, s1) = conn_write n (Resp resp) s in Ok (d1, if sent then s1 else conn_close n s1))))"

text \<open>
  The loop of \<open>Serve\<close> on the results of \<open>Accept\<close>, each with whether the server is closed when a failure is looked at: the
  connections that \<open>handleConn\<close> is started on. Without a result, \<open>Accept\<close> is still waiting.
\<close>

fun ipc_Serve :: "(nat outcome \<times> bool) list \<Rightarrow> nat list" where
  "ipc_Serve [] = []"
| "ipc_Serve ((res, closed) # rest) =
     (case res of
        Ok n \<Rightarrow> n # ipc_Serve rest
      | _ \<Rightarrow> if closed then [] else ipc_Serve rest)"

definition BroadcastPeerOnline :: "id32 \<Rightarrow> ipc_server \<Rightarrow> ipc_server" where
  "BroadcastPeerOnline peerID =
     ipc_Broadcast (PeerOnline \<lparr>pi_NodeID = hexNodeID peerID, pi_NodeIDShort = shortID (hexNodeID peerID), pi_TrustState = [],
       pi_LastSeen = [], pi_Endpoints = [], pi_Online = True\<rparr>)"

definition BroadcastPeerOffline :: "id32 \<Rightarrow> ipc_server \<Rightarrow> ipc_server" where
  "BroadcastPeerOffline peerID = ipc_Broadcast (PeerOffline (hexNodeID peerID))"

definition BroadcastCatalogUpdated :: "ipc_server \<Rightarrow> ipc_server" where
  "BroadcastCatalogUpdated = ipc_Broadcast CatalogUpdated"

section \<open>The client\<close>

record ipc_client =
  ic_nextID :: "64 word"
  ic_sent :: "request list"

text \<open>\<open>call\<close>: \<open>written\<close> and \<open>answer\<close> are what \<open>WriteJSON\<close> and \<open>ReadJSON\<close> return.\<close>

definition ipc_call ::
  "unit outcome \<Rightarrow> response outcome \<Rightarrow> string \<Rightarrow> string outcome \<Rightarrow> string outcome \<Rightarrow> ipc_client \<Rightarrow> response outcome \<times> ipc_client" where
  "ipc_call written answer meth jp dp c =
     (let i = ic_nextID c + 1; req = \<lparr>rq_ID = i, rq_Method = meth, rq_join = jp, rq_download = dp\<rparr>; c1 = c\<lparr>ic_nextID := i\<rparr>
      in case written of
           Ok _ \<Rightarrow> (answer, c1\<lparr>ic_sent := ic_sent c1 @ [req]\<rparr>)
         | r \<Rightarrow> (fail_of r, c1))"

text \<open>\<open>callAndDecode\<close>; \<open>dec\<close> is \<open>json.Unmarshal\<close> of the data into the method's type.\<close>

definition callAndDecode ::
  "(ipc_data option \<Rightarrow> 't outcome) \<Rightarrow> unit outcome \<Rightarrow> response outcome \<Rightarrow> string \<Rightarrow> string outcome \<Rightarrow> string outcome \<Rightarrow> ipc_client \<Rightarrow> 't outcome \<times> ipc_client" where
  "callAndDecode dec written answer meth jp dp c =
     (let (r, c1) = ipc_call written answer meth jp dp c
      in (obind r (\<lambda>resp. case rs_Error resp of
            Some (code, msg) \<Rightarrow> Err (Wrap (''daemon: '' @ code) msg)
          | None \<Rightarrow> owrap (''ipc: unmarshal '' @ meth) (dec (rs_Data resp))), c1))"

text \<open>
  The calls by name. \<open>json.Unmarshal\<close> into the type of each method is a parameter; \<open>json_laws\<close> says that it gives back the
  value the daemon has marshalled. Without parameters the daemon finds no JSON text.
\<close>

record ipc_json =
  dc_status :: "ipc_data option \<Rightarrow> status_resp outcome"
  dc_peers :: "ipc_data option \<Rightarrow> peer_info list outcome"
  dc_invite :: "ipc_data option \<Rightarrow> string outcome"
  dc_join :: "ipc_data option \<Rightarrow> string outcome"
  dc_catalog :: "ipc_data option \<Rightarrow> file_info list outcome"
  dc_download :: "ipc_data option \<Rightarrow> unit outcome"

definition json_laws :: "ipc_json \<Rightarrow> bool" where
  "json_laws J \<longleftrightarrow> (\<forall>r. dc_status J (Some (StatusResponse r)) = Ok r) \<and> (\<forall>r. dc_peers J (Some (PeersResponse r)) = Ok r)
     \<and> (\<forall>r. dc_invite J (Some (InviteResponse r)) = Ok r) \<and> (\<forall>r. dc_join J (Some (JoinResponse r)) = Ok r)
     \<and> (\<forall>r. dc_catalog J (Some (CatalogResponse r)) = Ok r)"

definition no_params :: "string outcome" where
  "no_params = Err (Message ''unexpected end of JSON input'')"

definition Client_Status :: "ipc_json \<Rightarrow> unit outcome \<Rightarrow> response outcome \<Rightarrow> ipc_client \<Rightarrow> status_resp outcome \<times> ipc_client" where
  "Client_Status J written answer = callAndDecode (dc_status J) written answer ''status'' no_params no_params"

definition Client_Peers :: "ipc_json \<Rightarrow> unit outcome \<Rightarrow> response outcome \<Rightarrow> ipc_client \<Rightarrow> peer_info list outcome \<times> ipc_client" where
  "Client_Peers J written answer = callAndDecode (dc_peers J) written answer ''peers'' no_params no_params"

definition Client_Invite :: "ipc_json \<Rightarrow> unit outcome \<Rightarrow> response outcome \<Rightarrow> ipc_client \<Rightarrow> string outcome \<times> ipc_client" where
  "Client_Invite J written answer = callAndDecode (dc_invite J) written answer ''invite'' no_params no_params"

text \<open>The parameter of \<open>join\<close>, read as that of \<open>download\<close>, is an object without the field, and the other way round.\<close>

definition Client_Join :: "ipc_json \<Rightarrow> unit outcome \<Rightarrow> response outcome \<Rightarrow> string \<Rightarrow> ipc_client \<Rightarrow> string outcome \<times> ipc_client" where
  "Client_Join J written answer token = callAndDecode (dc_join J) written answer ''join'' (Ok token) (Ok [])"

definition Client_Catalog :: "ipc_json \<Rightarrow> unit outcome \<Rightarrow> response outcome \<Rightarrow> ipc_client \<Rightarrow> file_info list outcome \<times> ipc_client" where
  "Client_Catalog J written answer = callAndDecode (dc_catalog J) written answer ''catalog'' no_params no_params"

definition Client_Download :: "ipc_json \<Rightarrow> unit outcome \<Rightarrow> response outcome \<Rightarrow> string \<Rightarrow> ipc_client \<Rightarrow> unit outcome \<times> ipc_client" where
  "Client_Download J written answer fileID = callAndDecode (dc_download J) written answer ''download'' (Ok []) (Ok fileID)"

text \<open>\<open>Subscribe\<close> up to its goroutine: the channel starts empty.\<close>

definition Client_Subscribe :: "unit outcome \<Rightarrow> response outcome \<Rightarrow> ipc_client \<Rightarrow> event list outcome \<times> ipc_client" where
  "Client_Subscribe written answer c =
     (let (r, c1) = ipc_call written answer ''subscribe'' no_params no_params c
      in (obind r (\<lambda>resp. case rs_Error resp of
            Some (code, msg) \<Rightarrow> Err (Wrap (''daemon: '' @ code) msg)
          | None \<Rightarrow> Ok []), c1))"

text \<open>The goroutine of \<open>Subscribe\<close>: an event is dropped while 64 of them wait.\<close>

definition event_in :: "event \<Rightarrow> event list \<Rightarrow> event list" where
  "event_in ev buf = (if length buf < 64 then buf @ [ev] else buf)"

section \<open>Broadcasts\<close>

lemma sub_close_sel [simp]:
  "is_subs (sub_close n s) = is_subs s" "is_out (sub_close n s) = is_out s" "is_up (sub_close n s) = is_up s"
  "m \<noteq> n \<Longrightarrow> is_open (sub_close n s) m = is_open s m" "m \<noteq> n \<Longrightarrow> is_subClosed (sub_close n s) m = is_subClosed s m"
  by (simp_all add: sub_close_def conn_close_def)

lemma removeSub_sel [simp]:
  "is_subs (removeSub n s) = remove1 n (is_subs s)" "is_out (removeSub n s) = is_out s" "is_up (removeSub n s) = is_up s"
  "is_open (removeSub n s) = is_open s" "is_subClosed (removeSub n s) = is_subClosed s"
  by (simp_all add: removeSub_def)

definition reachable_sub :: "ipc_server \<Rightarrow> nat \<Rightarrow> bool" where
  "reachable_sub s n \<longleftrightarrow> \<not> is_subClosed s n \<and> is_open s n \<and> is_up s n"

lemma send_all_step:
  "send_all ev (n # ns) s =
    (if reachable_sub s n then send_all ev ns (s\<lparr>is_out := (is_out s)(n := is_out s n @ [Evt ev])\<rparr>)
     else send_all ev ns (sub_close n (removeSub n s)))"
  by (auto simp: sub_send_def conn_write_def reachable_sub_def)

lemma reachable_sub_out [simp]: "reachable_sub (s\<lparr>is_out := x\<rparr>) = reachable_sub s"
  by (simp add: reachable_sub_def fun_eq_iff)

lemma reachable_sub_closed: "m \<noteq> n \<Longrightarrow> reachable_sub (sub_close n (removeSub n s)) m = reachable_sub s m"
  by (simp add: reachable_sub_def)

lemma send_all_out:
  "distinct ns \<Longrightarrow> is_out (send_all ev ns s) n = is_out s n @ (if n \<in> set ns \<and> reachable_sub s n then [Evt ev] else [])"
proof (induction ns arbitrary: s)
  case (Cons m ns)
  then show ?case
    by (cases "n = m") (simp_all add: send_all_step reachable_sub_closed del: send_all.simps)
qed simp

text \<open>Who is still subscribed after a broadcast: those it reached.\<close>

lemma send_all_subs:
  "distinct ns \<Longrightarrow> distinct (is_subs s) \<Longrightarrow>
   set (is_subs (send_all ev ns s)) = {m \<in> set (is_subs s). m \<in> set ns \<longrightarrow> reachable_sub s m}"
proof (induction ns arbitrary: s)
  case (Cons m ns)
  let ?s1 = "if reachable_sub s m then s\<lparr>is_out := (is_out s)(m := is_out s m @ [Evt ev])\<rparr> else sub_close m (removeSub m s)"
  have step: "send_all ev (m # ns) s = send_all ev ns ?s1" by (simp add: send_all_step del: send_all.simps)
  have subs: "distinct (is_subs ?s1)" "set (is_subs ?s1) = {k \<in> set (is_subs s). k = m \<longrightarrow> reachable_sub s m}"
    using Cons.prems(2) by (auto simp: distinct_remove1)
  have same: "reachable_sub ?s1 k = reachable_sub s k" if "k \<in> set ns" for k
  proof -
    have "k \<noteq> m" using that Cons.prems(1) by auto
    then show ?thesis by (simp add: reachable_sub_closed)
  qed
  have "set (is_subs (send_all ev ns ?s1)) = {k \<in> set (is_subs ?s1). k \<in> set ns \<longrightarrow> reachable_sub ?s1 k}"
    by (rule Cons.IH [OF _ subs(1)]) (use Cons.prems(1) in simp)
  then show ?case unfolding step subs(2) using same by auto
qed simp

lemma ipc_Broadcast_out:
  "distinct (is_subs s) \<Longrightarrow>
   is_out (ipc_Broadcast ev s) n = is_out s n @ (if n \<in> set (is_subs s) \<and> reachable_sub s n then [Evt ev] else [])
   \<and> set (is_subs (ipc_Broadcast ev s)) = {m \<in> set (is_subs s). reachable_sub s m}"
  by (auto simp: ipc_Broadcast_def send_all_out send_all_subs)

end
