(* ===== verification/Daemon.thy ===== *)
theory Daemon
  imports Connmgr Peer_Handler Watcher Ipc
begin

text \<open>
  The daemon, \<open>internal/daemon/handler.go\<close> and \<open>internal/daemon/daemon.go\<close>: the requests of its control socket, start-up,
  the accept loop and the relay loop, composed from the models of the other parts. The peer protocol handler holds the
  catalog and the connections that are served; \<open>dm_joined\<close> lists the connections that joins have handed to a goroutine.
\<close>

record daemon_env =
  en_C :: crypto
  en_X :: x509
  en_N :: network
  en_D :: dial_env
  en_now :: gotime
  en_seen :: gotime
  en_nonce :: "id16 outcome"
  en_addr :: string                       \<comment> \<open>\<open>listener.Addr().String()\<close>\<close>
  en_unspecified :: "string \<Rightarrow> bool option"  \<comment> \<open>\<open>net.ParseIP\<close>, then \<open>IsUnspecified\<close>\<close>
  en_format :: "gotime \<Rightarrow> string"            \<comment> \<open>\<open>Format(time.RFC3339)\<close>\<close>

record 'b daemon =
  dm_id :: identity
  dm_store :: "'b peerstore"
  dm_proto :: "'b handler"
  dm_listener :: listener
  dm_sharedDir :: string
  dm_relayAddr :: string
  dm_server :: ipc_server
  dm_joined :: "conn list"

section \<open>Requests\<close>

definition isRoutableListenAddr :: "(string \<Rightarrow> bool option) \<Rightarrow> string \<Rightarrow> bool" where
  "isRoutableListenAddr unspecified addr =
     (case SplitHostPort addr of
        None \<Rightarrow> False
      | Some (host, _) \<Rightarrow> host \<noteq> [] \<and> unspecified host = Some False)"

definition handleStatus :: "'b bolt \<Rightarrow> daemon_env \<Rightarrow> 64 word \<Rightarrow> 'b daemon \<Rightarrow> response outcome" where
  "handleStatus B E i d =
     (case ListPeers B (dm_store d) of
        Err e \<Rightarrow> Ok (errResponse i ''internal'' (Wrap ''list peers'' e))
      | Panic \<Rightarrow> Panic
      | Ok peers \<Rightarrow>
          (let nodeID = NodeIDHex (dm_id d)
           in Ok (okResponse i (StatusResponse \<lparr>sr_NodeID = nodeID, sr_NodeIDShort = shortID nodeID, sr_ListenAddr = en_addr E,
                sr_SharedDir = dm_sharedDir d, sr_PeerCount = length peers, sr_RelayAddr = dm_relayAddr d,
                sr_RelayOnline = (dm_relayAddr d \<noteq> [])\<rparr>))))"

definition handlePeers :: "'b bolt \<Rightarrow> daemon_env \<Rightarrow> 64 word \<Rightarrow> 'b daemon \<Rightarrow> response outcome" where
  "handlePeers B E i d =
     (case ListPeers B (dm_store d) of
        Err e \<Rightarrow> Ok (errResponse i ''internal'' (Wrap ''list peers'' e))
      | Panic \<Rightarrow> Panic
      | Ok peers \<Rightarrow>
          Ok (okResponse i (PeersResponse (map (\<lambda>p. \<lparr>pi_NodeID = hexNodeID (p_NodeID p), pi_NodeIDShort = shortID (hexNodeID (p_NodeID p)),
            pi_TrustState = p_TrustState p, pi_LastSeen = en_format E (p_LastSeen p), pi_Endpoints = p_Endpoints p, pi_Online = False\<rparr>) peers))))"

definition invite_endpoints :: "daemon_env \<Rightarrow> string \<Rightarrow> string list" where
  "invite_endpoints E relayAddr =
     (if en_addr E \<noteq> [] \<and> isRoutableListenAddr (en_unspecified E) (en_addr E) then [en_addr E] else []) @
     (if relayAddr \<noteq> [] then [relay_scheme @ relayAddr] else [])"

definition handleInvite :: "daemon_env \<Rightarrow> 64 word \<Rightarrow> 'b daemon \<Rightarrow> response outcome" where
  "handleInvite E i d =
     (case Create (id_PrivKey (dm_id d)) (invite_endpoints E (dm_relayAddr d)) DefaultTTL (en_nonce E) (en_now E) of
        Err e \<Rightarrow> Ok (errResponse i ''internal'' (Wrap ''create invite'' e))
      | Panic \<Rightarrow> Panic
      | Ok tok \<Rightarrow>
          (case Encode (en_C E) tok (id_PrivKey (dm_id d)) of
             Err e \<Rightarrow> Ok (errResponse i ''internal'' (Wrap ''encode invite'' e))
           | Panic \<Rightarrow> Panic
           | Ok raw \<Rightarrow> Ok (okResponse i (InviteResponse raw))))"

text \<open>From the connection on: \<open>handleJoin\<close> after \<open>Dial\<close> has succeeded.\<close>

definition joined :: "'b bolt \<Rightarrow> daemon_env \<Rightarrow> 64 word \<Rightarrow> token \<Rightarrow> conn \<Rightarrow> 'b daemon \<Rightarrow> response outcome \<times> 'b daemon" where
  "joined B E i tok conn d =
     (let actualPeerID = Conn_PeerID conn;
          (r, st) = PutPeer B (en_seen E) (dm_store d) \<lparr>p_NodeID = actualPeerID, p_PublicKey = t_PublicKey tok,
            p_Endpoints = t_Endpoints tok, p_TrustState = TrustTOFU, p_LastSeen = zero_time\<rparr>
      in (Ok (okResponse i (JoinResponse (hexNodeID actualPeerID))), d\<lparr>dm_store := st, dm_joined := dm_joined d @ [conn]\<rparr>))"

definition handleJoin :: "'b bolt \<Rightarrow> daemon_env \<Rightarrow> 64 word \<Rightarrow> string outcome \<Rightarrow> 'b daemon \<Rightarrow> response outcome \<times> 'b daemon" where
  "handleJoin B E i params d =
     (case params of
        Err e \<Rightarrow> (Ok (errResponse i ''invalid_params'' (Wrap ''decode params'' e)), d)
      | Panic \<Rightarrow> (Panic, d)
      | Ok raw \<Rightarrow>
          if raw = [] then (Ok (errResponse i ''invalid_params'' (Message ''token is required'')), d)
          else case Decode raw of
            Err e \<Rightarrow> (Ok (errResponse i ''invalid_token'' (Wrap ''decode invite'' e)), d)
          | Panic \<Rightarrow> (Panic, d)
          | Ok tok \<Rightarrow>
              (let (v, st) = Validate (en_C E) (HasNonce B) (SaveNonce B) (en_now E) tok raw (dm_store d); d1 = d\<lparr>dm_store := st\<rparr>
               in case v of
                    Err e \<Rightarrow> (Ok (errResponse i ''invalid_token'' (Wrap ''validate invite'' e)), d1)
                  | Panic \<Rightarrow> (Panic, d1)
                  | Ok _ \<Rightarrow>
                      if length (t_PublicKey tok) \<noteq> 32 then (Ok (errResponse i ''invalid_token'' (Message (''unexpected public key length '' @ dec_nat (length (t_PublicKey tok))))), d1)
                      else if t_Endpoints tok = [] then (Ok (errResponse i ''invalid_token'' (Message ''invite has no endpoints'')), d1)
                      else (let (c, l) = Dial (en_X E) (cr_sha (en_C E)) (en_N E) (en_D E) (dm_id d1) (cr_sha (en_C E) (t_PublicKey tok))
                                  (t_Endpoints tok) (dm_listener d1);
                                d2 = d1\<lparr>dm_listener := l\<rparr>
                            in case c of
                                 Err e \<Rightarrow> (Ok (errResponse i ''connect_failed'' (Wrap ''connect'' e)), d2)
                               | Panic \<Rightarrow> (Panic, d2)
                               | Ok conn \<Rightarrow> joined B E i tok conn d2)))"

definition handleCatalog :: "'b bolt \<Rightarrow> daemon_env \<Rightarrow> 64 word \<Rightarrow> 'b daemon \<Rightarrow> response outcome" where
  "handleCatalog B E i d =
     (case ha_catalog (dm_proto d) of
        None \<Rightarrow> Panic
      | Some cat \<Rightarrow>
          (case ListAll B cat of
             Err e \<Rightarrow> Ok (errResponse i ''internal'' (Wrap ''list catalog'' e))
           | Panic \<Rightarrow> Panic
           | Ok entries \<Rightarrow>
               Ok (okResponse i (CatalogResponse (map (\<lambda>e. \<lparr>fl_FileID = hexNodeID (e_FileID e), fl_Name = e_Name e, fl_Size = e_Size e,
                 fl_ModTime = en_format E (e_ModTime e), fl_OwnerNodeID = hexNodeID (e_OwnerNodeID e),
                 fl_IsLocal = (e_OwnerNodeID e = id_NodeID (dm_id d))\<rparr>) entries)))))"

definition handleDownload :: "64 word \<Rightarrow> string outcome \<Rightarrow> response outcome" where
  "handleDownload i params =
     (case params of
        Err e \<Rightarrow> Ok (errResponse i ''invalid_params'' (Wrap ''decode params'' e))
      | Panic \<Rightarrow> Panic
      | Ok fileID \<Rightarrow>
          if fileID = [] then Ok (errResponse i ''invalid_params'' (Message ''file_id is required''))
          else Ok (errResponse i ''not_implemented'' (Message ''download via daemon is not yet implemented'')))"

definition Handle :: "'b bolt \<Rightarrow> daemon_env \<Rightarrow> request \<Rightarrow> 'b daemon \<Rightarrow> response outcome \<times> 'b daemon" where
  "Handle B E req d =
     (if rq_Method req = ''status'' then (handleStatus B E (rq_ID req) d, d)
      else if rq_Method req = ''peers'' then (handlePeers B E (rq_ID req) d, d)
      else if rq_Method req = ''invite'' then (handleInvite E (rq_ID req) d, d)
      else if rq_Method req = ''join'' then handleJoin B E (rq_ID req) (rq_join req) d
      else if rq_Method req = ''catalog'' then (handleCatalog B E (rq_ID req) d, d)
      else if rq_Method req = ''download'' then (handleDownload (rq_ID req) (rq_download req), d)
      else (Ok (errResponse (rq_ID req) ''unknown_method'' (Message (''unknown method: '' @ rq_Method req))), d))"

text \<open>
  A protocol handler of a daemon calls \<open>BroadcastCatalogUpdated\<close> on every catalog it has stored; \<open>proto_ran h\<close> is the
  daemon after its protocol handler went on to \<open>h\<close>.
\<close>

definition proto_ran :: "'b handler \<Rightarrow> 'b daemon \<Rightarrow> 'b daemon" where
  "proto_ran h d =
     d\<lparr>dm_proto := h, dm_server := (BroadcastCatalogUpdated ^^ (ha_updates h - ha_updates (dm_proto d))) (dm_server d)\<rparr>"

text \<open>\<open>serveJoinedPeer\<close>; the connection has the number \<open>n\<close> in the protocol handler.\<close>

definition serveJoinedPeer :: "'b bolt \<Rightarrow> serve_env \<Rightarrow> nat \<Rightarrow> 'b daemon \<Rightarrow> 'b daemon" where
  "serveJoinedPeer B SE n d =
     (let peerID = ha_peer (dm_proto d) n;
          d1 = d\<lparr>dm_server := BroadcastPeerOnline peerID (dm_server d)\<rparr>;
          d2 = proto_ran (Peer_Handler.Serve B SE n (dm_proto d1)) d1
      in d2\<lparr>dm_server := BroadcastPeerOffline peerID (dm_server d2)\<rparr>)"

section \<open>The daemon's own loops\<close>

text \<open>One round of \<open>acceptLoop\<close> with what \<open>Accept\<close> returned, and the goroutine that serves the connection.\<close>

definition accept_round :: "'b bolt \<Rightarrow> daemon_env \<Rightarrow> (conn \<times> id32) outcome \<Rightarrow> 'b daemon \<Rightarrow> 'b daemon" where
  "accept_round B E res d =
     (case res of
        Ok (conn, _) \<Rightarrow>
          d\<lparr>dm_store := snd (UpdateLastSeen B (en_seen E) (dm_store d) (Conn_PeerID conn)),
            dm_server := BroadcastPeerOnline (Conn_PeerID conn) (dm_server d)\<rparr>
      | _ \<Rightarrow> d)"

definition serve_accepted :: "'b bolt \<Rightarrow> serve_env \<Rightarrow> nat \<Rightarrow> 'b daemon \<Rightarrow> 'b daemon" where
  "serve_accepted B SE n d =
     (let d1 = proto_ran (Peer_Handler.Serve B SE n (dm_proto d)) d
      in d1\<lparr>dm_server := BroadcastPeerOffline (ha_peer (dm_proto d) n) (dm_server d1)\<rparr>)"

text \<open>The watcher's \<open>onChange\<close>.\<close>

definition onChange :: "'b bolt \<Rightarrow> nat list \<Rightarrow> 'b daemon \<Rightarrow> 'b daemon" where
  "onChange B order d =
     d\<lparr>dm_server := BroadcastCatalogUpdated (dm_server d), dm_proto := BroadcastCatalog B order (dm_proto d)\<rparr>"

definition maxBackoff :: gotime where
  "maxBackoff = 30 * second"

text \<open>
  \<open>relayLoop\<close>: the pauses it makes, for each \<open>ServePunch\<close> that returned: whether the context had ended then, and whether it ends in
  the pause.
\<close>

fun relayLoop :: "gotime \<Rightarrow> (bool \<times> bool) list \<Rightarrow> gotime list" where
  "relayLoop backoff [] = []"
| "relayLoop backoff ((ended, endsInPause) # rest) =
     (if ended then [] else backoff # (if endsInPause then [] else relayLoop (min (backoff * 2) maxBackoff) rest))"

text \<open>
  \<open>Run\<close> up to the start of its goroutines. The databases found in the configuration directory, the walk of the shared
  folder and the results of setting up the socket are arguments.
\<close>

record socket_env =
  so_stat :: "unit outcome"
  so_live :: bool
  so_removed :: "unit outcome"
  so_listened :: "unit outcome"
  so_chmodded :: "unit outcome"
  so_up :: "nat \<Rightarrow> bool"

definition Run_start ::
  "'b bolt \<Rightarrow> daemon_env \<Rightarrow> id32 outcome \<Rightarrow> ('b option \<times> 'b option) outcome \<Rightarrow> ('b option \<times> 'b option) outcome \<Rightarrow>
   (string \<times> bool \<times> err option) list \<Rightarrow> socket_env \<Rightarrow> (nat \<Rightarrow> chan) \<Rightarrow> (nat \<Rightarrow> id32) \<Rightarrow>
   string \<Rightarrow> string \<Rightarrow> string \<Rightarrow> string \<Rightarrow> fs \<Rightarrow> 'b daemon outcome \<times> fs" where
  "Run_start B E rnd peersDb catalogDb visits S chans peers cfgDir sharedDir listenAddr relayAddr fs =
     (let (r, fs1) = LoadOrGenerate (en_C E) rnd cfgDir fs
      in case owrap ''identity'' r of
           Ok ident \<Rightarrow>
             (case owrap ''peerstore'' (OpenPeers B peersDb) of
                Ok store \<Rightarrow>
                  (let (m, fs2) = os_MkdirAll sharedDir fs1
                   in case owrap ''create shared dir'' m of
                        Ok _ \<Rightarrow>
                          (case owrap ''catalog'' (Open B catalogDb (id_NodeID ident)) of
                             Ok cat \<Rightarrow>
                               (let (s, idx, fs3) = Scan (cr_sha (en_C E)) visits NewLocalIndex fs2;
                                    proto = SetOnCatalogUpdate (NewHandler idx (Some cat) (id_NodeID ident) chans peers fs3)
                                in case owrap ''listen'' (fst (Listen (en_X E) (en_N E) (en_now E) (en_now E) listenAddr ident)) of
                                     Ok ln \<Rightarrow>
                                       (case owrap ''daemon socket'' (NewIpcServer (so_stat S) (so_live S) (so_removed S) (so_listened S) (so_chmodded S) (so_up S)) of
                                          Ok server \<Rightarrow>
                                            (Ok \<lparr>dm_id = ident, dm_store = store, dm_proto = proto, dm_listener = ln, dm_sharedDir = sharedDir,
                                               dm_relayAddr = relayAddr, dm_server = server, dm_joined = []\<rparr>, fs3)
                                        | r \<Rightarrow> (fail_of r, fs3))
                                   | r \<Rightarrow> (fail_of r, fs3))
                           | r \<Rightarrow> (fail_of r, fs2))
                      | r \<Rightarrow> (fail_of r, fs2))
              | r \<Rightarrow> (fail_of r, fs1))
         | r \<Rightarrow> (fail_of r, fs1))"

text \<open>The end of \<open>Run\<close>, when its context is done.\<close>

definition Run_stop :: "'b daemon \<Rightarrow> 'b daemon" where
  "Run_stop d = d\<lparr>dm_server := ipc_Close (dm_server d)\<rparr>"

section \<open>Joining\<close>

lemma Decode_shape: "Decode raw = Ok tok \<Longrightarrow> 4 \<le> length raw \<and> length (t_PublicKey tok) = 32"
  by (auto simp: Decode_def unmarshal_token_def outcome_simps prefix_length_le split: if_splits option.splits prod.splits
      dest!: prefix_length_le)

lemma SaveNonce_no_panic: "fst (SaveNonce B s n) \<noteq> Panic"
  by (auto simp: SaveNonce_def peers_update_def db_update_def b_put_def outcome_simps split: prod.splits outcome.splits if_splits option.splits)

lemma handleJoin_cases:
  assumes "tls_laws (en_N E)" and "quiet (en_N E) (en_D E)"
  obtains (early) code e where "handleJoin B E i (Ok raw) d = (Ok (errResponse i code e), d)" "code \<noteq> ''connect_failed''"
    | (invalid) tok v st e where "Decode raw = Ok tok"
        "Validate (en_C E) (HasNonce B) (SaveNonce B) (en_now E) tok raw (dm_store d) = (v, st)"
        "handleJoin B E i (Ok raw) d = (Ok (errResponse i ''invalid_token'' e), d\<lparr>dm_store := st\<rparr>)"
    | (no_route) tok st l e where "Decode raw = Ok tok"
        "Validate (en_C E) (HasNonce B) (SaveNonce B) (en_now E) tok raw (dm_store d) = (Ok (), st)"
        "handleJoin B E i (Ok raw) d = (Ok (errResponse i ''connect_failed'' e), d\<lparr>dm_store := st, dm_listener := l\<rparr>)"
    | (connected) tok st l c where "Decode raw = Ok tok"
        "Validate (en_C E) (HasNonce B) (SaveNonce B) (en_now E) tok raw (dm_store d) = (Ok (), st)"
        "Dial (en_X E) (cr_sha (en_C E)) (en_N E) (en_D E) (dm_id d) (cr_sha (en_C E) (t_PublicKey tok)) (t_Endpoints tok) (dm_listener d) = (Ok c, l)"
        "handleJoin B E i (Ok raw) d = joined B E i tok c (d\<lparr>dm_store := st, dm_listener := l\<rparr>)"
proof -
  consider "raw = []" | e where "raw \<noteq> []" "Decode raw = Err e" | tok where "raw \<noteq> []" "Decode raw = Ok tok"
    using Decode_no_panic [of raw] by (cases "Decode raw") auto
  then show thesis
  proof cases
    case (3 tok)
    let ?V = "Validate (en_C E) (HasNonce B) (SaveNonce B) (en_now E) tok raw (dm_store d)"
    obtain v st where V: "?V = (v, st)" by (cases ?V)
    let ?D = "Dial (en_X E) (cr_sha (en_C E)) (en_N E) (en_D E) (dm_id d) (cr_sha (en_C E) (t_PublicKey tok)) (t_Endpoints tok) (dm_listener d)"
    obtain c l where D: "?D = (c, l)" by (cases ?D)
    note dec = Decode_shape [OF 3(2)]
    have "fst ?V \<noteq> Panic"
      by (rule Validate_no_panic) (simp_all add: dec SaveNonce_no_panic HasNonce_def)
    then have v: "v \<noteq> Panic" by (simp add: V)
    have c: "c \<noteq> Panic"
      using Dial_cases [OF assms, of "en_X E" "cr_sha (en_C E)" "dm_id d" "cr_sha (en_C E) (t_PublicKey tok)" "t_Endpoints tok" "dm_listener d"]
      by (auto simp: D)
    note join = handleJoin_def [of B E i "Ok raw" d] 3 V dec
    show thesis
    proof (cases v)
      case (Ok u)
      then have V': "?V = (Ok (), st)" using V by simp
      show thesis
      proof (cases "t_Endpoints tok = []")
        case True
        then show thesis by (intro invalid [OF 3(2) V]) (simp add: join Ok)
      next
        case False
        then show thesis
        proof (cases c)
          case c': (Ok c')
          show thesis by (rule connected [OF 3(2) V' D [unfolded c']]) (simp add: join Ok D c' False)
        next
          case (Err e)
          show thesis by (rule no_route [OF 3(2) V']) (simp add: join Ok D Err False)
        qed (use c in simp)
      qed
    next
      case (Err e)
      then show thesis by (intro invalid [OF 3(2) V]) (simp add: join)
    qed (use v in simp)
  qed (use early in \<open>auto simp: handleJoin_def\<close>)
qed

context bolt_laws
begin

lemma validated_nonce_used:
  "Validate C (HasNonce B) (SaveNonce B) now t raw s = (Ok (), s') \<Longrightarrow> HasNonce B s' (t_Nonce t) = Ok True"
  by (rule nonces.Validate_saves)

lemma SaveNonce_ok: "\<forall>db. bkt_commit B db \<Longrightarrow> fst (SaveNonce B s n) = Ok ()"
  by (rule put_ok [of "list_of n" "snd (ps_db s)" "Text []"]) (auto simp: SaveNonce_def peers_update_def db_update_def split_beta)

end

lemma Validate_same_peers:
  "bolt_laws B \<Longrightarrow> Validate C (HasNonce B) (SaveNonce B) now t raw s = (v, st) \<Longrightarrow> fst (ps_db st) = fst (ps_db s)"
  using Validate_state [of C "HasNonce B" "SaveNonce B" now t raw s] bolt_laws.SaveNonce_peers [of B s "t_Nonce t"] by auto

lemma joined_store:
  assumes "bolt_laws B" and "peers_inv B (dm_store d)"
  shows "known B (dm_store (snd (joined B E i tok c d))) = known B (dm_store d) \<or>
    (\<exists>q. known B (dm_store (snd (joined B E i tok c d))) = (known B (dm_store d))(Conn_PeerID c \<mapsto> q) \<and> p_PublicKey q = t_PublicKey tok)"
proof -
  let ?p = "\<lparr>p_NodeID = Conn_PeerID c, p_PublicKey = t_PublicKey tok, p_Endpoints = t_Endpoints tok, p_TrustState = TrustTOFU, p_LastSeen = zero_time\<rparr>"
  have j: "dm_store (snd (joined B E i tok c d)) = snd (PutPeer B (en_seen E) (dm_store d) ?p)"
    by (simp add: joined_def Let_def split_beta)
  from assms show ?thesis unfolding j
    by (cases rule: bolt_laws.PutPeer_effect [where now = "en_seen E" and p = ?p, consumes 2]) (auto simp: put_result_def)
qed

lemma joined_sel:
  "fst (joined B E i tok c d) = Ok (okResponse i (JoinResponse (hexNodeID (Conn_PeerID c))))"
  "dm_joined (snd (joined B E i tok c d)) = dm_joined d @ [c]"
  "snd (ps_db (dm_store (snd (joined B E i tok c d)))) = snd (ps_db (dm_store d))" if "bolt_laws B" "peers_inv B (dm_store d)"
proof -
  let ?p = "\<lparr>p_NodeID = Conn_PeerID c, p_PublicKey = t_PublicKey tok, p_Endpoints = t_Endpoints tok, p_TrustState = TrustTOFU, p_LastSeen = zero_time\<rparr>"
  have "snd (ps_db (snd (PutPeer B (en_seen E) (dm_store d) ?p))) = snd (ps_db (dm_store d))"
    using that by (cases rule: bolt_laws.PutPeer_effect [where now = "en_seen E" and p = ?p, consumes 2]) auto
  then show "fst (joined B E i tok c d) = Ok (okResponse i (JoinResponse (hexNodeID (Conn_PeerID c))))"
    "dm_joined (snd (joined B E i tok c d)) = dm_joined d @ [c]"
    "snd (ps_db (dm_store (snd (joined B E i tok c d)))) = snd (ps_db (dm_store d))"
    by (simp_all add: joined_def Let_def split_beta)
qed

text \<open>
  C10. A join ends in one of two ways, whatever token it is given and whatever the network does. Either it is answered with an
  error, and neither the connections nor the known peers have changed. Or the token was valid and unused and is now used, the
  daemon has one connection more, whose certificate carries a key with the node id of the token's key, and the known peers
  have changed, if at all, at this node id, which then has the key of the token.
\<close>

theorem join_outcome:
  assumes "bolt_laws B" and "peers_reach B (dm_store d)" and "tls_laws (en_N E)" and "quiet (en_N E) (en_D E)"
  shows "(\<exists>code e d'. handleJoin B E i (Ok raw) d = (Ok (errResponse i code e), d') \<and> dm_joined d' = dm_joined d
       \<and> known B (dm_store d') = known B (dm_store d)) \<or>
    (\<exists>tok c d' leaf certs pub. handleJoin B E i (Ok raw) d = (Ok (okResponse i (JoinResponse (hexNodeID (cr_sha (en_C E) (t_PublicKey tok))))), d')
       \<and> Decode raw = Ok tok \<and> en_now E \<le> t_ExpiresAt tok
       \<and> HasNonce B (dm_store d) (t_Nonce tok) = Ok False \<and> HasNonce B (dm_store d') (t_Nonce tok) = Ok True
       \<and> dm_joined d' = dm_joined d @ [c] \<and> Conn_PeerID c = cr_sha (en_C E) (t_PublicKey tok)
       \<and> qc_peerCerts (cn_qConn c) = leaf # certs \<and> x_parse (en_X E) leaf = Ok (Ed25519 pub) \<and> cr_sha (en_C E) pub = Conn_PeerID c
       \<and> (known B (dm_store d') = known B (dm_store d) \<or>
          (\<exists>q. known B (dm_store d') = (known B (dm_store d))(Conn_PeerID c \<mapsto> q) \<and> p_PublicKey q = t_PublicKey tok)))"
  (is "?failed \<or> ?succeeded")
proof -
  note same = bolt_laws.same_peers [OF assms(1) Validate_same_peers [OF assms(1)]]
  show ?thesis
    using assms(3,4)
  proof (cases rule: handleJoin_cases [where B = B and i = i and raw = raw and d = d, consumes 2])
    case (connected tok st l c)
    let ?d = "d\<lparr>dm_store := st, dm_listener := l\<rparr>"
    have inv: "peers_inv B (dm_store ?d)" and k: "known B (dm_store ?d) = known B (dm_store d)"
      using same [OF connected(2)] bolt_laws.peers_reach_inv [OF assms(1,2)] by simp_all
    note new = joined_sel [OF assms(1) inv, where E = E and i = i and tok = tok and c = c] joined_store [OF assms(1) inv, where E = E and i = i and tok = tok and c = c]
    from Dial_cases [OF assms(3,4), of "en_X E" "cr_sha (en_C E)" "dm_id d" "cr_sha (en_C E) (t_PublicKey tok)" "t_Endpoints tok" "dm_listener d"]
    obtain leaf certs pub where auth: "Conn_PeerID c = cr_sha (en_C E) (t_PublicKey tok)" "qc_peerCerts (cn_qConn c) = leaf # certs"
      "x_parse (en_X E) leaf = Ok (Ed25519 pub)" "cr_sha (en_C E) pub = Conn_PeerID c"
      by (auto simp: connected(3))
    obtain data where used: "en_now E \<le> t_ExpiresAt tok" "HasNonce B (dm_store d) (t_Nonce tok) = Ok False" "HasNonce B st (t_Nonce tok) = Ok True"
      using bolt_laws.validated_nonce_used [OF assms(1) connected(2)] connected(2) by (auto elim!: Validate_okE)
    have "handleJoin B E i (Ok raw) d = (fst (joined B E i tok c ?d), snd (joined B E i tok c ?d))" by (simp add: connected(4))
    then have ?succeeded
      using connected(1) auth used new k
      by (intro exI [of _ tok] exI [of _ c] exI [of _ "snd (joined B E i tok c ?d)"] exI [of _ leaf] exI [of _ certs] exI [of _ pub])
        (simp add: HasNonce_def)
    then show ?thesis ..
  qed (use same in \<open>auto\<close>)
qed

text \<open>A daemon with an empty store, and an invite of the peer that the example network reaches.\<close>

definition ex_env :: daemon_env where
  "ex_env = \<lparr>en_C = ex_crypto, en_X = ex_x509, en_N = ex_network, en_D = ex_dial_env, en_now = 0, en_seen = 0, en_nonce = Ok (arr_of [3]),
     en_addr = ''h:7'', en_unspecified = (\<lambda>_. None), en_format = (\<lambda>_. [])\<rparr>"

definition ex_daemon :: "ref_bucket daemon" where
  "ex_daemon = \<lparr>dm_id = ex_node, dm_store = ex_peers,
     dm_proto = NewHandler NewLocalIndex (Some ex_store) (id_NodeID ex_node) (\<lambda>_. ex_chan []) (\<lambda>_. arr_of [2]) ex_fs,
     dm_listener = ex_listener, dm_sharedDir = ''/e'', dm_relayAddr = [],
     dm_server = \<lparr>is_closed = False, is_subs = [], is_subClosed = (\<lambda>_. False), is_open = (\<lambda>_. True), is_up = (\<lambda>_. True),
       is_out = (\<lambda>_. []), is_listening = True\<rparr>, dm_joined = []\<rparr>"

abbreviation ex_invite :: "string list \<Rightarrow> token" where
  "ex_invite eps \<equiv> \<lparr>t_PublicKey = 5 # replicate 31 0, t_Endpoints = eps, t_Nonce = arr_of [9], t_ExpiresAt = DefaultTTL\<rparr>"

lemma ex_invite_valid:
  assumes "length eps \<le> 65535" and "\<forall>ep \<in> set eps. length ep \<le> 65535"
  obtains raw where "Decode raw = Ok (ex_invite eps)"
    "Validate ex_crypto (HasNonce ref_bolt) (SaveNonce ref_bolt) 0 (ex_invite eps) raw ex_peers = (Ok (), snd (SaveNonce ref_bolt ex_peers (arr_of [9])))"
proof -
  let ?seed = "4 # replicate 31 255 :: bytes"
  have pub: "cr_pub ex_crypto ?seed = 5 # replicate 31 0" by (simp add: ex_crypto_def)
  have t: "Create (?seed @ cr_pub ex_crypto ?seed) eps 0 (Ok (arr_of [9])) 0 = Ok (ex_invite eps)"
    by (subst Create_ok) (simp_all add: pub)
  have cut: "ex_invite eps\<lparr>t_ExpiresAt := from_unix (unix (t_ExpiresAt (ex_invite eps)))\<rparr> = ex_invite eps"
    by (simp add: from_unix_unix DefaultTTL_def)
  have s: "SaveNonce ref_bolt ex_peers (arr_of [9]) = (Ok (), snd (SaveNonce ref_bolt ex_peers (arr_of [9])))"
    by (simp add: SaveNonce_def peers_update_def db_update_def b_put_def)
  have now: "0 \<le> from_unix (unix (t_ExpiresAt (ex_invite eps)))" by (simp add: from_unix_unix DefaultTTL_def)
  have has: "HasNonce ref_bolt ex_peers (arr_of [9]) = Ok False" by (simp add: HasNonce_def)
  from invite_valid [where has = "HasNonce ref_bolt" and save = "SaveNonce ref_bolt", OF ex_crypto_laws _ t assms has s now, unfolded cut] that
  show thesis by auto
qed

lemma ex_reaches:
  "\<exists>c. fst (Dial ex_x509 (cr_sha ex_crypto) ex_network ex_dial_env ident (arr_of [5]) [''h:1''] l) = Ok c \<and> Conn_PeerID c = arr_of [5]"
  by (simp add: Dial_def Listener_Dial_def ex_network_def clientTLSConfig_def verify_peer_def ex_x509_def NodeIDFromCert_def
      openDialStream_def ex_qconn_def writeFramingPrime_def newConn_def ex_crypto_def Conn_PeerID_def)

lemma ex_sha_key: "cr_sha ex_crypto (5 # replicate 31 0) = arr_of [5]"
  by (simp add: ex_crypto_def sum_list_replicate)

lemma ex_join:
  assumes "dm_store d = ex_peers"
  obtains raw d' where "handleJoin ref_bolt ex_env 1 (Ok raw) d = (Ok (okResponse 1 (JoinResponse (hexNodeID (arr_of [5])))), d')"
proof -
  obtain raw where raw: "Decode raw = Ok (ex_invite [''h:1''])"
    "Validate ex_crypto (HasNonce ref_bolt) (SaveNonce ref_bolt) 0 (ex_invite [''h:1'']) raw ex_peers = (Ok (), snd (SaveNonce ref_bolt ex_peers (arr_of [9])))"
    by (rule ex_invite_valid [of "[''h:1'']"]) auto
  have "raw \<noteq> []" using Decode_shape [OF raw(1)] by auto
  obtain c l where "Dial ex_x509 (cr_sha ex_crypto) ex_network ex_dial_env (dm_id d) (arr_of [5]) [''h:1''] (dm_listener d) = (Ok c, l)"
    "Conn_PeerID c = arr_of [5]"
    using ex_reaches [of "dm_id d" "dm_listener d"] by (metis prod.collapse)
  then show thesis
    using that [of raw] raw \<open>raw \<noteq> []\<close> ex_sha_key by (auto simp: handleJoin_def ex_env_def assms joined_def Let_def split_beta)
qed

theorem join_outcome_witness:
  "\<exists>raw tok c d'. Decode raw = Ok tok \<and> snd (handleJoin ref_bolt ex_env 1 (Ok raw) ex_daemon) = d' \<and> dm_joined d' = [c] \<and> Conn_PeerID c = cr_sha ex_crypto (t_PublicKey tok)
     \<and> HasNonce ref_bolt (dm_store d') (t_Nonce tok) = Ok True"
proof -
  obtain raw d' where j: "handleJoin ref_bolt ex_env 1 (Ok raw) ex_daemon = (Ok (okResponse 1 (JoinResponse (hexNodeID (arr_of [5])))), d')"
    by (rule ex_join [of ex_daemon]) (simp_all add: ex_daemon_def)
  have "peers_reach ref_bolt (dm_store ex_daemon)" using ex_peers_reach by (simp add: ex_daemon_def)
  moreover have "tls_laws (en_N ex_env)" "quiet (en_N ex_env) (en_D ex_env)" using ex_network_laws by (simp_all add: ex_env_def)
  ultimately have "\<exists>tok c. Decode raw = Ok tok \<and> dm_joined d' = dm_joined ex_daemon @ [c] \<and> Conn_PeerID c = cr_sha (en_C ex_env) (t_PublicKey tok)
      \<and> HasNonce ref_bolt (dm_store d') (t_Nonce tok) = Ok True"
    using join_outcome [OF ref.bolt_laws_axioms, of ex_daemon ex_env 1 raw] by (auto simp: j errResponse_def okResponse_def)
  moreover have "dm_joined ex_daemon = []" "en_C ex_env = ex_crypto" by (simp_all add: ex_daemon_def ex_env_def)
  ultimately show ?thesis using j by (metis append_Nil snd_conv)
qed

text \<open>
  C36. The nonce of an invite is saved before the peer is dialled: when no endpoint can be reached, every later
  join with the same link is refused as an invalid token, whatever the network and the clock are then.
\<close>

theorem failed_join_burns_invite:
  assumes "bolt_laws B" and "tls_laws (en_N E)" and "quiet (en_N E) (en_D E)"
    and "handleJoin B E i (Ok raw) d = (Ok (errResponse i ''connect_failed'' e), d')"
  shows "\<exists>e'. fst (handleJoin B E' j (Ok raw) d') = Ok (errResponse j ''invalid_token'' e')"
  using assms(2,3)
proof (cases rule: handleJoin_cases [where B = B and i = i and raw = raw and d = d, consumes 2])
  case (no_route tok st l e1)
  have shape: "4 \<le> length raw" "length (t_PublicKey tok) = 32" using Decode_shape [OF no_route(1)] by simp_all
  have d': "dm_store d' = st" using no_route(3) assms(4) by simp
  obtain v st' where V: "Validate (en_C E') (HasNonce B) (SaveNonce B) (en_now E') tok raw st = (v, st')"
    by (cases "Validate (en_C E') (HasNonce B) (SaveNonce B) (en_now E') tok raw st")
  have "fst (Validate (en_C E') (HasNonce B) (SaveNonce B) (en_now E') tok raw st) \<noteq> Panic"
    by (rule Validate_no_panic) (simp_all add: shape SaveNonce_no_panic HasNonce_def)
  moreover have "v \<noteq> Ok ()"
    using bolt_laws.validated_nonce_used [OF assms(1) no_route(2)] V by (auto elim!: Validate_okE)
  ultimately obtain e' where "v = Err e'" using V by (cases v) auto
  moreover have "raw \<noteq> []" using shape by auto
  ultimately show ?thesis by (auto simp: handleJoin_def no_route(1) d' V)
qed (use assms(4) in \<open>auto simp: errResponse_def joined_def okResponse_def Let_def split_beta\<close>)

lemma ex_join_fails:
  obtains raw e d' where "handleJoin ref_bolt ex_env 1 (Ok raw) ex_daemon = (Ok (errResponse 1 ''connect_failed'' e), d')"
proof -
  obtain raw where raw: "Decode raw = Ok (ex_invite [''g:1''])"
    "Validate ex_crypto (HasNonce ref_bolt) (SaveNonce ref_bolt) 0 (ex_invite [''g:1'']) raw ex_peers = (Ok (), snd (SaveNonce ref_bolt ex_peers (arr_of [9])))"
    by (rule ex_invite_valid [of "[''g:1'']"]) auto
  have "raw \<noteq> []" using Decode_shape [OF raw(1)] by auto
  have "\<exists>e. fst (Dial ex_x509 (cr_sha ex_crypto) ex_network ex_dial_env ex_node n [''g:1''] ex_listener) = Err e" for n
    by (simp add: Dial_def Listener_Dial_def ex_network_def)
  then obtain e l where "Dial ex_x509 (cr_sha ex_crypto) ex_network ex_dial_env ex_node (cr_sha ex_crypto (5 # replicate 31 0)) [''g:1''] ex_listener = (Err e, l)"
    by (metis prod.collapse)
  then show thesis
    using that [of raw] raw \<open>raw \<noteq> []\<close> by (auto simp: handleJoin_def ex_env_def ex_daemon_def Let_def)
qed

theorem failed_join_burns_invite_witness:
  "\<exists>raw e. fst (handleJoin ref_bolt ex_env 1 (Ok raw) ex_daemon) = Ok (errResponse 1 ''connect_failed'' e) \<and>
     (\<exists>e'. fst (handleJoin ref_bolt ex_env 2 (Ok raw) (snd (handleJoin ref_bolt ex_env 1 (Ok raw) ex_daemon))) = Ok (errResponse 2 ''invalid_token'' e'))"
proof -
  obtain raw e d' where j: "handleJoin ref_bolt ex_env 1 (Ok raw) ex_daemon = (Ok (errResponse 1 ''connect_failed'' e), d')"
    by (rule ex_join_fails)
  have "tls_laws (en_N ex_env)" "quiet (en_N ex_env) (en_D ex_env)" using ex_network_laws by (simp_all add: ex_env_def)
  from failed_join_burns_invite [OF ref.bolt_laws_axioms this j, of ex_env 2] show ?thesis by (intro exI [of _ raw] exI [of _ e]) (simp add: j)
qed

section \<open>Pauses of the relay loop\<close>

text \<open>Each pause is between a second and half a minute, and none is shorter than the one before it, however long a connection lasted.\<close>

lemma relayLoop_pauses:
  "second \<le> b \<Longrightarrow> b \<le> maxBackoff \<Longrightarrow> (\<forall>w \<in> set (relayLoop b rs). b \<le> w \<and> w \<le> maxBackoff) \<and> sorted (relayLoop b rs)"
proof (induction b rs rule: relayLoop.induct)
  case (2 b ended pause rest)
  define m where "m = min (b * 2) maxBackoff"
  have m: "second \<le> m" "m \<le> maxBackoff" "b \<le> m"
    using 2(2,3) by (auto simp: m_def maxBackoff_def)
  show ?case
  proof (cases "ended \<or> pause")
    case False
    then have "(\<forall>w \<in> set (relayLoop m rest). m \<le> w \<and> w \<le> maxBackoff) \<and> sorted (relayLoop m rest)"
      using 2(1) m by (simp flip: m_def)
    moreover have "relayLoop b ((ended, pause) # rest) = b # relayLoop m rest" using False by (simp add: m_def)
    ultimately show ?thesis using m 2(3) by fastforce
  qed (use 2(3) in auto)
qed simp

section \<open>The states of a daemon\<close>

text \<open>
  The daemon's goroutines interleave: requests, the accept loop, the rounds of each served connection and the watcher. A step is one
  of their actions. The watcher works on the store and the index of the protocol handler.
\<close>

definition as_watcher :: "'b store \<Rightarrow> 'b daemon \<Rightarrow> 'b watcher" where
  "as_watcher s d = New (dm_sharedDir d) s (ha_index (dm_proto d)) True (ha_fs (dm_proto d))"

definition watcher_ran :: "'b bolt \<Rightarrow> nat list \<Rightarrow> 'b watcher \<Rightarrow> 'b daemon \<Rightarrow> 'b daemon" where
  "watcher_ran B order w d = (onChange B order ^^ wt_changes w)
     (d\<lparr>dm_proto := (dm_proto d)\<lparr>ha_catalog := Some (wt_catalog w), ha_index := wt_index w, ha_fs := wt_fs w\<rparr>\<rparr>)"

inductive daemon_step :: "'b bolt \<Rightarrow> 'b daemon \<Rightarrow> 'b daemon \<Rightarrow> bool" for B :: "'b bolt" where
  request: "daemon_step B d (snd (Handle B E req d))"
| client: "handleConn (Handle B E) n inp d (dm_server d) = Ok (d', srv) \<Longrightarrow> daemon_step B d (d'\<lparr>dm_server := srv\<rparr>)"
| accept: "daemon_step B d (accept_round B E res d)"
| serve_begins: "daemon_step B d (proto_ran (serve_begin B n (dm_proto d)) d)"
| message: "daemon_step B d (proto_ran (snd (dispatch B SE i env n (dm_proto d))) d)"
| serve_ends: "daemon_step B d (proto_ran (unregisterConn p (dm_proto d)) d)"
| joined_served: "daemon_step B d (serveJoinedPeer B SE n d)"
| accepted_served: "daemon_step B d (serve_accepted B SE n d)"
| shutdown: "daemon_step B d (Run_stop d)"
| announce: "daemon_step B d (d\<lparr>dm_server := ipc_Broadcast ev (dm_server d)\<rparr>)"
| indexed: "ha_catalog (dm_proto d) = Some s \<Longrightarrow>
    daemon_step B d (watcher_ran B order (snd (indexFile B sha mtime clk path (as_watcher s d))) d)"
| removed: "ha_catalog (dm_proto d) = Some s \<Longrightarrow>
    daemon_step B d (watcher_ran B order (handleRemove B clk path (as_watcher s d)) d)"

text \<open>The databases a start may find: none, or the ones an earlier run has left.\<close>

definition peers_found :: "'b bolt \<Rightarrow> ('b option \<times> 'b option) outcome \<Rightarrow> bool" where
  "peers_found B db \<longleftrightarrow> db = Ok (None, None) \<or> (\<exists>s. peers_reach B s \<and> db = Ok (Some (fst (ps_db s)), Some (snd (ps_db s))))"

definition catalog_found :: "'b bolt \<Rightarrow> ('b option \<times> 'b option) outcome \<Rightarrow> bool" where
  "catalog_found B db \<longleftrightarrow> db = Ok (None, None) \<or> (\<exists>s. catalog_reach B s \<and> db = Ok (Some (fst (st_db s)), Some (snd (st_db s))))"

inductive daemon_reach :: "'b bolt \<Rightarrow> 'b daemon \<Rightarrow> bool" for B :: "'b bolt" where
  started: "crypto_laws (en_C E) \<Longrightarrow> peers_found B pdb \<Longrightarrow> catalog_found B cdb \<Longrightarrow>
    Run_start B E rnd pdb cdb visits S chans peers cfgDir sharedDir listenAddr relayAddr fs = (Ok d, fs') \<Longrightarrow> daemon_reach B d"
| stepped: "daemon_reach B d \<Longrightarrow> daemon_step B d d' \<Longrightarrow> daemon_reach B d'"

definition daemon_inv :: "'b bolt \<Rightarrow> 'b daemon \<Rightarrow> bool" where
  "daemon_inv B d \<longleftrightarrow> (\<exists>s. ha_catalog (dm_proto d) = Some s \<and> catalog_reach B s) \<and> peers_reach B (dm_store d)
     \<and> length (id_PrivKey (dm_id d)) = 64"

lemma peers_reach_step: "peers_reach B s \<Longrightarrow> peers_step B s s' \<Longrightarrow> peers_reach B s'"
  unfolding peers_reach_def by (meson rtranclp.rtrancl_into_rtrancl)

lemma peers_reach_new: "OpenPeers B (Ok (None, None)) = Ok s \<Longrightarrow> peers_reach B s"
  by (auto simp: peers_reach_def)

lemmas peers_reach_steps = peers_reach_step [OF _ step_put] peers_reach_step [OF _ step_seen] peers_reach_step [OF _ step_validate]

lemma LoadOrGenerate_key:
  assumes "crypto_laws C" and "fst (LoadOrGenerate C rnd cfgDir fs) = Ok ident"
  shows "length (id_PrivKey ident) = 64"
  using assms
  by (auto simp: LoadOrGenerate_def Load_def Generate_def fromSeed_def ed25519_NewKeyFromSeed_def crypto_laws_def outcome_simps Let_def split_beta
      split: outcome.splits if_splits)

lemma Run_start_okE:
  assumes "Run_start B E rnd pdb cdb visits S chans peers cfgDir sharedDir listenAddr relayAddr fs = (Ok d, fs')"
  obtains cat idx fs3 where "fst (LoadOrGenerate (en_C E) rnd cfgDir fs) = Ok (dm_id d)" "OpenPeers B pdb = Ok (dm_store d)"
    "Open B cdb (id_NodeID (dm_id d)) = Ok cat" "dm_proto d = SetOnCatalogUpdate (NewHandler idx (Some cat) (id_NodeID (dm_id d)) chans peers fs3)"
  using assms by (auto simp: Run_start_def outcome_simps Let_def split_beta split: outcome.splits)

lemma joined_keeps:
  "dm_proto (snd (joined B E i tok c d)) = dm_proto d" "dm_id (snd (joined B E i tok c d)) = dm_id d"
  "peers_reach B (dm_store d) \<Longrightarrow> peers_reach B (dm_store (snd (joined B E i tok c d)))"
  by (simp_all add: joined_def Let_def split_beta peers_reach_steps)

lemma handleJoin_keeps:
  "dm_proto (snd (handleJoin B E i params d)) = dm_proto d \<and> dm_id (snd (handleJoin B E i params d)) = dm_id d
   \<and> (peers_reach B (dm_store d) \<longrightarrow> peers_reach B (dm_store (snd (handleJoin B E i params d))))"
proof -
  have v: "peers_reach B s \<Longrightarrow> peers_reach B st" if "Validate C (HasNonce B) (SaveNonce B) now t raw s = (v, st)" for C now t raw s v st
    using peers_reach_steps(3) [of B s C now t raw] that by simp
  show ?thesis
    by (auto simp: handleJoin_def Let_def joined_keeps v split: outcome.split prod.split)
qed

lemma Handle_inv: "daemon_inv B d \<Longrightarrow> daemon_inv B (snd (Handle B E req d))"
  using handleJoin_keeps [of B E "rq_ID req" "rq_join req" d] by (simp add: Handle_def daemon_inv_def)

lemma proto_ran_inv:
  "daemon_inv B d \<Longrightarrow> (\<And>s. ha_catalog (dm_proto d) = Some s \<Longrightarrow> catalog_reach B s \<Longrightarrow> \<exists>s'. ha_catalog h = Some s' \<and> catalog_reach B s') \<Longrightarrow>
   daemon_inv B (proto_ran h d)"
  by (auto simp: proto_ran_def daemon_inv_def)

lemma serve_begin_catalog: "ha_catalog (serve_begin B n h) = ha_catalog h"
  by (auto simp: serve_begin_def registerConn_def sendCatalogOfferTo_def Let_def split: option.split outcome.split)

lemma dispatch_catalog:
  "ha_catalog h = Some s \<Longrightarrow> catalog_reach B s \<Longrightarrow> \<exists>s'. ha_catalog (snd (dispatch B SE i env n h)) = Some s' \<and> catalog_reach B s'"
  using reach_put_peer [of B s]
  by (auto simp: dispatch_def handleFileRequest_def handleCatalogOffer_def Let_def split_beta split: envelope.split outcome.split)

lemma serve_loop_catalog:
  "ha_catalog h = Some s \<Longrightarrow> catalog_reach B s \<Longrightarrow> \<exists>s'. ha_catalog (serve_loop B SE i n h) = Some s' \<and> catalog_reach B s'"
proof (induction B SE i n h arbitrary: s rule: serve_loop.induct)
  case (1 B SE i n h)
  show ?case
  proof (cases "sv_ctx SE i \<noteq> None \<or> ch_in (ha_chans h n) = []")
    case True
    then show ?thesis using 1(2,3) by (subst serve_loop.simps) auto
  next
    case False
    then obtain env envs where c: "sv_ctx SE i = None" "ch_in (ha_chans h n) = env # envs" by (auto simp: neq_Nil_conv)
    let ?h = "h\<lparr>ha_chans := (ha_chans h)(n := (ha_chans h n)\<lparr>ch_in := envs\<rparr>)\<rparr>"
    obtain s1 where "ha_catalog (snd (dispatch B SE i env n ?h)) = Some s1" "catalog_reach B s1"
      using dispatch_catalog [of ?h s B SE i env n] 1(2,3) by auto
    with 1(1) c show ?thesis by (subst serve_loop.simps) auto
  qed
qed

lemma Serve_inv: "daemon_inv B d \<Longrightarrow> daemon_inv B (proto_ran (Peer_Handler.Serve B SE n (dm_proto d)) d)"
  using serve_loop_catalog [of "serve_begin B n (dm_proto d)"]
  by (intro proto_ran_inv) (auto simp: Peer_Handler.Serve_def unregisterConn_def serve_begin_catalog)

lemma broadcast_catalog: "ha_catalog (broadcast B s order h) = ha_catalog h"
  by (induction B s order h rule: broadcast.induct) (auto simp: sendCatalogOfferTo_def split: outcome.split)

lemma onChange_inv: "daemon_inv B d \<Longrightarrow> daemon_inv B ((onChange B order ^^ k) d)"
  by (induction k) (auto simp: onChange_def BroadcastCatalog_def broadcast_catalog daemon_inv_def split: option.split)

lemma indexFile_catalog: "catalog_reach B (wt_catalog w) \<Longrightarrow> catalog_reach B (wt_catalog (snd (indexFile B sha mtime clk path w)))"
proof -
  assume r: "catalog_reach B (wt_catalog w)"
  have "catalog_reach B s" if "PutLocal B clk (wt_catalog w) e = (x, s)" for e x s
    using reach_put_local [OF r, of clk e] that by simp
  with r show ?thesis
    by (auto simp: indexFile_def notifyChange_def Let_def split: prod.split outcome.split)
qed

lemma handleRemove_catalog: "catalog_reach B (wt_catalog w) \<Longrightarrow> catalog_reach B (wt_catalog (handleRemove B clk path w))"
proof -
  assume r: "catalog_reach B (wt_catalog w)"
  have "catalog_reach B s" if "DeleteLocal B clk (wt_catalog w) f = (x, s)" for f x s
    using reach_delete_local [OF r, of clk f] that by simp
  with r show ?thesis
    by (auto simp: handleRemove_def notifyChange_def split: prod.split outcome.split option.split)
qed

lemma watcher_ran_inv: "daemon_inv B d \<Longrightarrow> catalog_reach B (wt_catalog w) \<Longrightarrow> daemon_inv B (watcher_ran B order w d)"
  unfolding watcher_ran_def by (rule onChange_inv) (simp add: daemon_inv_def)

lemma daemon_step_inv: "daemon_step B d d' \<Longrightarrow> daemon_inv B d \<Longrightarrow> daemon_inv B d'"
proof (induction rule: daemon_step.induct)
  case (client E n inp d d' srv)
  then have "d' = d \<or> (\<exists>req. d' = snd (Handle B E req d))"
    by (auto simp: handleConn_def outcome_simps Let_def split_beta split: option.splits if_splits)
  then have "daemon_inv B d'" using client Handle_inv by auto
  then show ?case by (simp add: daemon_inv_def)
next
  case (accept d E res)
  then show ?case by (auto simp: accept_round_def daemon_inv_def peers_reach_steps split: outcome.split prod.split)
next
  case (indexed d s order sha mtime clk path)
  then show ?case by (intro watcher_ran_inv indexFile_catalog) (auto simp: as_watcher_def New_def daemon_inv_def)
next
  case (removed d s order clk path)
  then show ?case by (intro watcher_ran_inv handleRemove_catalog) (auto simp: as_watcher_def New_def daemon_inv_def)
next
  case (joined_served d SE n)
  then show ?case using Serve_inv [of B "d\<lparr>dm_server := BroadcastPeerOnline (ha_peer (dm_proto d) n) (dm_server d)\<rparr>" SE n]
    by (simp add: serveJoinedPeer_def Let_def daemon_inv_def)
next
  case (accepted_served d SE n)
  then show ?case using Serve_inv [of B d SE n] by (simp add: serve_accepted_def Let_def daemon_inv_def)
next
  case (shutdown d)
  then show ?case by (simp add: Run_stop_def daemon_inv_def)
next
  case (announce d ev)
  then show ?case by (simp add: daemon_inv_def)
qed (simp_all add: Handle_inv proto_ran_inv dispatch_catalog serve_begin_catalog unregisterConn_def)

lemma daemon_reach_inv: "daemon_reach B d \<Longrightarrow> daemon_inv B d"
proof (induction rule: daemon_reach.induct)
  case (started E pdb cdb rnd visits S chans peers cfgDir sharedDir listenAddr relayAddr fs d fs')
  from started(4) show ?case
  proof (cases rule: Run_start_okE)
    case (1 cat idx fs3)
    have "peers_reach B (dm_store d)"
      using started(2) 1(2) peers_reach_step [OF _ step_reopen] peers_reach_new by (auto simp: peers_found_def)
    moreover have "catalog_reach B cat"
      using started(3) 1(3) reach_open reach_reopen by (auto simp: catalog_found_def)
    ultimately show ?thesis
      using LoadOrGenerate_key [OF started(1) 1(1)] 1(4) by (simp add: daemon_inv_def SetOnCatalogUpdate_def NewHandler_def)
  qed
qed (rule daemon_step_inv)

lemma ListPeers_ok: "bolt_laws B \<Longrightarrow> peers_inv B s \<Longrightarrow> \<exists>ps. ListPeers B s = Ok ps"
  by (erule (1) bolt_laws.ListPeers_known) blast

lemma marshalPayload_no_panic: "marshalPayload t \<noteq> Panic"
proof -
  have "marshal_endpoints eps \<noteq> Panic" for eps
    by (induction eps) (auto simp: outcome_simps)
  then show ?thesis by (simp add: marshalPayload_def outcome_simps)
qed

lemma handleInvite_answers:
  assumes "length (id_PrivKey (dm_id d)) = 64" and "en_nonce E \<noteq> Panic"
  shows "\<exists>resp. handleInvite E i d = Ok resp \<and> rs_ID resp = i"
proof -
  have "Create (id_PrivKey (dm_id d)) eps ttl (en_nonce E) now \<noteq> Panic" for eps ttl now
    using assms by (cases "en_nonce E") (simp_all add: Create_def ed25519_Public_def go_slice_from_def Let_def)
  moreover have "Encode (en_C E) t (id_PrivKey (dm_id d)) \<noteq> Panic" for t
    using assms(1) marshalPayload_no_panic [of t] by (cases "marshalPayload t") (simp_all add: Encode_def ed25519_Sign_def)
  ultimately show ?thesis
    by (auto simp: handleInvite_def errResponse_def okResponse_def split: outcome.split)
qed

lemma handleJoin_answers:
  assumes "tls_laws (en_N E)" and "quiet (en_N E) (en_D E)" and "params \<noteq> Panic"
  shows "\<exists>resp. fst (handleJoin B E i params d) = Ok resp \<and> rs_ID resp = i"
proof (cases params)
  case (Ok raw)
  from assms(1,2) show ?thesis unfolding Ok
    by (cases rule: handleJoin_cases [where B = B and i = i and raw = raw and d = d, consumes 2])
      (auto simp: errResponse_def okResponse_def joined_def Let_def split_beta)
qed (use assms(3) in \<open>auto simp: handleJoin_def errResponse_def\<close>)

lemma Handle_answers:
  assumes "bolt_laws B" and "daemon_reach B d" and "tls_laws (en_N E)" and "quiet (en_N E) (en_D E)"
    and "en_nonce E \<noteq> Panic" and "rq_join req \<noteq> Panic" and "rq_download req \<noteq> Panic"
  shows "\<exists>resp. fst (Handle B E req d) = Ok resp \<and> rs_ID resp = rq_ID req
    \<and> (rq_Method req \<in> {''status'', ''peers'', ''catalog''} \<longrightarrow> rs_Error resp = None)"
proof -
  from daemon_reach_inv [OF assms(2)] obtain s where s: "ha_catalog (dm_proto d) = Some s" "catalog_reach B s"
    and p: "peers_reach B (dm_store d)" and key: "length (id_PrivKey (dm_id d)) = 64"
    by (auto simp: daemon_inv_def)
  obtain ps where "ListPeers B (dm_store d) = Ok ps"
    using ListPeers_ok [OF assms(1) bolt_laws.peers_reach_inv [OF assms(1) p]] by blast
  moreover obtain es where "ListAll B s = Ok es"
    using bolt_laws.ListAll_spec [OF assms(1) bolt_laws.catalog_reach_inv [OF assms(1) s(2)]] by metis
  ultimately show ?thesis
    using handleInvite_answers [OF key assms(5), of "rq_ID req"] handleJoin_answers [OF assms(3,4,6), of B "rq_ID req" d] assms(7) s(1)
    by (auto simp: Handle_def handleStatus_def handlePeers_def handleCatalog_def handleDownload_def errResponse_def okResponse_def Let_def
        split: outcome.split)
qed


lemma ex_start_fs: "fs_files (snd (LoadOrGenerate ex_crypto (Ok (arr_of [7])) ex_dir ex_fs)) p = None" if "p \<in> {'''', ''/e''}"
proof -
  have p: "filepath_Join ex_dir keyFile = ''/e/identity.key''" unfolding keyFile_def by code_simp
  have pp: "set (path_prefixes ex_dir) = {'''', ''/e''}" by code_simp
  show ?thesis
    using that unfolding LoadOrGenerate_def Load_def Save_def p
    by (auto simp: pp fs_defs ex_fs_def Generate_def fromSeed_ok [OF ex_crypto_laws] ed25519_Seed_def)
qed

lemma ex_start: "\<exists>d. daemon_reach ref_bolt d"
proof -
  let ?S = "\<lparr>so_stat = Err ErrNotExist, so_live = False, so_removed = Ok (), so_listened = Ok (), so_chmodded = Ok (), so_up = (\<lambda>_. True)\<rparr>"
  obtain ident fs1 where id: "LoadOrGenerate ex_crypto (Ok (arr_of [7])) ex_dir ex_fs = (Ok ident, fs1)"
    using ex_first_start fromSeed_ok [OF ex_crypto_laws, of "list_of (arr_of [7] :: id32)"] by auto
  have pp: "set (path_prefixes ex_dir) = {'''', ''/e''}" by code_simp
  have h: "healthy fs1" using LoadOrGenerate_healthy [of ex_crypto "Ok (arr_of [7])" ex_dir ex_fs] by (simp add: id)
  have "fst (os_MkdirAll ex_dir fs1) = Ok ()"
    using ex_start_fs h by (simp add: os_MkdirAll_def syscall_def pp id healthy_def)
  then obtain fs2 where m: "os_MkdirAll ex_dir fs1 = (Ok (), fs2)" by (metis prod.collapse)
  have pub: "length (id_PrivKey ident) = 64"
    using LoadOrGenerate_key [OF ex_crypto_laws] id by (metis fst_conv)
  have "\<exists>d fs'. Run_start ref_bolt ex_env (Ok (arr_of [7])) (Ok (None, None)) (Ok (None, None)) [] ?S (\<lambda>_. ex_chan []) (\<lambda>_. arr_of [2])
      ex_dir ex_dir '':7'' [] ex_fs = (Ok d, fs')"
    using pub by (simp add: Run_start_def ex_env_def id m OpenPeers_def Open_def create_buckets_def Listen_def ex_network_def ex_x509_def
        certFromIdentity_def GenerateSelfSignedCert_def NewIpcServer_def removeStaleSocket_def ed25519_Public_def go_slice_from_def Let_def)
  then obtain d fs' where d: "Run_start ref_bolt ex_env (Ok (arr_of [7])) (Ok (None, None)) (Ok (None, None)) [] ?S (\<lambda>_. ex_chan []) (\<lambda>_. arr_of [2])
      ex_dir ex_dir '':7'' [] ex_fs = (Ok d, fs')" by blast
  have "crypto_laws (en_C ex_env)" using ex_crypto_laws by (simp add: ex_env_def)
  from started [OF this _ _ d] show ?thesis by (auto simp: peers_found_def catalog_found_def)
qed


end
