(* ===== verification/Tui.thy ===== *)
theory Tui
  imports Ipc
begin

text \<open>
  The terminal interface, \<open>internal/tui\<close>, as the state machine that \<open>Update\<close> is: the catalog panel, the peer panel, the
  transfers, the overlays and the top-level model. A key is its runes or its name, the string \<open>key.Matches\<close> compares. The
  commands an update returns are listed in order. \<open>strings.ToLower\<close> and the text input of bubbles are parameters
  (\<open>tui_lib\<close>); what the event's JSON decodes to is part of the event. Of the views, the rows they index are modelled.
\<close>

section \<open>Keys\<close>

datatype key_msg = KeyRunes string | KeyNamed string

fun key_string :: "key_msg \<Rightarrow> string" where
  "key_string (KeyRunes s) = s"
| "key_string (KeyNamed s) = s"

definition key_Matches :: "key_msg \<Rightarrow> string list \<Rightarrow> bool" where
  "key_Matches k names \<longleftrightarrow> key_string k \<in> set names"

definition keys_Quit where "keys_Quit = [''q'']"
definition keys_Tab where "keys_Tab = [''tab'']"
definition keys_Help where "keys_Help = [''?'', ''f1'']"
definition keys_Up where "keys_Up = [''k'', ''up'']"
definition keys_Down where "keys_Down = [''j'', ''down'']"
definition keys_First where "keys_First = [''g'', ''home'']"
definition keys_Last where "keys_Last = [''G'', ''end'']"
definition keys_HalfUp where "keys_HalfUp = [''ctrl+u'']"
definition keys_HalfDown where "keys_HalfDown = [''ctrl+d'']"
definition keys_Enter where "keys_Enter = [''enter'', ''l'']"
definition keys_Search where "keys_Search = [''/'']"
definition keys_Escape where "keys_Escape = [''esc'']"
definition keys_Select where "keys_Select = ['' '', ''x'']"
definition keys_Download where "keys_Download = [''D'']"
definition keys_Progress where "keys_Progress = [''p'']"
definition keys_Invite where "keys_Invite = [''i'']"
definition keys_Join where "keys_Join = [''J'']"
definition keys_Disconnect where "keys_Disconnect = [''d'']"

lemmas keys_defs = key_Matches_def keys_Quit_def keys_Tab_def keys_Help_def keys_Up_def keys_Down_def keys_First_def keys_Last_def
  keys_HalfUp_def keys_HalfDown_def keys_Enter_def keys_Search_def keys_Escape_def keys_Select_def keys_Download_def
  keys_Progress_def keys_Invite_def keys_Join_def keys_Disconnect_def

section \<open>The catalog panel\<close>

record catalog_model =
  cm_files :: "file_info list"
  cm_cursor :: int
  cm_offset :: int
  cm_selected :: "string set"
  cm_search :: string
  cm_searching :: bool
  cm_filtered :: "file_info list"
  cm_height :: int
  cm_width :: int

definition NewCatalogModel :: catalog_model where
  "NewCatalogModel = \<lparr>cm_files = [], cm_cursor = 0, cm_offset = 0, cm_selected = {}, cm_search = [], cm_searching = False,
     cm_filtered = [], cm_height = 0, cm_width = 0\<rparr>"

definition catalog_Visible :: "catalog_model \<Rightarrow> file_info list" where
  "catalog_Visible m = (if cm_searching m \<and> cm_search m \<noteq> [] then cm_filtered m else cm_files m)"

text \<open>\<open>strings.Contains\<close>.\<close>

definition contains :: "string \<Rightarrow> string \<Rightarrow> bool" where
  "contains s sub \<longleftrightarrow> (\<exists>i \<in> set [0..<Suc (length s)]. prefix sub (drop i s))"

definition applyFilter :: "(string \<Rightarrow> string) \<Rightarrow> catalog_model \<Rightarrow> catalog_model" where
  "applyFilter toLower m =
     m\<lparr>cm_filtered := (if cm_search m = [] then [] else filter (\<lambda>f. contains (toLower (fl_Name f)) (toLower (cm_search m))) (cm_files m))\<rparr>"

text \<open>The clamping and the scrolling are the same code in both panels, over the number of rows.\<close>

definition clamp :: "nat \<Rightarrow> int \<Rightarrow> int" where
  "clamp n cursor = (if n = 0 then 0 else max 0 (min cursor (int n - 1)))"

definition scroll :: "int \<Rightarrow> int \<Rightarrow> int \<Rightarrow> int" where
  "scroll height cursor offset =
     (if height \<le> 0 then offset
      else let offset1 = (if cursor < offset then cursor else offset)
           in if cursor \<ge> offset1 + height then cursor - height + 1 else offset1)"

definition catalog_clampCursor :: "catalog_model \<Rightarrow> catalog_model" where
  "catalog_clampCursor m = m\<lparr>cm_cursor := clamp (length (catalog_Visible m)) (cm_cursor m)\<rparr>"

definition catalog_scrollToCursor :: "catalog_model \<Rightarrow> catalog_model" where
  "catalog_scrollToCursor m = m\<lparr>cm_offset := scroll (cm_height m) (cm_cursor m) (cm_offset m)\<rparr>"

definition catalog_move :: "int \<Rightarrow> catalog_model \<Rightarrow> catalog_model" where
  "catalog_move d m = catalog_scrollToCursor (catalog_clampCursor (m\<lparr>cm_cursor := cm_cursor m + d\<rparr>))"

text \<open>\<open>m.height / 2\<close> cuts towards zero.\<close>

definition half :: "int \<Rightarrow> int" where
  "half h = (if h \<ge> 0 then h div 2 else - (- h div 2))"

definition SetFiles :: "(string \<Rightarrow> string) \<Rightarrow> file_info list \<Rightarrow> catalog_model \<Rightarrow> catalog_model" where
  "SetFiles toLower files m = catalog_clampCursor (applyFilter toLower (m\<lparr>cm_files := files\<rparr>))"

definition catalog_SetSize :: "int \<Rightarrow> int \<Rightarrow> catalog_model \<Rightarrow> catalog_model" where
  "catalog_SetSize w h m = m\<lparr>cm_width := w, cm_height := h\<rparr>"

definition SelectedFiles :: "catalog_model \<Rightarrow> file_info list" where
  "SelectedFiles m = filter (\<lambda>f. fl_FileID f \<in> cm_selected m) (catalog_Visible m)"

definition IsSelected :: "catalog_model \<Rightarrow> int \<Rightarrow> bool" where
  "IsSelected m i =
     (if i < 0 \<or> i \<ge> int (length (catalog_Visible m)) then False else fl_FileID (catalog_Visible m ! nat i) \<in> cm_selected m)"

definition toggleSelection :: "catalog_model \<Rightarrow> catalog_model" where
  "toggleSelection m =
     (if cm_cursor m < 0 \<or> cm_cursor m \<ge> int (length (catalog_Visible m)) then m
      else let fileID = fl_FileID (catalog_Visible m ! nat (cm_cursor m))
           in if fileID \<in> cm_selected m then m\<lparr>cm_selected := cm_selected m - {fileID}\<rparr>
              else m\<lparr>cm_selected := insert fileID (cm_selected m)\<rparr>)"

definition updateSearch :: "(string \<Rightarrow> string) \<Rightarrow> key_msg \<Rightarrow> catalog_model \<Rightarrow> catalog_model" where
  "updateSearch toLower k m =
     (if key_Matches k keys_Escape then catalog_clampCursor (applyFilter toLower (m\<lparr>cm_searching := False, cm_search := []\<rparr>))
      else if k = KeyNamed ''backspace'' then
        (if cm_search m \<noteq> [] then catalog_clampCursor (applyFilter toLower (m\<lparr>cm_search := butlast (cm_search m)\<rparr>)) else m)
      else case k of
             KeyRunes s \<Rightarrow> (applyFilter toLower (m\<lparr>cm_search := cm_search m @ s\<rparr>))\<lparr>cm_cursor := 0, cm_offset := 0\<rparr>
           | KeyNamed n \<Rightarrow>
               if key_Matches k keys_Down then catalog_move 1 m
               else if key_Matches k keys_Up then catalog_move (- 1) m
               else m)"

definition catalog_Update :: "(string \<Rightarrow> string) \<Rightarrow> key_msg \<Rightarrow> catalog_model \<Rightarrow> catalog_model" where
  "catalog_Update toLower k m =
     (if cm_searching m then updateSearch toLower k m
      else if key_Matches k keys_Down then catalog_move 1 m
      else if key_Matches k keys_Up then catalog_move (- 1) m
      else if key_Matches k keys_First then catalog_scrollToCursor (m\<lparr>cm_cursor := 0\<rparr>)
      else if key_Matches k keys_Last then
        catalog_scrollToCursor (m\<lparr>cm_cursor := max 0 (int (length (catalog_Visible m)) - 1)\<rparr>)
      else if key_Matches k keys_HalfDown then catalog_move (half (cm_height m)) m
      else if key_Matches k keys_HalfUp then catalog_move (- half (cm_height m)) m
      else if key_Matches k keys_Search then m\<lparr>cm_searching := True, cm_search := []\<rparr>
      else if key_Matches k keys_Select then toggleSelection m
      else m)"

text \<open>The rows that \<open>CatalogView\<close> indexes: from the offset to the end of the window or of the list.\<close>

definition go_index :: "'a list \<Rightarrow> int \<Rightarrow> 'a outcome" where
  "go_index xs i = (if 0 \<le> i \<and> i < int (length xs) then Ok (xs ! nat i) else Panic)"

fun index_all :: "'a list \<Rightarrow> int list \<Rightarrow> 'a list outcome" where
  "index_all xs [] = Ok []"
| "index_all xs (i # is) = obind (go_index xs i) (\<lambda>x. obind (index_all xs is) (\<lambda>ys. Ok (x # ys)))"

definition window :: "'a list \<Rightarrow> int \<Rightarrow> int \<Rightarrow> 'a list outcome" where
  "window xs offset height = index_all xs [offset..min (offset + height) (int (length xs)) - 1]"

definition CatalogView_rows :: "catalog_model \<Rightarrow> file_info list outcome" where
  "CatalogView_rows m = window (catalog_Visible m) (cm_offset m) (cm_height m)"

section \<open>The peer panel\<close>

record peer_model =
  pm_peers :: "peer_info list"
  pm_cursor :: int
  pm_offset :: int
  pm_height :: int
  pm_width :: int

definition peer_clampCursor :: "peer_model \<Rightarrow> peer_model" where
  "peer_clampCursor m = m\<lparr>pm_cursor := clamp (length (pm_peers m)) (pm_cursor m)\<rparr>"

definition peer_scrollToCursor :: "peer_model \<Rightarrow> peer_model" where
  "peer_scrollToCursor m = m\<lparr>pm_offset := scroll (pm_height m) (pm_cursor m) (pm_offset m)\<rparr>"

definition peer_move :: "int \<Rightarrow> peer_model \<Rightarrow> peer_model" where
  "peer_move d m = peer_scrollToCursor (peer_clampCursor (m\<lparr>pm_cursor := pm_cursor m + d\<rparr>))"

definition SetPeers :: "peer_info list \<Rightarrow> peer_model \<Rightarrow> peer_model" where
  "SetPeers peers m = peer_clampCursor (m\<lparr>pm_peers := peers\<rparr>)"

definition peer_SetSize :: "int \<Rightarrow> int \<Rightarrow> peer_model \<Rightarrow> peer_model" where
  "peer_SetSize w h m = m\<lparr>pm_width := w, pm_height := h\<rparr>"

definition SelectedPeer :: "peer_model \<Rightarrow> peer_info option outcome" where
  "SelectedPeer m =
     (if pm_peers m = [] \<or> pm_cursor m \<ge> int (length (pm_peers m)) then Ok None
      else obind (go_index (pm_peers m) (pm_cursor m)) (\<lambda>p. Ok (Some p)))"

fun set_online :: "string \<Rightarrow> bool \<Rightarrow> peer_info list \<Rightarrow> peer_info list option" where
  "set_online nodeID b [] = None"
| "set_online nodeID b (p # ps) =
     (if pi_NodeID p = nodeID then Some (p\<lparr>pi_Online := b\<rparr> # ps) else map_option ((#) p) (set_online nodeID b ps))"

definition UpdatePeerOnline :: "peer_info \<Rightarrow> peer_model \<Rightarrow> peer_model" where
  "UpdatePeerOnline info m =
     m\<lparr>pm_peers := (case set_online (pi_NodeID info) True (pm_peers m) of
                       Some ps \<Rightarrow> ps | None \<Rightarrow> pm_peers m @ [info\<lparr>pi_Online := True\<rparr>])\<rparr>"

definition UpdatePeerOffline :: "string \<Rightarrow> peer_model \<Rightarrow> peer_model" where
  "UpdatePeerOffline nodeID m =
     m\<lparr>pm_peers := (case set_online nodeID False (pm_peers m) of Some ps \<Rightarrow> ps | None \<Rightarrow> pm_peers m)\<rparr>"

definition peer_Update :: "key_msg \<Rightarrow> peer_model \<Rightarrow> peer_model" where
  "peer_Update k m =
     (if key_Matches k keys_Down then peer_move 1 m
      else if key_Matches k keys_Up then peer_move (- 1) m
      else if key_Matches k keys_First then peer_scrollToCursor (m\<lparr>pm_cursor := 0\<rparr>)
      else if key_Matches k keys_Last then peer_scrollToCursor (m\<lparr>pm_cursor := max 0 (int (length (pm_peers m)) - 1)\<rparr>)
      else m)"

definition PeerView_rows :: "peer_model \<Rightarrow> peer_info list outcome" where
  "PeerView_rows m = window (pm_peers m) (pm_offset m) (pm_height m)"

section \<open>Transfers and status bar\<close>

record transfer_state =
  ts_fileID :: string
  ts_fileName :: string
  ts_done :: bool
  ts_err :: "err option"

record progress_model =
  pg_transfers :: "transfer_state list"
  pg_visible :: bool
  pg_width :: int

definition Toggle :: "progress_model \<Rightarrow> progress_model" where
  "Toggle m = m\<lparr>pg_visible := \<not> pg_visible m\<rparr>"

definition AddTransfer :: "file_info \<Rightarrow> progress_model \<Rightarrow> progress_model" where
  "AddTransfer f m = m\<lparr>pg_transfers := pg_transfers m @ [\<lparr>ts_fileID = fl_FileID f, ts_fileName = fl_Name f, ts_done = False, ts_err = None\<rparr>]\<rparr>"

fun mark_first :: "string \<Rightarrow> err option \<Rightarrow> transfer_state list \<Rightarrow> transfer_state list" where
  "mark_first fileID e [] = []"
| "mark_first fileID e (t # ts) =
     (if ts_fileID t = fileID then t\<lparr>ts_done := True, ts_err := e\<rparr> # ts else t # mark_first fileID e ts)"

definition MarkDone :: "string \<Rightarrow> err option \<Rightarrow> progress_model \<Rightarrow> progress_model" where
  "MarkDone fileID e m = m\<lparr>pg_transfers := mark_first fileID e (pg_transfers m)\<rparr>"

definition HasActive :: "progress_model \<Rightarrow> bool" where
  "HasActive m \<longleftrightarrow> (\<exists>t \<in> set (pg_transfers m). \<not> ts_done t)"

record status_bar =
  sb_nodeID :: string
  sb_peerCount :: nat
  sb_relayAddr :: string
  sb_relayOnline :: bool
  sb_width :: int

definition SetStatus :: "status_resp \<Rightarrow> status_bar \<Rightarrow> status_bar" where
  "SetStatus r s = s\<lparr>sb_nodeID := sr_NodeIDShort r, sb_peerCount := sr_PeerCount r, sb_relayAddr := sr_RelayAddr r,
     sb_relayOnline := sr_RelayOnline r\<rparr>"

section \<open>Messages, commands, overlays\<close>

datatype daemon_event = EvPeerOnline "peer_info option" | EvPeerOffline "string option" | EvCatalogUpdated | EvOther

datatype tui_msg =
    WindowSizeMsg int int
  | KeyMsg key_msg
  | StatusResult "status_resp option" "err option"
  | PeersResult "peer_info list option" "err option"
  | CatalogResult "file_info list option" "err option"
  | DaemonEvent daemon_event
  | DaemonDisconnected
  | InviteResult "string option" "err option"
  | JoinResult "string option" "err option"
  | DownloadResult string "err option"

datatype tui_cmd =
    FetchStatus | FetchPeers | FetchCatalog | WaitForEvent | DoInvite | DoJoin string | DoDownload string | ConfirmAction | InputCmd | QuitCmd

text \<open>
  What the commands that talk to the daemon return, as a message. The value of a command is what \<open>tea.Cmd\<close> runs later; \<open>written\<close> and
  \<open>answer\<close> are the results of the exchange on the socket at that time.
\<close>

definition result_msg :: "('a option \<Rightarrow> err option \<Rightarrow> tui_msg) \<Rightarrow> 'a outcome \<times> ipc_client \<Rightarrow> tui_msg outcome \<times> ipc_client" where
  "result_msg mk rc = (case fst rc of Ok r \<Rightarrow> Ok (mk (Some r) None) | Err e \<Rightarrow> Ok (mk None (Some e)) | Panic \<Rightarrow> Panic, snd rc)"

definition fetchStatus :: "ipc_json \<Rightarrow> unit outcome \<Rightarrow> response outcome \<Rightarrow> ipc_client \<Rightarrow> tui_msg outcome \<times> ipc_client" where
  "fetchStatus J written answer c = result_msg StatusResult (Client_Status J written answer c)"

definition fetchPeers :: "ipc_json \<Rightarrow> unit outcome \<Rightarrow> response outcome \<Rightarrow> ipc_client \<Rightarrow> tui_msg outcome \<times> ipc_client" where
  "fetchPeers J written answer c = result_msg PeersResult (Client_Peers J written answer c)"

definition fetchCatalog :: "ipc_json \<Rightarrow> unit outcome \<Rightarrow> response outcome \<Rightarrow> ipc_client \<Rightarrow> tui_msg outcome \<times> ipc_client" where
  "fetchCatalog J written answer c = result_msg CatalogResult (Client_Catalog J written answer c)"

definition doInvite :: "ipc_json \<Rightarrow> unit outcome \<Rightarrow> response outcome \<Rightarrow> ipc_client \<Rightarrow> tui_msg outcome \<times> ipc_client" where
  "doInvite J written answer c = result_msg InviteResult (Client_Invite J written answer c)"

definition doJoin :: "ipc_json \<Rightarrow> unit outcome \<Rightarrow> response outcome \<Rightarrow> string \<Rightarrow> ipc_client \<Rightarrow> tui_msg outcome \<times> ipc_client" where
  "doJoin J written answer token c = result_msg JoinResult (Client_Join J written answer token c)"

definition doDownload :: "ipc_json \<Rightarrow> unit outcome \<Rightarrow> response outcome \<Rightarrow> string \<Rightarrow> ipc_client \<Rightarrow> tui_msg outcome \<times> ipc_client" where
  "doDownload J written answer fileID c = result_msg (\<lambda>_. DownloadResult fileID) (Client_Download J written answer fileID c)"

text \<open>\<open>waitForEvent\<close> on a channel with these events and this state of the connection: \<open>None\<close> while it waits.\<close>

definition daemon_event_of :: "event \<Rightarrow> daemon_event" where
  "daemon_event_of ev = (case ev of PeerOnline p \<Rightarrow> EvPeerOnline (Some p) | PeerOffline n \<Rightarrow> EvPeerOffline (Some n) | CatalogUpdated \<Rightarrow> EvCatalogUpdated)"

definition waitForEvent :: "event list \<Rightarrow> bool \<Rightarrow> (tui_msg \<times> event list) option" where
  "waitForEvent buf closed =
     (case buf of
        ev # evs \<Rightarrow> Some (DaemonEvent (daemon_event_of ev), evs)
      | [] \<Rightarrow> if closed then Some (DaemonDisconnected, []) else None)"

record join_overlay =
  jo_input :: string
  jo_err :: "err option"
  jo_success :: string
  jo_loading :: bool

record invite_overlay =
  io_token :: string
  io_err :: "err option"
  io_loading :: bool

datatype overlay =
    HelpOverlay
  | InviteOverlay invite_overlay
  | JoinOverlay join_overlay
  | DetailOverlay peer_info
  | ConfirmOverlay string

text \<open>\<open>textinput.Update\<close> gives the new content of the input.\<close>

record tui_lib =
  tl_toLower :: "string \<Rightarrow> string"
  tl_input :: "string \<Rightarrow> tui_msg \<Rightarrow> string"

abbreviation errEmptyToken :: err where "errEmptyToken \<equiv> Message ''token is required''"
abbreviation errDaemonDisconnected :: err where "errDaemonDisconnected \<equiv> Message ''daemon disconnected''"

definition NewInviteOverlay :: overlay where
  "NewInviteOverlay = InviteOverlay \<lparr>io_token = [], io_err = None, io_loading = True\<rparr>"

definition NewJoinOverlay :: overlay where
  "NewJoinOverlay = JoinOverlay \<lparr>jo_input = [], jo_err = None, jo_success = [], jo_loading = False\<rparr>"

definition help_Update :: "tui_msg \<Rightarrow> overlay option" where
  "help_Update msg =
     (case msg of
        KeyMsg k \<Rightarrow> if key_Matches k keys_Escape \<or> key_Matches k keys_Help then None else Some HelpOverlay
      | _ \<Rightarrow> Some HelpOverlay)"

definition invite_Update :: "tui_msg \<Rightarrow> invite_overlay \<Rightarrow> overlay option" where
  "invite_Update msg v =
     (case msg of
        KeyMsg k \<Rightarrow> if key_Matches k keys_Escape then None else Some (InviteOverlay v)
      | InviteResult resp e \<Rightarrow>
          let v1 = v\<lparr>io_loading := False\<rparr>
          in Some (InviteOverlay (case e of Some e \<Rightarrow> v1\<lparr>io_err := Some e\<rparr>
               | None \<Rightarrow> (case resp of Some tok \<Rightarrow> v1\<lparr>io_token := tok\<rparr> | None \<Rightarrow> v1)))
      | _ \<Rightarrow> Some (InviteOverlay v))"

definition join_forward :: "tui_lib \<Rightarrow> tui_msg \<Rightarrow> join_overlay \<Rightarrow> overlay option \<times> tui_cmd list" where
  "join_forward L msg j =
     (if \<not> jo_loading j \<and> jo_success j = [] then (Some (JoinOverlay (j\<lparr>jo_input := tl_input L (jo_input j) msg\<rparr>)), [InputCmd])
      else (Some (JoinOverlay j), []))"

definition join_Update :: "tui_lib \<Rightarrow> tui_msg \<Rightarrow> join_overlay \<Rightarrow> overlay option \<times> tui_cmd list" where
  "join_Update L msg j =
     (case msg of
        KeyMsg k \<Rightarrow>
          if key_Matches k keys_Escape then (None, [])
          else if k = KeyNamed ''enter'' \<and> \<not> jo_loading j then
            (if jo_input j = [] then (Some (JoinOverlay (j\<lparr>jo_err := Some errEmptyToken\<rparr>)), [])
             else (Some (JoinOverlay (j\<lparr>jo_loading := True, jo_err := None\<rparr>)), [DoJoin (jo_input j)]))
          else join_forward L msg j
      | JoinResult resp e \<Rightarrow>
          let j1 = j\<lparr>jo_loading := False\<rparr>
          in (Some (JoinOverlay (case e of Some e \<Rightarrow> j1\<lparr>jo_err := Some e\<rparr>
                | None \<Rightarrow> (case resp of Some n \<Rightarrow> j1\<lparr>jo_success := n\<rparr> | None \<Rightarrow> j1))), [])
      | _ \<Rightarrow> join_forward L msg j)"

definition detail_Update :: "tui_msg \<Rightarrow> peer_info \<Rightarrow> overlay option" where
  "detail_Update msg p =
     (case msg of
        KeyMsg k \<Rightarrow> if key_Matches k keys_Escape \<or> key_Matches k keys_Enter then None else Some (DetailOverlay p)
      | _ \<Rightarrow> Some (DetailOverlay p))"

definition confirm_Update :: "tui_msg \<Rightarrow> string \<Rightarrow> overlay option \<times> tui_cmd list" where
  "confirm_Update msg message =
     (case msg of
        KeyMsg k \<Rightarrow>
          if key_string k \<in> {''y'', ''Y''} then (None, [ConfirmAction])
          else if key_string k \<in> {''n'', ''N'', ''esc''} then (None, [])
          else (Some (ConfirmOverlay message), [])
      | _ \<Rightarrow> (Some (ConfirmOverlay message), []))"

definition overlay_Update :: "tui_lib \<Rightarrow> tui_msg \<Rightarrow> overlay \<Rightarrow> overlay option \<times> tui_cmd list" where
  "overlay_Update L msg v =
     (case v of
        HelpOverlay \<Rightarrow> (help_Update msg, [])
      | InviteOverlay i \<Rightarrow> (invite_Update msg i, [])
      | JoinOverlay j \<Rightarrow> join_Update L msg j
      | DetailOverlay p \<Rightarrow> (detail_Update msg p, [])
      | ConfirmOverlay message \<Rightarrow> confirm_Update msg message)"

section \<open>The model\<close>

datatype panel = panelCatalog | panelPeers

record tui_model =
  md_catalog :: catalog_model
  md_peers :: peer_model
  md_status :: status_bar
  md_progress :: progress_model
  md_focus :: panel
  md_overlay :: "overlay option"
  md_width :: int
  md_height :: int
  md_err :: "err option"
  md_quitting :: bool

definition NewModel :: tui_model where
  "NewModel = \<lparr>md_catalog = NewCatalogModel, md_peers = \<lparr>pm_peers = [], pm_cursor = 0, pm_offset = 0, pm_height = 0, pm_width = 0\<rparr>,
     md_status = \<lparr>sb_nodeID = [], sb_peerCount = 0, sb_relayAddr = [], sb_relayOnline = False, sb_width = 0\<rparr>,
     md_progress = \<lparr>pg_transfers = [], pg_visible = False, pg_width = 0\<rparr>, md_focus = panelCatalog, md_overlay = None, md_width = 0,
     md_height = 0, md_err = None, md_quitting = False\<rparr>"

definition Init :: "tui_cmd list" where
  "Init = [FetchStatus, FetchPeers, FetchCatalog, WaitForEvent]"

definition panelWidths :: "tui_model \<Rightarrow> int \<times> int" where
  "panelWidths m =
     (if md_width m < 80 then (md_width m, 0)
      else let catalogW = md_width m * 70 div 100 in (catalogW, md_width m - catalogW))"

definition recalcLayout :: "tui_model \<Rightarrow> tui_model" where
  "recalcLayout m =
     (let (catalogW, peerW) = panelWidths m; panelH = md_height m - 1 - 2
      in m\<lparr>md_catalog := catalog_SetSize catalogW panelH (md_catalog m), md_peers := peer_SetSize peerW panelH (md_peers m),
           md_status := (md_status m)\<lparr>sb_width := md_width m\<rparr>, md_progress := (md_progress m)\<lparr>pg_width := md_width m\<rparr>\<rparr>)"

definition startDownloads :: "tui_model \<Rightarrow> tui_model \<times> tui_cmd list" where
  "startDownloads m =
     (let wanted = filter (\<lambda>f. \<not> fl_IsLocal f) (SelectedFiles (md_catalog m));
          progress = fold AddTransfer wanted (md_progress m)
      in (m\<lparr>md_progress := (if wanted \<noteq> [] then progress\<lparr>pg_visible := True\<rparr> else progress)\<rparr>, map (\<lambda>f. DoDownload (fl_FileID f)) wanted))"

definition handleEvent :: "daemon_event \<Rightarrow> tui_model \<Rightarrow> tui_model \<times> tui_cmd list" where
  "handleEvent ev m =
     (case ev of
        EvPeerOnline (Some info) \<Rightarrow>
          (let ps = UpdatePeerOnline info (md_peers m)
           in (m\<lparr>md_peers := ps, md_status := (md_status m)\<lparr>sb_peerCount := length (pm_peers ps)\<rparr>\<rparr>, [WaitForEvent]))
      | EvPeerOffline (Some nodeID) \<Rightarrow> (m\<lparr>md_peers := UpdatePeerOffline nodeID (md_peers m)\<rparr>, [WaitForEvent])
      | EvCatalogUpdated \<Rightarrow> (m, [FetchCatalog, WaitForEvent])
      | _ \<Rightarrow> (m, [WaitForEvent]))"

definition handleOverlayResult :: "tui_lib \<Rightarrow> tui_msg \<Rightarrow> tui_model \<Rightarrow> tui_model \<times> tui_cmd list" where
  "handleOverlayResult L msg m =
     (case md_overlay m of
        None \<Rightarrow> (m, [])
      | Some v \<Rightarrow> (let (v1, cmds) = overlay_Update L msg v in (m\<lparr>md_overlay := v1\<rparr>, cmds)))"

text \<open>The part of \<open>handleKey\<close> for the peer panel; the peer at the cursor is looked up anew for each key it may open.\<close>

definition peers_key :: "key_msg \<Rightarrow> tui_model \<Rightarrow> tui_model outcome" where
  "peers_key k m0 =
     (let m = m0\<lparr>md_peers := peer_Update k (md_peers m0)\<rparr>
      in obind (if key_Matches k keys_Enter
                then obind (SelectedPeer (md_peers m)) (\<lambda>p. Ok (case p of None \<Rightarrow> m | Some p \<Rightarrow> m\<lparr>md_overlay := Some (DetailOverlay p)\<rparr>))
                else Ok m) (\<lambda>m1.
         if key_Matches k keys_Disconnect
         then obind (SelectedPeer (md_peers m1)) (\<lambda>p. Ok (case p of None \<Rightarrow> m1
                | Some p \<Rightarrow> m1\<lparr>md_overlay := Some (ConfirmOverlay (''Remove peer '' @ pi_NodeIDShort p @ ''?''))\<rparr>))
         else Ok m1))"

definition handleKey :: "tui_lib \<Rightarrow> key_msg \<Rightarrow> tui_model \<Rightarrow> (tui_model \<times> tui_cmd list) outcome" where
  "handleKey L k m =
     (if k = KeyNamed ''ctrl+c'' then Ok (m\<lparr>md_quitting := True\<rparr>, [QuitCmd])
      else case md_overlay m of
        Some v \<Rightarrow> Ok (let (v1, cmds) = overlay_Update L (KeyMsg k) v in (m\<lparr>md_overlay := v1\<rparr>, cmds))
      | None \<Rightarrow>
          if key_Matches k keys_Quit \<and> \<not> cm_searching (md_catalog m) then Ok (m\<lparr>md_quitting := True\<rparr>, [QuitCmd])
          else if key_Matches k keys_Tab then
            Ok (m\<lparr>md_focus := (if md_focus m = panelCatalog then panelPeers else panelCatalog)\<rparr>, [])
          else if key_Matches k keys_Help then Ok (m\<lparr>md_overlay := Some HelpOverlay\<rparr>, [])
          else if key_Matches k keys_Progress then Ok (m\<lparr>md_progress := Toggle (md_progress m)\<rparr>, [])
          else if key_Matches k keys_Download then Ok (startDownloads m)
          else if key_Matches k keys_Invite then Ok (m\<lparr>md_overlay := Some NewInviteOverlay\<rparr>, [DoInvite])
          else if key_Matches k keys_Join then Ok (m\<lparr>md_overlay := Some NewJoinOverlay\<rparr>, [])
          else case md_focus m of
                 panelCatalog \<Rightarrow> Ok (m\<lparr>md_catalog := catalog_Update (tl_toLower L) k (md_catalog m)\<rparr>, [])
               | panelPeers \<Rightarrow> obind (peers_key k m) (\<lambda>m1. Ok (m1, [])))"

definition Update :: "tui_lib \<Rightarrow> tui_msg \<Rightarrow> tui_model \<Rightarrow> (tui_model \<times> tui_cmd list) outcome" where
  "Update L msg m =
     (case msg of
        WindowSizeMsg w h \<Rightarrow> Ok (recalcLayout (m\<lparr>md_width := w, md_height := h\<rparr>), [])
      | KeyMsg k \<Rightarrow> handleKey L k m
      | StatusResult resp e \<Rightarrow>
          Ok (case (e, resp) of (None, Some r) \<Rightarrow> m\<lparr>md_status := SetStatus r (md_status m)\<rparr>
                | (Some e, _) \<Rightarrow> m\<lparr>md_err := Some e\<rparr> | _ \<Rightarrow> m, [])
      | PeersResult resp e \<Rightarrow>
          Ok (case (e, resp) of (Some e, _) \<Rightarrow> m\<lparr>md_err := Some e\<rparr>
                | (None, Some ps) \<Rightarrow> m\<lparr>md_peers := SetPeers ps (md_peers m), md_status := (md_status m)\<lparr>sb_peerCount := length ps\<rparr>\<rparr>
                | _ \<Rightarrow> m, [])
      | CatalogResult resp e \<Rightarrow>
          Ok (case (e, resp) of (Some e, _) \<Rightarrow> m\<lparr>md_err := Some e\<rparr>
                | (None, Some fs) \<Rightarrow> m\<lparr>md_catalog := SetFiles (tl_toLower L) fs (md_catalog m)\<rparr>
                | _ \<Rightarrow> m, [])
      | DaemonEvent ev \<Rightarrow> Ok (handleEvent ev m)
      | DaemonDisconnected \<Rightarrow> Ok (m\<lparr>md_err := Some errDaemonDisconnected\<rparr>, [])
      | InviteResult _ _ \<Rightarrow> Ok (handleOverlayResult L msg m)
      | JoinResult _ _ \<Rightarrow> Ok (handleOverlayResult L msg m)
      | DownloadResult fileID e \<Rightarrow>
          (let m1 = m\<lparr>md_progress := MarkDone fileID e (md_progress m)\<rparr>
           in Ok (m1, if e = None then [FetchCatalog] else [])))"

section \<open>Cursors stay in range\<close>

definition in_range :: "nat \<Rightarrow> int \<Rightarrow> int \<Rightarrow> bool" where
  "in_range n cursor offset \<longleftrightarrow> 0 \<le> cursor \<and> (cursor < int n \<or> n = 0 \<and> cursor = 0) \<and> 0 \<le> offset"

definition catalog_ok :: "catalog_model \<Rightarrow> bool" where
  "catalog_ok m \<longleftrightarrow> in_range (length (catalog_Visible m)) (cm_cursor m) (cm_offset m)"

definition peers_ok :: "peer_model \<Rightarrow> bool" where
  "peers_ok m \<longleftrightarrow> in_range (length (pm_peers m)) (pm_cursor m) (pm_offset m)"

definition tui_ok :: "tui_model \<Rightarrow> bool" where
  "tui_ok m \<longleftrightarrow> catalog_ok (md_catalog m) \<and> peers_ok (md_peers m)"

lemma in_range_scroll: "in_range n c off \<Longrightarrow> in_range n c (scroll h c off)"
  by (auto simp: in_range_def scroll_def Let_def)

lemma in_range_clamp: "0 \<le> off \<Longrightarrow> in_range n (clamp n c) off"
  by (auto simp: in_range_def clamp_def)

lemma offset_ok: "catalog_ok m \<Longrightarrow> 0 \<le> cm_offset m" "peers_ok p \<Longrightarrow> 0 \<le> pm_offset p"
  by (simp_all add: catalog_ok_def peers_ok_def in_range_def)

lemma Visible_cursor [simp]:
  "catalog_Visible (m\<lparr>cm_cursor := c\<rparr>) = catalog_Visible m" "catalog_Visible (m\<lparr>cm_offset := off\<rparr>) = catalog_Visible m"
  by (simp_all add: catalog_Visible_def)

lemma applyFilter_sel [simp]: "cm_offset (applyFilter f m) = cm_offset m" "cm_cursor (applyFilter f m) = cm_cursor m"
  by (simp_all add: applyFilter_def)

lemma catalog_ok_clamp: "0 \<le> cm_offset m \<Longrightarrow> catalog_ok (catalog_clampCursor m)"
  by (simp add: catalog_ok_def catalog_clampCursor_def in_range_clamp)

lemma catalog_ok_scroll: "catalog_ok m \<Longrightarrow> catalog_ok (catalog_scrollToCursor m)"
  by (simp add: catalog_ok_def catalog_scrollToCursor_def in_range_scroll)

lemma catalog_ok_move: "catalog_ok m \<Longrightarrow> catalog_ok (catalog_move d m)"
  unfolding catalog_move_def by (intro catalog_ok_scroll catalog_ok_clamp) (simp add: offset_ok)

lemma catalog_ok_jump:
  "catalog_ok m \<Longrightarrow> catalog_ok (m\<lparr>cm_cursor := 0\<rparr>)"
  "catalog_ok m \<Longrightarrow> catalog_ok (m\<lparr>cm_cursor := max 0 (int (length (catalog_Visible m)) - 1)\<rparr>)"
  by (auto simp: catalog_ok_def in_range_def)

lemma catalog_ok_toggle: "catalog_ok m \<Longrightarrow> catalog_ok (toggleSelection m)"
  by (auto simp: toggleSelection_def catalog_ok_def catalog_Visible_def Let_def)

lemma catalog_ok_search: "catalog_ok m \<Longrightarrow> catalog_ok (updateSearch lower k m)"
  by (auto simp: updateSearch_def offset_ok intro!: catalog_ok_clamp catalog_ok_move split: key_msg.splits)
    (auto simp: catalog_ok_def in_range_def)

lemma catalog_ok_Update: "catalog_ok m \<Longrightarrow> catalog_ok (catalog_Update lower k m)"
  by (simp add: catalog_Update_def catalog_ok_search catalog_ok_move catalog_ok_scroll catalog_ok_jump catalog_ok_toggle)
    (auto simp: catalog_ok_def catalog_Visible_def)

lemma peers_ok_clamp: "0 \<le> pm_offset m \<Longrightarrow> peers_ok (peer_clampCursor m)"
  by (simp add: peers_ok_def peer_clampCursor_def in_range_clamp)

lemma peers_ok_scroll: "peers_ok m \<Longrightarrow> peers_ok (peer_scrollToCursor m)"
  by (simp add: peers_ok_def peer_scrollToCursor_def in_range_scroll)

lemma peers_ok_move: "peers_ok m \<Longrightarrow> peers_ok (peer_move d m)"
  unfolding peer_move_def by (intro peers_ok_scroll peers_ok_clamp) (simp add: offset_ok)

lemma peers_ok_Update: "peers_ok m \<Longrightarrow> peers_ok (peer_Update k m)"
  by (auto simp: peer_Update_def intro!: peers_ok_move peers_ok_scroll) (auto simp: peers_ok_def in_range_def)

lemma length_set_online: "set_online n b ps = Some ps' \<Longrightarrow> length ps' = length ps"
  by (induction ps arbitrary: ps') (auto split: if_splits)

lemma peers_ok_events: "peers_ok m \<Longrightarrow> peers_ok (UpdatePeerOnline info m)" "peers_ok m \<Longrightarrow> peers_ok (UpdatePeerOffline n m)"
  by (auto simp: peers_ok_def in_range_def UpdatePeerOnline_def UpdatePeerOffline_def dest: length_set_online split: option.splits)

lemma SelectedPeer_ok: "peers_ok m \<Longrightarrow> \<exists>p. SelectedPeer m = Ok p"
  by (auto simp: peers_ok_def in_range_def SelectedPeer_def go_index_def)

lemma peers_key_ok:
  assumes "tui_ok m"
  shows "\<exists>m'. peers_key k m = Ok m' \<and> tui_ok m'"
proof -
  let ?m = "m\<lparr>md_peers := peer_Update k (md_peers m)\<rparr>"
  have ok: "peers_ok (peer_Update k (md_peers m))" "catalog_ok (md_catalog m)"
    using assms peers_ok_Update by (auto simp: tui_ok_def)
  obtain p where p: "SelectedPeer (peer_Update k (md_peers m)) = Ok p" using SelectedPeer_ok [OF ok(1)] by blast
  show ?thesis
    using ok by (auto simp: peers_key_def p tui_ok_def Let_def split: option.split)
qed

lemma handleKey_ok:
  assumes "tui_ok m"
  shows "\<exists>m' cmds. handleKey L k m = Ok (m', cmds) \<and> tui_ok m'"
proof -
  obtain m' where "peers_key k m = Ok m'" "tui_ok m'" using peers_key_ok [OF assms] by blast
  then show ?thesis
    using assms
    by (auto simp: handleKey_def tui_ok_def startDownloads_def catalog_ok_Update Let_def split_beta split: option.split panel.split)
qed

lemma size_ok [simp]: "catalog_ok (catalog_SetSize w h c) = catalog_ok c" "peers_ok (peer_SetSize w h p) = peers_ok p"
  by (simp_all add: catalog_ok_def peers_ok_def catalog_SetSize_def peer_SetSize_def catalog_Visible_def)

lemma Update_ok:
  assumes "tui_ok m"
  shows "\<exists>m' cmds. Update L msg m = Ok (m', cmds) \<and> tui_ok m'"
proof (cases msg)
  case (WindowSizeMsg w h)
  have "tui_ok (recalcLayout (m\<lparr>md_width := w, md_height := h\<rparr>))"
    using assms
    by (simp add: tui_ok_def recalcLayout_def split_beta Let_def)
  then show ?thesis by (simp add: Update_def WindowSizeMsg)
next
  case (KeyMsg k)
  then show ?thesis using handleKey_ok [OF assms] by (simp add: Update_def)
next
  case (PeersResult resp e)
  then show ?thesis
    using assms by (auto simp: Update_def tui_ok_def SetPeers_def offset_ok intro!: peers_ok_clamp split: option.split)
next
  case (CatalogResult resp e)
  then show ?thesis
    using assms by (auto simp: Update_def tui_ok_def SetFiles_def offset_ok intro!: catalog_ok_clamp split: option.split)
next
  case (DaemonEvent ev)
  then show ?thesis
    using assms by (auto simp: Update_def tui_ok_def handleEvent_def peers_ok_events Let_def split: daemon_event.split option.split)
qed (use assms in \<open>auto simp: Update_def tui_ok_def handleOverlayResult_def Let_def split_beta split: option.split\<close>)

fun run_tui :: "tui_lib \<Rightarrow> tui_msg list \<Rightarrow> tui_model \<Rightarrow> tui_model outcome" where
  "run_tui L [] m = Ok m"
| "run_tui L (msg # msgs) m = obind (Update L msg m) (\<lambda>(m1, cmds). run_tui L msgs m1)"

lemma run_tui_ok: "tui_ok m \<Longrightarrow> \<exists>m'. run_tui L msgs m = Ok m' \<and> tui_ok m'"
proof (induction msgs arbitrary: m)
  case (Cons msg msgs)
  then show ?case using Update_ok [OF Cons.prems, of L msg] by fastforce
qed simp

lemma index_all_ok: "\<forall>i \<in> set is. 0 \<le> i \<and> i < int (length xs) \<Longrightarrow> index_all xs is \<noteq> Panic"
  by (induction "is") (auto simp: go_index_def outcome_simps)

lemma window_ok: "0 \<le> off \<Longrightarrow> window xs off h \<noteq> Panic"
  unfolding window_def by (rule index_all_ok) auto

section \<open>Properties\<close>

lemma run_tui_new: "\<exists>m. run_tui L msgs NewModel = Ok m \<and> catalog_ok (md_catalog m) \<and> peers_ok (md_peers m)"
proof -
  have "tui_ok NewModel" by (simp add: tui_ok_def NewModel_def NewCatalogModel_def catalog_ok_def peers_ok_def in_range_def)
  then show ?thesis using run_tui_ok [of NewModel L msgs] by (fastforce simp: tui_ok_def)
qed

text \<open>
  Five characters cannot be typed into the search: while the catalog is being searched, the keys
  i, J, p, D and ? still act as global commands, and the search text stays as it was.
\<close>

lemma search_misses_command_keys:
  assumes "md_overlay m = None" and "cm_searching (md_catalog m)" and "s \<in> {''i'', ''J'', ''p'', ''D'', ''?''}"
  shows "\<exists>m' cmds. Update L (KeyMsg (KeyRunes s)) m = Ok (m', cmds) \<and> cm_search (md_catalog m') = cm_search (md_catalog m)"
proof -
  consider "s = ''i''" | "s = ''J''" | "s = ''p''" | "s = ''D''" | "s = ''?''" using assms(3) by blast
  then show ?thesis
    by cases (use assms(1,2) in \<open>simp_all add: Update_def handleKey_def keys_defs startDownloads_def Let_def\<close>)
qed

text \<open>
  A refresh that shortens the list moves the cursor back but not the window: the panel then shows no row although there
  are files.
\<close>

lemma refresh_can_hide_rows:
  "\<exists>m. catalog_ok m \<and> CatalogView_rows (SetFiles lower [f] m) = Ok [] \<and> cm_height m > 0 \<and> catalog_Visible (SetFiles lower [f] m) = [f]"
  by (rule exI [of _ "NewCatalogModel\<lparr>cm_files := [f, f, f], cm_cursor := 2, cm_offset := 2, cm_height := 1\<rparr>"])
    (simp add: catalog_ok_def in_range_def CatalogView_rows_def window_def SetFiles_def catalog_clampCursor_def applyFilter_def
      catalog_Visible_def NewCatalogModel_def clamp_def)

end
