(* ===== verification/Tui_View.thy ===== *)
theory Tui_View
  imports Tui
begin

text \<open>
  The views of \<open>internal/tui\<close>: the text of the panels, the status bar, the transfers and the overlays, and the whole screen.
  lipgloss is a parameter (\<open>looks\<close>): what a style makes of a text under an optional width, the width of a text, and the
  functions that put texts next to each other. So are the text of an error and the view of the text input.
\<close>

section \<open>Formatting\<close>

text \<open>\<open>fmt\<close> pads to a number of runes.\<close>

function rune_count :: "bytes \<Rightarrow> nat" where
  "rune_count bs = (if bs = [] then 0 else Suc (rune_count (drop (max 1 (rune_len bs)) bs)))"
  by pat_completeness auto
termination
  by (relation "measure length") auto

declare rune_count.simps [simp del]

definition pad_left :: "nat \<Rightarrow> string \<Rightarrow> string" where
  "pad_left n s = replicate (n - rune_count (string_bytes s)) (CHR '' '') @ s"

definition pad_right :: "nat \<Rightarrow> string \<Rightarrow> string" where
  "pad_right n s = s @ replicate (n - rune_count (string_bytes s)) (CHR '' '')"

text \<open>\<open>float64(n)\<close>: the nearest value with 53 significant bits, the even one of two; \<open>%.1f\<close> of a quotient by a power of two.\<close>

fun bit_length :: "nat \<Rightarrow> nat" where
  "bit_length n = (if n = 0 then 0 else Suc (bit_length (n div 2)))"

declare bit_length.simps [simp del]

definition div_even :: "nat \<Rightarrow> nat \<Rightarrow> nat" where
  "div_even a b = (let q = a div b; r = a mod b in if b < 2 * r \<or> (b = 2 * r \<and> odd q) then Suc q else q)"

definition float64 :: "nat \<Rightarrow> nat" where
  "float64 n = (let s = bit_length n - 53 in div_even n (2 ^ s) * 2 ^ s)"

definition one_decimal :: "nat \<Rightarrow> nat \<Rightarrow> string" where
  "one_decimal n k = (let t = div_even (10 * float64 n) (2 ^ k) in dec_nat (t div 10) @ ''.'' @ dec_nat (t mod 10))"

definition formatSize :: "64 word \<Rightarrow> string" where
  "formatSize w =
     (let b = sint w
      in if 2 ^ 30 \<le> b then one_decimal (nat b) 30 @ '' GB''
         else if 2 ^ 20 \<le> b then one_decimal (nat b) 20 @ '' MB''
         else if 2 ^ 10 \<le> b then one_decimal (nat b) 10 @ '' KB''
         else dec_int b @ '' B'')"

section \<open>Panels\<close>

datatype style =
    borderStyle | focusedBorderStyle | statusBarStyle | statusKeyStyle | selectedItemStyle | normalItemStyle | dimItemStyle
  | overlayStyle | overlayTitleStyle | titleStyle | errorStyle | checkboxOnStyle | checkboxOffStyle

record looks =
  lg_render :: "style \<Rightarrow> int option \<Rightarrow> string \<Rightarrow> string"
  lg_width :: "string \<Rightarrow> int"
  lg_joinHorizontal :: "string list \<Rightarrow> string"
  lg_joinVertical :: "string list \<Rightarrow> string"
  lg_place :: "int \<Rightarrow> int \<Rightarrow> string \<Rightarrow> string"
  lg_error :: "err \<Rightarrow> string"
  lg_input :: "string \<Rightarrow> string"

abbreviation newline :: string where "newline \<equiv> [CHR 0x0A]"

definition formatFileEntry :: "looks \<Rightarrow> file_info \<Rightarrow> int \<Rightarrow> string" where
  "formatFileEntry G f maxWidth =
     (let size = formatSize (fl_Size f); loc = (if fl_IsLocal f then ''local'' else ''remote''); name = fl_Name f;
          suffix = ''  '' @ pad_left 8 size @ ''  '' @ loc; available = maxWidth - lg_width G suffix - 6;
          name = (if 0 < available \<and> available < int (length name) then take (nat (available - 1)) name @ ''~'' else name)
      in pad_right (nat (max 0 available)) name @ suffix)"

definition formatPeerEntry :: "peer_info \<Rightarrow> string" where
  "formatPeerEntry p =
     (let status = (if pi_Online p then ''online'' else ''offline''); i = pi_NodeIDShort p; i = (if 12 < length i then take 12 i else i)
      in '' '' @ i @ ''  '' @ status)"

text \<open>Lines with a line feed between them, as the loops write them.\<close>

fun join_lines :: "string list \<Rightarrow> string" where
  "join_lines [] = []"
| "join_lines [l] = l"
| "join_lines (l # ls) = l @ newline @ join_lines ls"

text \<open>The lines of a panel: at most \<open>height\<close> of them, filled up with empty ones.\<close>

definition panel_content :: "string list \<Rightarrow> string option \<Rightarrow> int \<Rightarrow> string" where
  "panel_content lines none height =
     (let b = join_lines lines;
          rendered = (case none of None \<Rightarrow> count_list b (CHR 0x0A) + 1 | Some _ \<Rightarrow> 1);
          b = (case none of None \<Rightarrow> b | Some t \<Rightarrow> b @ t)
      in b @ replicate (nat height - rendered) (CHR 0x0A))"

definition item_line :: "looks \<Rightarrow> int \<Rightarrow> int \<Rightarrow> int \<Rightarrow> bool \<Rightarrow> string \<Rightarrow> string" where
  "item_line G width cursor i dim line =
     (if i = cursor then lg_render G selectedItemStyle (Some (width - 4)) line
      else if dim then lg_render G dimItemStyle None line
      else lg_render G normalItemStyle None line)"

definition CatalogView :: "looks \<Rightarrow> catalog_model \<Rightarrow> bool \<Rightarrow> string outcome" where
  "CatalogView G m focused =
     (let visible = catalog_Visible m; last_i = min (cm_offset m + cm_height m) (int (length visible)) - 1
      in obind (index_all visible [cm_offset m..last_i]) (\<lambda>fs.
         let lines = map (\<lambda>(i, f). item_line G (cm_width m) (cm_cursor m) i (\<not> fl_IsLocal f)
               ((if IsSelected m i then lg_render G checkboxOnStyle None ''[x]'' else lg_render G checkboxOffStyle None ''[ ]'') @ '' '' @
                formatFileEntry G f (cm_width m - 4))) (zip [cm_offset m..last_i] fs);
             content = panel_content lines (if visible = [] then Some (lg_render G dimItemStyle None ''  (no files)'') else None) (cm_height m);
             header = lg_render G titleStyle None '' Files'' @
               (if cm_searching m then ''  '' @ lg_render G dimItemStyle None ''/'' @ cm_search m @ lg_render G dimItemStyle None ''_'' else []) @
               (if visible \<noteq> [] then lg_render G dimItemStyle None (''  '' @ dec_nat (length visible) @ ''/'' @ dec_nat (length (cm_files m))) else [])
         in Ok (lg_render G (if focused then focusedBorderStyle else borderStyle) (Some (cm_width m)) (header @ newline @ content))))"

definition PeerView :: "looks \<Rightarrow> peer_model \<Rightarrow> bool \<Rightarrow> string outcome" where
  "PeerView G m focused =
     (let last_i = min (pm_offset m + pm_height m) (int (length (pm_peers m))) - 1
      in obind (index_all (pm_peers m) [pm_offset m..last_i]) (\<lambda>ps.
         let lines = map (\<lambda>(i, p). item_line G (pm_width m) (pm_cursor m) i (\<not> pi_Online p) (formatPeerEntry p)) (zip [pm_offset m..last_i] ps);
             content = panel_content lines (if pm_peers m = [] then Some (lg_render G dimItemStyle None ''  (no peers)'') else None) (pm_height m);
             header = lg_render G titleStyle None '' Peers'' @ lg_render G dimItemStyle None (''  '' @ dec_nat (length (pm_peers m)))
         in Ok (lg_render G (if focused then focusedBorderStyle else borderStyle) (Some (pm_width m)) (header @ newline @ content))))"

section \<open>Transfers and status\<close>

definition transfer_line :: "looks \<Rightarrow> transfer_state \<Rightarrow> string" where
  "transfer_line G t =
     (let status = (if ts_done t then (case ts_err t of Some e \<Rightarrow> lg_render G errorStyle None (''error: '' @ lg_error G e)
                       | None \<Rightarrow> lg_render G statusKeyStyle None ''done'')
                    else lg_render G dimItemStyle None ''downloading...'')
      in ''  '' @ ts_fileName t @ ''  '' @ status @ newline)"

definition ProgressView :: "looks \<Rightarrow> progress_model \<Rightarrow> string" where
  "ProgressView G m =
     (if \<not> pg_visible m \<or> pg_transfers m = [] then []
      else lg_render G borderStyle (Some (pg_width m))
             (lg_render G titleStyle None '' Transfers'' @ newline @ concat (map (transfer_line G) (pg_transfers m))))"

definition StatusView :: "looks \<Rightarrow> status_bar \<Rightarrow> string" where
  "StatusView G s =
     (let relay = lg_render G statusKeyStyle None ''relay:'' @
            (if sb_relayOnline s \<and> sb_relayAddr s \<noteq> [] then sb_relayAddr s else ''disconnected'');
          peers = lg_render G statusKeyStyle None ''peers:'' @ dec_nat (sb_peerCount s);
          nodeID = lg_render G statusKeyStyle None ''node:'' @ sb_nodeID s
      in lg_render G statusBarStyle (Some (sb_width s)) ('' '' @ relay @ ''  '' @ peers @ ''  '' @ nodeID))"

section \<open>Overlays\<close>

definition ConfirmOverlay_View :: "looks \<Rightarrow> int \<Rightarrow> string \<Rightarrow> string" where
  "ConfirmOverlay_View G width message =
     lg_render G overlayStyle (Some (min (width - 4) 50))
       (lg_render G overlayTitleStyle None ''Confirm'' @ newline @ newline @ message @ newline @ newline @
        lg_render G statusKeyStyle None ''y'' @ '' yes  '' @ lg_render G statusKeyStyle None ''n'' @ '' no'')"

definition detail_line :: "looks \<Rightarrow> string \<Rightarrow> string \<Rightarrow> string" where
  "detail_line G label txt = ''  '' @ lg_render G statusKeyStyle None label @ ''  '' @ txt @ newline"

definition DetailOverlay_View :: "looks \<Rightarrow> int \<Rightarrow> peer_info \<Rightarrow> string" where
  "DetailOverlay_View G width p =
     (let status = (if pi_Online p then ''online'' else ''offline'')
      in lg_render G overlayStyle (Some (min (width - 4) 65))
           (lg_render G overlayTitleStyle None ''Peer Details'' @ newline @ newline @ detail_line G ''NodeID:'' (pi_NodeID p) @
            detail_line G ''Status:'' status @ detail_line G ''Trust: '' (pi_TrustState p) @ detail_line G ''Seen:  '' (pi_LastSeen p) @
            (if pi_Endpoints p \<noteq> []
             then ''  '' @ lg_render G statusKeyStyle None ''Endpoints:'' @ newline @ concat (map (\<lambda>ep. ''    '' @ ep @ newline) (pi_Endpoints p))
             else []) @
            newline @ lg_render G dimItemStyle None ''Press Esc to close''))"

definition help_bindings :: "(string \<times> string) list" where
  "help_bindings =
     [(''j/k'', ''move cursor up/down''), (''g/G'', ''first/last item''), (''Ctrl+d/u'', ''half page down/up''), (''/'', ''search/filter files''),
      (''Esc'', ''cancel search / close overlay''), (''Tab'', ''switch panel focus''), (''Space/x'', ''toggle file selection''),
      (''D'', ''download selected files''), (''i'', ''generate invite link''), (''J'', ''join via invite token''), (''d'', ''disconnect peer''),
      (''Enter'', ''peer details / open''), (''p'', ''show transfer progress''), (''?'', ''toggle this help''), (''q'', ''quit'')]"

definition HelpOverlay_View :: "looks \<Rightarrow> int \<Rightarrow> string" where
  "HelpOverlay_View G width =
     lg_render G overlayStyle (Some (min (width - 4) 50))
       (lg_render G overlayTitleStyle None ''Keybindings'' @ newline @ newline @
        concat (map (\<lambda>(k, desc). ''  '' @ lg_render G statusKeyStyle None k @ ''  '' @ desc @ newline) help_bindings) @
        newline @ lg_render G dimItemStyle None ''Press ? or Esc to close'')"

definition InviteOverlay_View :: "looks \<Rightarrow> int \<Rightarrow> invite_overlay \<Rightarrow> string" where
  "InviteOverlay_View G width v =
     lg_render G overlayStyle (Some (min (width - 4) 70))
       (lg_render G overlayTitleStyle None ''Invite'' @ newline @ newline @
        (if io_loading v then lg_render G dimItemStyle None ''Generating...''
         else case io_err v of
                Some e \<Rightarrow> lg_render G errorStyle None (''Error: '' @ lg_error G e)
              | None \<Rightarrow> ''Share this token with a peer:'' @ newline @ newline @ io_token v) @
        newline @ newline @ lg_render G dimItemStyle None ''Press Esc to close'')"

definition JoinOverlay_View :: "looks \<Rightarrow> int \<Rightarrow> join_overlay \<Rightarrow> string outcome" where
  "JoinOverlay_View G width j =
     obind (if jo_success j \<noteq> []
            then obind (go_slice (jo_success j) 0 (min 16 (length (jo_success j)))) (\<lambda>n.
                 Ok (lg_render G overlayTitleStyle None ''Join'' @ newline @ newline @ ''Connected to peer '' @ n @ newline @ newline @
                     lg_render G dimItemStyle None ''Press Esc to close''))
            else Ok (lg_render G overlayTitleStyle None ''Join'' @ newline @ newline @ ''Paste invite token:'' @ newline @ newline @ lg_input G (jo_input j) @
                     (if jo_loading j then newline @ newline @ lg_render G dimItemStyle None ''Connecting...'' else []) @
                     (case jo_err j of Some e \<Rightarrow> newline @ newline @ lg_render G errorStyle None (''Error: '' @ lg_error G e) | None \<Rightarrow> []) @
                     newline @ newline @ lg_render G dimItemStyle None ''Enter=join  Esc=cancel''))
       (\<lambda>content. Ok (lg_render G overlayStyle (Some (min (width - 4) 60)) content))"

definition overlay_View :: "looks \<Rightarrow> int \<Rightarrow> overlay \<Rightarrow> string outcome" where
  "overlay_View G width v =
     (case v of
        HelpOverlay \<Rightarrow> Ok (HelpOverlay_View G width)
      | InviteOverlay i \<Rightarrow> Ok (InviteOverlay_View G width i)
      | JoinOverlay j \<Rightarrow> JoinOverlay_View G width j
      | DetailOverlay p \<Rightarrow> Ok (DetailOverlay_View G width p)
      | ConfirmOverlay message \<Rightarrow> Ok (ConfirmOverlay_View G width message))"

section \<open>The screen\<close>

definition View :: "looks \<Rightarrow> tui_model \<Rightarrow> string outcome" where
  "View G m =
     (if md_quitting m then Ok []
      else if md_width m = 0 \<or> md_height m = 0 then Ok ''Initializing...''
      else case md_err m of
        Some e \<Rightarrow> Ok (lg_render G errorStyle None (''Error: '' @ lg_error G e) @ newline @ newline @ lg_render G dimItemStyle None ''Press q to quit'')
      | None \<Rightarrow>
          obind (CatalogView G (md_catalog m) (md_focus m = panelCatalog)) (\<lambda>catalogView.
          obind (PeerView G (md_peers m) (md_focus m = panelPeers)) (\<lambda>peerView.
          let statusView = StatusView G (md_status m); panels = lg_joinHorizontal G [catalogView, peerView];
              progressView = ProgressView G (md_progress m);
              screen = lg_joinVertical G ([panels] @ (if progressView \<noteq> [] then [progressView] else []) @ [statusView])
          in case md_overlay m of
               None \<Rightarrow> Ok screen
             | Some v \<Rightarrow> obind (overlay_View G (md_width m) v) (\<lambda>overlayView. Ok (lg_place G (md_width m) (md_height m) overlayView)))))"

section \<open>Properties\<close>

text \<open>A panel is as high as it should be: when no line of it breaks, it has \<open>height\<close> lines, or those it shows when these are more.\<close>

lemma count_join_lines:
  "\<forall>l \<in> set ls. CHR 0x0A \<notin> set l \<Longrightarrow> count_list (join_lines ls) (CHR 0x0A) = length ls - 1"
  by (induction ls rule: join_lines.induct) (auto simp: count_notin)

lemma count_replicate_self: "count_list (replicate n c) c = n"
  by (induction n) auto

lemma panel_content_height:
  assumes "\<forall>l \<in> set lines. CHR 0x0A \<notin> set l" and "length lines \<le> nat h"
  shows "count_list (panel_content lines None h) (CHR 0x0A) = max 1 (nat h) - 1"
  using assms by (cases lines) (auto simp: panel_content_def count_join_lines count_replicate_self Let_def)

text \<open>Sizes just below a unit are rounded up to 1024 of the smaller one.\<close>

lemma formatSize_below_unit: "formatSize 1048575 = ''1024.0 KB''" "formatSize 1073741823 = ''1024.0 MB''"
  by (simp_all add: formatSize_def one_decimal_def float64_def div_even_def bit_length.simps dec_nat.simps)

text \<open>Truncation counts bytes: a name of two-byte characters is cut inside one, and what is left is not UTF-8.\<close>

lemma truncation_splits_runes:
  "\<exists>f G. to_utf8 (fl_Name f) = fl_Name f \<and> to_utf8 (formatFileEntry G f 24) \<noteq> formatFileEntry G f 24"
proof -
  let ?e = "[CHR 0xC3, CHR 0xA9]"
  let ?f = "\<lparr>fl_FileID = [], fl_Name = ?e @ ?e, fl_Size = 5, fl_ModTime = [], fl_OwnerNodeID = [], fl_IsLocal = True\<rparr>"
  let ?G = "\<lparr>lg_render = (\<lambda>_ _ s. s), lg_width = (\<lambda>s. 16), lg_joinHorizontal = concat, lg_joinVertical = concat, lg_place = (\<lambda>_ _ s. s),
    lg_error = (\<lambda>_. []), lg_input = (\<lambda>s. s)\<rparr>"
  obtain rest where r: "formatFileEntry ?G ?f 24 = CHR 0xC3 # CHR ''~'' # rest"
    by (simp add: formatFileEntry_def pad_right_def Let_def)
  let ?s = "CHR 0xC3 # CHR ''~'' # rest"
  have bytes: "string_bytes ?s = 0xC3 # 0x7E # string_bytes rest" "string_bytes (fl_Name ?f) = [0xC3, 0xA9, 0xC3, 0xA9]"
    by (simp_all add: string_bytes_def char_byte_def)
  have "utf8_coerce (string_bytes ?s) = [0xEF, 0xBF, 0xBD] @ utf8_coerce (tl (string_bytes ?s))"
    unfolding bytes by (subst utf8_coerce.simps) (simp add: rune_need_def utf8_second_def utf8_cont_def)
  then have "utf8_coerce (string_bytes ?s) \<noteq> string_bytes ?s" unfolding bytes by simp
  then have "to_utf8 ?s \<noteq> ?s" by (metis to_utf8_def string_bytes_bytes_string)
  moreover have "utf8_coerce [0xC3, 0xA9, 0xC3, 0xA9] = [0xC3, 0xA9, 0xC3, 0xA9]"
    by (simp add: utf8_coerce.simps rune_need_def utf8_second_def utf8_cont_def)
  then have "to_utf8 (fl_Name ?f) = fl_Name ?f" by (metis bytes(2) to_utf8_def bytes_string_string_bytes)
  ultimately show ?thesis using r by metis
qed

lemma CatalogView_ok: "catalog_ok m \<Longrightarrow> CatalogView G m focused \<noteq> Panic"
  using index_all_ok [of "[cm_offset m..min (cm_offset m + cm_height m) (int (length (catalog_Visible m))) - 1]" "catalog_Visible m"] offset_ok(1) [of m]
  by (auto simp: CatalogView_def outcome_simps Let_def)

lemma PeerView_ok: "peers_ok m \<Longrightarrow> PeerView G m focused \<noteq> Panic"
  using index_all_ok [of "[pm_offset m..min (pm_offset m + pm_height m) (int (length (pm_peers m))) - 1]" "pm_peers m"] offset_ok(2) [of m]
  by (auto simp: PeerView_def outcome_simps Let_def)

lemma overlay_View_ok: "overlay_View G w v \<noteq> Panic"
  by (simp add: overlay_View_def JoinOverlay_View_def go_slice_def split: overlay.split)


end
