(* ===== verification/Control.thy ===== *)
theory Control
  imports Daemon Tui_View
begin

text \<open>
  The terminal interface against the daemon. \<open>request_server\<close> is what the interface relies on, the consumer-side
  interface \<open>DaemonClient\<close> of \<open>internal/tui/client.go\<close> with the calls of \<open>internal/ipc/client.go\<close> below it: each request is answered
  under its own id, and the daemon stays in one of its states. \<open>running_daemon\<close> is a daemon over a database and a network that keep their
  contracts, and it provides the interface.
\<close>

definition request_of :: "ipc_client \<Rightarrow> string \<Rightarrow> string outcome \<Rightarrow> string outcome \<Rightarrow> request" where
  "request_of c meth jp dp = \<lparr>rq_ID = ic_nextID c + 1, rq_Method = meth, rq_join = jp, rq_download = dp\<rparr>"

locale request_server =
  fixes handle :: "request \<Rightarrow> 'd \<Rightarrow> response outcome \<times> 'd" and good :: "'d \<Rightarrow> bool"
  assumes answers: "good d \<Longrightarrow> rq_join req \<noteq> Panic \<Longrightarrow> rq_download req \<noteq> Panic \<Longrightarrow>
      \<exists>resp. fst (handle req d) = Ok resp \<and> rs_ID resp = rq_ID req"
    and keeps: "good d \<Longrightarrow> good (snd (handle req d))"
begin

text \<open>The client reads the response to the request it has just written: the ids agree.\<close>

lemma call_matched:
  assumes "good d" and "jp \<noteq> Panic" and "dp \<noteq> Panic"
  shows "\<exists>resp c'. ipc_call (Ok ()) (fst (handle (request_of c meth jp dp) d)) meth jp dp c = (Ok resp, c')
    \<and> rs_ID resp = ic_nextID c' \<and> ic_sent c' = ic_sent c @ [request_of c meth jp dp]"
  using answers [OF assms(1), of "request_of c meth jp dp"] assms(2,3) by (auto simp: ipc_call_def request_of_def Let_def)

lemma decoded_call_returns:
  assumes "good d" and "jp \<noteq> Panic" and "dp \<noteq> Panic" and "\<And>x. dec x \<noteq> Panic"
  shows "fst (callAndDecode dec (Ok ()) (fst (handle (request_of c meth jp dp) d)) meth jp dp c) \<noteq> Panic"
  using call_matched [OF assms(1-3), of c meth] assms(4)
  by (auto simp: callAndDecode_def outcome_simps Let_def split: option.splits)

end

locale running_daemon = bolt_laws B for B :: "'b bolt" +
  fixes E :: daemon_env
  assumes network: "tls_laws (en_N E)" "quiet (en_N E) (en_D E)" and random: "en_nonce E \<noteq> Panic"

sublocale running_daemon \<subseteq> served: request_server "Handle B E" "daemon_reach B"
proof unfold_locales
  show "\<exists>resp. fst (Handle B E req d) = Ok resp \<and> rs_ID resp = rq_ID req"
    if "daemon_reach B d" "rq_join req \<noteq> Panic" "rq_download req \<noteq> Panic" for d req
    using Handle_answers [OF bolt_laws_axioms that(1) network random that(2,3)] by blast
  show "daemon_reach B (snd (Handle B E req d))" if "daemon_reach B d" for d req
    using that by (rule stepped) (rule request)
qed

interpretation ex_running: running_daemon ref_bolt ex_env
  by unfold_locales (use ex_network_laws in \<open>simp_all add: ex_env_def\<close>)

section \<open>What the screen shows\<close>

lemma fetchCatalog_answer:
  assumes "json_laws J" and "fst (Handle B E (request_of c ''catalog'' no_params no_params) d) = Ok (okResponse i (CatalogResponse fs))"
  shows "fst (fetchCatalog J (Ok ()) (fst (Handle B E (request_of c ''catalog'' no_params no_params) d)) c) = Ok (CatalogResult (Some fs) None)"
  using assms by (simp add: fetchCatalog_def Client_Catalog_def callAndDecode_def ipc_call_def result_msg_def okResponse_def json_laws_def Let_def)


definition ex_json :: ipc_json where
  "ex_json = \<lparr>dc_status = (\<lambda>d. case d of Some (StatusResponse r) \<Rightarrow> Ok r | _ \<Rightarrow> Err ErrIO), dc_peers = (\<lambda>d. case d of Some (PeersResponse r) \<Rightarrow> Ok r | _ \<Rightarrow> Err ErrIO),
     dc_invite = (\<lambda>d. case d of Some (InviteResponse r) \<Rightarrow> Ok r | _ \<Rightarrow> Err ErrIO), dc_join = (\<lambda>d. case d of Some (JoinResponse r) \<Rightarrow> Ok r | _ \<Rightarrow> Err ErrIO),
     dc_catalog = (\<lambda>d. case d of Some (CatalogResponse r) \<Rightarrow> Ok r | _ \<Rightarrow> Err ErrIO), dc_download = (\<lambda>_. Err ErrIO)\<rparr>"

lemma ex_json_laws: "json_laws ex_json"
  by (simp add: json_laws_def ex_json_def)


end
