(* ===== verification/Cli.thy ===== *)
theory Cli
  imports Daemon "HOL-Library.Multiset"
begin

text \<open>
  The commands \<open>kin invite\<close>, \<open>kin join\<close> and \<open>kin status\<close> of \<open>cmd/kin/main.go\<close>, through a running daemon and in direct mode, the
  dispatch of \<open>main\<close>, and the paths and the log rotation of \<open>internal/config\<close>. \<open>fatalf\<close> ends the process: it is the
  error of the command. A daemon that can be reached is given by the results of the exchange on its socket.
\<close>

section \<open>Paths and logs\<close>

definition DefaultConfigDir :: "bool \<Rightarrow> string outcome \<Rightarrow> string outcome \<Rightarrow> string outcome" where
  "DefaultConfigDir windows userConfigDir userHomeDir =
     (if windows then obind userConfigDir (\<lambda>base. Ok (filepath_Join base ''kin''))
      else obind userHomeDir (\<lambda>home. Ok (filepath_Join (filepath_Join home ''.config'') ''kin'')))"

definition DefaultListenAddr :: string where
  "DefaultListenAddr = ''0.0.0.0:7777''"

definition SocketPath :: "string \<Rightarrow> string" where
  "SocketPath cfgDir = filepath_Join cfgDir ''kin.sock''"

definition DefaultSharedDir :: "string outcome \<Rightarrow> string outcome" where
  "DefaultSharedDir userHomeDir = obind userHomeDir (\<lambda>home. Ok (filepath_Join home ''Kin''))"

definition LogDir :: "string \<Rightarrow> string" where
  "LogDir cfgDir = filepath_Join cfgDir ''logs''"

definition DebugLogPath :: "string \<Rightarrow> string \<Rightarrow> string" where
  "DebugLogPath ts cfgDir = filepath_Join (LogDir cfgDir) (''kin-debug-'' @ ts @ ''.log'')"

text \<open>\<open>pruneOldLogs\<close>: the files it removes, in order, of those \<open>filepath.Glob\<close> has found. Strings are ordered by their bytes.\<close>

definition maxDebugLogs :: nat where
  "maxDebugLogs = 5"

definition pruneOldLogs :: "string list outcome \<Rightarrow> nat \<Rightarrow> string list" where
  "pruneOldLogs found keep =
     (case found of
        Ok entries \<Rightarrow> if length entries \<le> keep then [] else take (length entries - keep) (sort_key string_bytes entries)
      | _ \<Rightarrow> [])"

text \<open>\<open>SetupDebugLog\<close>: the files it removes and the log it opens; \<open>opened\<close> is what \<open>os.OpenFile\<close> returns for that path.\<close>

definition SetupDebugLog :: "string \<Rightarrow> string list outcome \<Rightarrow> (string \<Rightarrow> unit outcome) \<Rightarrow> string \<Rightarrow> fs \<Rightarrow> string outcome \<times> string list \<times> fs" where
  "SetupDebugLog ts found opened cfgDir fs =
     (let (m, fs1) = os_MkdirAll (LogDir cfgDir) fs
      in case owrap ''create log dir'' m of
           Ok _ \<Rightarrow>
             (let removed = pruneOldLogs found (maxDebugLogs - 1); logPath = DebugLogPath ts cfgDir
              in (obind (owrap ''create log file'' (opened logPath)) (\<lambda>_. Ok logPath), removed, fs1))
         | r \<Rightarrow> (fail_of r, [], fs1))"

definition resolveConfigDir :: "string outcome \<Rightarrow> string \<Rightarrow> string outcome" where
  "resolveConfigDir dflt override = (if override \<noteq> [] then Ok override else dflt)"

definition resolveSharedDir :: "string outcome \<Rightarrow> string \<Rightarrow> string outcome" where
  "resolveSharedDir dflt override = (if override \<noteq> [] then Ok override else dflt)"

section \<open>Exchanging catalogs\<close>

definition sendCatalogOffer :: "'b bolt \<Rightarrow> id32 \<Rightarrow> 'b store \<Rightarrow> chan \<Rightarrow> unit outcome \<times> chan" where
  "sendCatalogOffer B peerID cat c =
     (case owrap ''list for peer'' (ListForPeer B cat peerID) of
        Ok entries \<Rightarrow> chan_send c (CatalogOffer (EntriesToProto entries))
      | r \<Rightarrow> (fail_of r, c))"

definition handleReceivedOffer :: "'b bolt \<Rightarrow> (nat \<Rightarrow> gotime) \<Rightarrow> id32 \<Rightarrow> catalog_file list \<Rightarrow> 'b store \<Rightarrow> chan \<Rightarrow> 'b store \<times> chan" where
  "handleReceivedOffer B clk peerID files cat c =
     (let entries = Peer_Handler.accepted files; (r, cat1) = PutPeerEntries B clk cat peerID entries
      in (cat1, snd (chan_send c (CatalogAck (of_nat (length entries))))))"

text \<open>The loop of \<open>receivePeerCatalog\<close> on the messages to come; \<open>ended i\<close> says whether the five seconds are over before the message \<open>i\<close>.\<close>

fun receive_msgs ::
  "'b bolt \<Rightarrow> (nat \<Rightarrow> bool) \<Rightarrow> (nat \<Rightarrow> gotime) \<Rightarrow> id32 \<Rightarrow> nat \<Rightarrow> envelope list \<Rightarrow> 'b store \<Rightarrow> chan \<Rightarrow> 'b store \<times> chan" where
  "receive_msgs B ended clk peerID i [] cat c = (cat, c\<lparr>ch_in := []\<rparr>)"
| "receive_msgs B ended clk peerID i (env # envs) cat c =
     (if ended i then (cat, c\<lparr>ch_in := env # envs\<rparr>)
      else case env of
             CatalogOffer files \<Rightarrow> handleReceivedOffer B clk peerID files cat (c\<lparr>ch_in := envs\<rparr>)
           | CatalogAck _ \<Rightarrow> receive_msgs B ended clk peerID (Suc i) envs cat c
           | _ \<Rightarrow> (cat, c\<lparr>ch_in := envs\<rparr>))"

definition receivePeerCatalog :: "'b bolt \<Rightarrow> (nat \<Rightarrow> bool) \<Rightarrow> (nat \<Rightarrow> gotime) \<Rightarrow> id32 \<Rightarrow> 'b store \<Rightarrow> chan \<Rightarrow> 'b store \<times> chan" where
  "receivePeerCatalog B ended clk peerID cat c = receive_msgs B ended clk peerID 0 (ch_in c) cat c"

definition exchangeCatalog :: "'b bolt \<Rightarrow> (nat \<Rightarrow> bool) \<Rightarrow> (nat \<Rightarrow> gotime) \<Rightarrow> id32 \<Rightarrow> 'b store \<Rightarrow> chan \<Rightarrow> 'b store \<times> chan" where
  "exchangeCatalog B ended clk peerID cat c =
     (let (r, c1) = sendCatalogOffer B peerID cat c
      in if is_ok r then receivePeerCatalog B ended clk peerID cat c1 else (cat, c1))"

section \<open>Commands\<close>

record daemon_link =
  dk_written :: "unit outcome"
  dk_answer :: "response outcome"

abbreviation new_client :: ipc_client where
  "new_client \<equiv> \<lparr>ic_nextID = 0, ic_sent = []\<rparr>"

definition mustLoadOrGenerate :: "crypto \<Rightarrow> id32 outcome \<Rightarrow> string \<Rightarrow> fs \<Rightarrow> identity outcome \<times> fs" where
  "mustLoadOrGenerate C rnd cfgDir fs = (let (r, fs1) = LoadOrGenerate C rnd cfgDir fs in (owrap ''identity'' r, fs1))"

definition mustOpenStore :: "'b bolt \<Rightarrow> ('b option \<times> 'b option) outcome \<Rightarrow> 'b peerstore outcome" where
  "mustOpenStore B db = owrap ''peerstore'' (OpenPeers B db)"

definition mustOpenCatalog :: "'b bolt \<Rightarrow> ('b option \<times> 'b option) outcome \<Rightarrow> id32 \<Rightarrow> 'b store outcome" where
  "mustOpenCatalog B db selfID = owrap ''catalog'' (Open B db selfID)"

definition direct_endpoints :: "string \<Rightarrow> string \<Rightarrow> string list" where
  "direct_endpoints listenAddr relayAddr =
     (case SplitHostPort listenAddr of
        Some (host, _) \<Rightarrow> if host \<noteq> ''0.0.0.0'' \<and> host \<noteq> [] \<and> host \<noteq> ''::'' then [listenAddr] else []
      | None \<Rightarrow> []) @
     (if relayAddr \<noteq> [] then [relay_scheme @ relayAddr] else [])"

definition cmdInvite :: "ipc_json \<Rightarrow> daemon_link option \<Rightarrow> daemon_env \<Rightarrow> id32 outcome \<Rightarrow> string \<Rightarrow> string \<Rightarrow> string \<Rightarrow> fs \<Rightarrow> string outcome \<times> fs" where
  "cmdInvite J link E rnd cfgDir listenAddr relayAddr fs =
     (case link of
        Some k \<Rightarrow> (owrap ''invite via daemon'' (fst (Client_Invite J (dk_written k) (dk_answer k) new_client)), fs)
      | None \<Rightarrow>
          (let (r, fs1) = mustLoadOrGenerate (en_C E) rnd cfgDir fs
           in (obind r (\<lambda>ident.
               obind (owrap ''create invite''
                 (Create (id_PrivKey ident) (direct_endpoints listenAddr relayAddr) DefaultTTL (en_nonce E) (en_now E))) (\<lambda>tok.
               owrap ''encode invite'' (Encode (en_C E) tok (id_PrivKey ident)))), fs1)))"

text \<open>
  \<open>cmdJoin\<close> in direct mode, once the identity is loaded and the peer store is open; \<open>chan_of\<close> is the channel of messages of a
  connection. The result has the peer store and, when the exchange took place, the catalog and the channel after it.
\<close>

definition direct_join ::
  "'b bolt \<Rightarrow> daemon_env \<Rightarrow> ('b option \<times> 'b option) outcome \<Rightarrow> (conn \<Rightarrow> chan) \<Rightarrow> (nat \<Rightarrow> bool) \<Rightarrow> (nat \<Rightarrow> gotime) \<Rightarrow> string \<Rightarrow> identity \<Rightarrow> string \<Rightarrow>
   'b peerstore \<Rightarrow> id32 outcome \<times> 'b peerstore \<times> ('b store \<times> chan) option" where
  "direct_join B E catalogDb chan_of ended clk listenAddr ident raw store =
     (case owrap ''decode invite'' (Decode raw) of
        Ok tok \<Rightarrow>
          (let (v, st) = Validate (en_C E) (HasNonce B) (SaveNonce B) (en_now E) tok raw store
           in case owrap ''validate invite'' v of
                Ok _ \<Rightarrow>
                  if length (t_PublicKey tok) \<noteq> 32 then (Err (Message (''invalid invite: unexpected public key length '' @ dec_nat (length (t_PublicKey tok)))), st, None)
                  else if t_Endpoints tok = [] then (Err (Message ''invite has no endpoints''), st, None)
                  else (case owrap ''listen'' (fst (Listen (en_X E) (en_N E) (en_now E) (en_now E) listenAddr ident)) of
                          Ok ln \<Rightarrow>
                            (case owrap ''connect'' (fst (Dial (en_X E) (cr_sha (en_C E)) (en_N E) (en_D E) ident
                                    (cr_sha (en_C E) (t_PublicKey tok)) (t_Endpoints tok) ln)) of
                               Ok conn \<Rightarrow>
                                 (let peerID = Conn_PeerID conn;
                                      (r, st1) = PutPeer B (en_seen E) st \<lparr>p_NodeID = peerID, p_PublicKey = t_PublicKey tok,
                                        p_Endpoints = t_Endpoints tok, p_TrustState = TrustTOFU, p_LastSeen = zero_time\<rparr>
                                  in case mustOpenCatalog B catalogDb (id_NodeID ident) of
                                       Ok cat \<Rightarrow> (Ok peerID, st1, Some (exchangeCatalog B ended clk peerID cat (chan_of conn)))
                                     | r \<Rightarrow> (fail_of r, st1, None))
                             | r \<Rightarrow> (fail_of r, st, None))
                        | r \<Rightarrow> (fail_of r, st, None))
              | r \<Rightarrow> (fail_of r, st, None))
      | r \<Rightarrow> (fail_of r, store, None))"

text \<open>Through a daemon \<open>cmdJoin\<close> prints the first 16 characters of the node id it is sent; in direct mode, of the node id it has reached.\<close>

definition cmdJoin ::
  "'b bolt \<Rightarrow> ipc_json \<Rightarrow> daemon_link option \<Rightarrow> daemon_env \<Rightarrow> id32 outcome \<Rightarrow> ('b option \<times> 'b option) outcome \<Rightarrow> ('b option \<times> 'b option) outcome \<Rightarrow>
   (conn \<Rightarrow> chan) \<Rightarrow> (nat \<Rightarrow> bool) \<Rightarrow> (nat \<Rightarrow> gotime) \<Rightarrow> string \<Rightarrow> string \<Rightarrow> string \<Rightarrow> fs \<Rightarrow> string outcome" where
  "cmdJoin B J link E rnd peersDb catalogDb chan_of ended clk cfgDir rawToken listenAddr fs =
     (case link of
        Some k \<Rightarrow>
          obind (owrap ''join via daemon'' (fst (Client_Join J (dk_written k) (dk_answer k) rawToken new_client))) (\<lambda>peerNodeID.
          go_slice peerNodeID 0 16)
      | None \<Rightarrow>
          obind (fst (mustLoadOrGenerate (en_C E) rnd cfgDir fs)) (\<lambda>ident.
          obind (mustOpenStore B peersDb) (\<lambda>store.
          obind (fst (direct_join B E catalogDb chan_of ended clk listenAddr ident rawToken store)) (\<lambda>peerID.
          Ok (hex_encode (take 8 (list_of peerID)))))))"

datatype status_line =
    NodeLine string | ListenLine string | SharedLine string | RelayLine string bool | PeersLine nat | PeerLine string string string | PeersUnavailable

text \<open>\<open>cmdStatus\<close>: the lines it prints. With a daemon there are two calls, and a failure of the second only cuts the output short.\<close>

definition status_via_daemon :: "ipc_json \<Rightarrow> daemon_link \<Rightarrow> daemon_link \<Rightarrow> status_line list outcome" where
  "status_via_daemon J k1 k2 =
     (let (r, c1) = Client_Status J (dk_written k1) (dk_answer k1) new_client
      in obind (owrap ''status via daemon'' r) (\<lambda>resp.
         let out = [NodeLine (sr_NodeID resp), ListenLine (sr_ListenAddr resp), SharedLine (sr_SharedDir resp)] @
               (if sr_RelayAddr resp \<noteq> [] then [RelayLine (sr_RelayAddr resp) (sr_RelayOnline resp)] else []) @ [PeersLine (sr_PeerCount resp)]
         in case fst (Client_Peers J (dk_written k2) (dk_answer k2) c1) of
              Ok peers \<Rightarrow> Ok (out @ map (\<lambda>p. PeerLine (pi_NodeIDShort p) (pi_TrustState p) (pi_LastSeen p)) peers)
            | Err _ \<Rightarrow> Ok out
            | Panic \<Rightarrow> Panic))"

definition direct_status :: "'b bolt \<Rightarrow> daemon_env \<Rightarrow> id32 outcome \<Rightarrow> 'b peerstore outcome \<Rightarrow> string \<Rightarrow> fs \<Rightarrow> status_line list outcome" where
  "direct_status B E rnd opened cfgDir fs =
     obind (fst (mustLoadOrGenerate (en_C E) rnd cfgDir fs)) (\<lambda>ident.
     case opened of
       Err _ \<Rightarrow> Ok [NodeLine (NodeIDHex ident), PeersUnavailable]
     | Panic \<Rightarrow> Panic
     | Ok store \<Rightarrow>
         obind (owrap ''list peers'' (ListPeers B store)) (\<lambda>peers.
         Ok ([NodeLine (NodeIDHex ident), PeersLine (length peers)] @
             map (\<lambda>p. PeerLine (hex_encode (take 8 (list_of (p_NodeID p)))) (p_TrustState p) (en_format E (p_LastSeen p))) peers)))"

definition cmdStatus ::
  "'b bolt \<Rightarrow> ipc_json \<Rightarrow> (daemon_link \<times> daemon_link) option \<Rightarrow> daemon_env \<Rightarrow> id32 outcome \<Rightarrow> ('b \<times> 'b) outcome \<Rightarrow> string \<Rightarrow> fs \<Rightarrow> status_line list outcome" where
  "cmdStatus B J links E rnd opened cfgDir fs =
     (case links of
        Some (k1, k2) \<Rightarrow> status_via_daemon J k1 k2
      | None \<Rightarrow> direct_status B E rnd (OpenReadOnly opened) cfgDir fs)"

text \<open>\<open>cmdRun\<close>: \<open>run\<close> is how the daemon's \<open>Run\<close> ends for a shared folder.\<close>

definition cmdRun :: "string outcome \<Rightarrow> (string \<Rightarrow> unit outcome) \<Rightarrow> string \<Rightarrow> unit outcome" where
  "cmdRun dflt run sharedDirOverride = obind (owrap ''shared dir'' (resolveSharedDir dflt sharedDirOverride)) run"

text \<open>
  The start of the terminal interface, \<open>internal/tui/tui.go\<close>: \<open>prog\<close> is how the program ends, \<open>down\<close> how the embedded daemon does once
  it is told to stop, \<open>ready\<close> how its start-up ends for a shared folder and a listen address.
\<close>

definition runTUI :: "unit outcome \<Rightarrow> daemon_link \<Rightarrow> unit outcome \<Rightarrow> unit outcome" where
  "runTUI dialed k prog =
     obind (owrap ''event connection failed'' dialed) (\<lambda>_.
     obind (owrap ''subscribe to events'' (fst (Client_Subscribe (dk_written k) (dk_answer k) new_client))) (\<lambda>_.
     owrap ''tui'' prog))"

definition runEmbedded ::
  "string outcome \<Rightarrow> (string \<Rightarrow> string \<Rightarrow> unit outcome) \<Rightarrow> unit outcome \<Rightarrow> unit outcome \<Rightarrow> daemon_link \<Rightarrow> unit outcome \<Rightarrow> unit outcome \<Rightarrow> string \<Rightarrow> string \<Rightarrow> unit outcome" where
  "runEmbedded home ready rpc dialed k prog down sharedDir listenAddr =
     obind (owrap ''shared dir'' (if sharedDir = [] then DefaultSharedDir home else Ok sharedDir)) (\<lambda>sharedDir.
     let listenAddr = (if listenAddr = [] then DefaultListenAddr else listenAddr)
     in obind (owrap ''daemon'' (ready sharedDir listenAddr)) (\<lambda>_.
        obind (owrap ''connect to embedded daemon'' rpc) (\<lambda>_.
        obind (runTUI dialed k prog) (\<lambda>_.
        owrap ''daemon'' down))))"

definition tui_Run ::
  "unit outcome option \<Rightarrow> bool \<Rightarrow> string outcome \<Rightarrow> (string \<Rightarrow> string \<Rightarrow> unit outcome) \<Rightarrow> unit outcome \<Rightarrow> unit outcome \<Rightarrow> daemon_link \<Rightarrow> unit outcome \<Rightarrow> unit outcome \<Rightarrow>
   string \<Rightarrow> string \<Rightarrow> unit outcome" where
  "tui_Run debugLog running home ready rpc dialed k prog down sharedDir listenAddr =
     obind (case debugLog of None \<Rightarrow> Ok () | Some r \<Rightarrow> owrap ''debug log'' r) (\<lambda>_.
     if running then runTUI dialed k prog else runEmbedded home ready rpc dialed k prog down sharedDir listenAddr)"

section \<open>Flags and dispatch\<close>

text \<open>
  The flags of \<open>main\<close>, and \<open>flag.Parse\<close> on them: flags come before the command, with one or two dashes; a string flag takes its value after
  an equals sign or from the next argument, a boolean one only after an equals sign; two dashes alone end the flags. An unknown or
  malformed flag ends the process.
\<close>

record kin_flags =
  kf_configDir :: string
  kf_sharedDir :: string
  kf_listen :: string
  kf_relay :: string
  kf_debug :: bool

definition default_flags :: kin_flags where
  "default_flags = \<lparr>kf_configDir = [], kf_sharedDir = [], kf_listen = DefaultListenAddr, kf_relay = [], kf_debug = False\<rparr>"

definition ParseBool :: "string \<Rightarrow> bool option" where
  "ParseBool s =
     (if s \<in> set [''1'', ''t'', ''T'', ''TRUE'', ''true'', ''True''] then Some True
      else if s \<in> set [''0'', ''f'', ''F'', ''FALSE'', ''false'', ''False''] then Some False
      else None)"

definition set_flag :: "string \<Rightarrow> string \<Rightarrow> kin_flags \<Rightarrow> kin_flags option" where
  "set_flag name v fl =
     (if name = ''config-dir'' then Some (fl\<lparr>kf_configDir := v\<rparr>)
      else if name = ''shared-dir'' then Some (fl\<lparr>kf_sharedDir := v\<rparr>)
      else if name = ''listen'' then Some (fl\<lparr>kf_listen := v\<rparr>)
      else if name = ''relay'' then Some (fl\<lparr>kf_relay := v\<rparr>)
      else None)"

text \<open>The text of an argument after its dashes, if it is a flag.\<close>

definition flag_text :: "string \<Rightarrow> string option" where
  "flag_text s =
     (case s of
        CHR ''-'' # c # cs \<Rightarrow> Some (if c = CHR ''-'' then cs else c # cs)
      | _ \<Rightarrow> None)"

text \<open>A flag is cut at its first equals sign, which is not looked for at its first character.\<close>

definition flag_cut :: "string \<Rightarrow> string \<times> string option" where
  "flag_cut txt =
     (case dropWhile (\<lambda>c. c \<noteq> CHR ''='') (tl txt) of
        [] \<Rightarrow> (txt, None)
      | _ # v \<Rightarrow> (hd txt # takeWhile (\<lambda>c. c \<noteq> CHR ''='') (tl txt), Some v))"

fun flag_Parse :: "kin_flags \<Rightarrow> string list \<Rightarrow> (kin_flags \<times> string list) outcome" where
  "flag_Parse fl [] = Ok (fl, [])"
| "flag_Parse fl (s # args) =
     (case flag_text s of
        None \<Rightarrow> Ok (fl, s # args)
      | Some txt \<Rightarrow>
          if s = ''--'' then Ok (fl, args)
          else if txt = [] \<or> hd txt = CHR ''-'' \<or> hd txt = CHR ''='' then Err (Message (''bad flag syntax: '' @ s))
          else let (name, v) = flag_cut txt
               in if name = ''debug'' then
                    (case v of
                       None \<Rightarrow> flag_Parse (fl\<lparr>kf_debug := True\<rparr>) args
                     | Some b \<Rightarrow>
                         (case ParseBool b of
                            Some d \<Rightarrow> flag_Parse (fl\<lparr>kf_debug := d\<rparr>) args
                          | None \<Rightarrow> Err (Message (''invalid boolean value for -'' @ name))))
                  else if name = ''help'' \<or> name = ''h'' then Err (Message ''flag: help requested'')
                  else if set_flag name [] fl = None then Err (Message (''flag provided but not defined: -'' @ name))
                  else (case v of
                          Some x \<Rightarrow> flag_Parse (the (set_flag name x fl)) args
                        | None \<Rightarrow>
                            (case args of
                               x # args' \<Rightarrow> flag_Parse (the (set_flag name x fl)) args'
                             | [] \<Rightarrow> Err (Message (''flag needs an argument: -'' @ name)))))"

datatype kin_command =
    CmdTUI string kin_flags
  | CmdRun string string string string
  | CmdInvite string string string
  | CmdJoin string string string
  | CmdStatus string
  | CmdUsage

text \<open>
  \<open>main\<close>: the command it runs with its arguments, or the error the process ends with. \<open>dflt\<close> is the default directory, \<open>opened\<close> how the
  opening of the debug log ends in a directory; the terminal interface opens its own.
\<close>

definition kin_main :: "string outcome \<Rightarrow> (string \<Rightarrow> unit outcome) \<Rightarrow> string list \<Rightarrow> kin_command outcome" where
  "kin_main dflt opened argv =
     obind (flag_Parse default_flags argv) (\<lambda>(fl, args).
     obind (owrap ''config dir'' (resolveConfigDir dflt (kf_configDir fl))) (\<lambda>cfgDir.
     case args of
       [] \<Rightarrow> Ok (CmdTUI cfgDir fl)
     | cmd # rest \<Rightarrow>
         obind (if kf_debug fl then owrap ''debug log'' (opened cfgDir) else Ok ()) (\<lambda>_.
         if cmd = ''run'' then Ok (CmdRun cfgDir (kf_sharedDir fl) (kf_listen fl) (kf_relay fl))
         else if cmd = ''invite'' then Ok (CmdInvite cfgDir (kf_listen fl) (kf_relay fl))
         else if cmd = ''join'' then
           (case rest of
              [] \<Rightarrow> Err (Message ''usage: kin join <kin:token>'')
            | token # _ \<Rightarrow> Ok (CmdJoin cfgDir token (kf_listen fl)))
         else if cmd = ''status'' then Ok (CmdStatus cfgDir)
         else Ok CmdUsage)))"

text \<open>Every choice of flags can be written on the command line and is read back; what follows the command is left to it.\<close>

definition show_flags :: "kin_flags \<Rightarrow> string list" where
  "show_flags fl = [''-config-dir'', kf_configDir fl, ''--shared-dir='' @ kf_sharedDir fl, ''-listen'', kf_listen fl, ''-relay='' @ kf_relay fl,
     (if kf_debug fl then ''-debug'' else ''-debug=false'')]"

lemma flag_Parse_show:
  assumes "flag_text cmd = None"
  shows "flag_Parse fl0 (show_flags fl @ cmd # rest) = Ok (fl, cmd # rest)"
  by (cases fl; cases fl0; cases "kf_debug fl")
    (simp_all add: show_flags_def flag_text_def [of "CHR ''-'' # cs" for cs] flag_cut_def set_flag_def ParseBool_def assms)

lemma kin_main_join:
  "kin_main dflt opened (show_flags fl @ [''join'', token]) =
     obind (owrap ''config dir'' (resolveConfigDir dflt (kf_configDir fl))) (\<lambda>cfgDir.
     obind (if kf_debug fl then owrap ''debug log'' (opened cfgDir) else Ok ()) (\<lambda>_. Ok (CmdJoin cfgDir token (kf_listen fl))))"
  using flag_Parse_show [of "''join''" default_flags fl "[token]"] by (simp add: kin_main_def flag_text_def)

section \<open>Properties\<close>

lemma direct_join_bad_link:
  "Decode raw = Err e \<Longrightarrow> direct_join B E catalogDb chan_of ended clk listenAddr ident raw store = (Err (Wrap ''decode invite'' e), store, None)"
  by (simp add: direct_join_def)

lemma handleJoin_bad_link:
  "Decode raw = Err e \<Longrightarrow> snd (handleJoin B E i (Ok raw) d) = d \<and> (\<exists>code e'. fst (handleJoin B E i (Ok raw) d) = Ok (errResponse i code e'))"
  by (auto simp: handleJoin_def)

text \<open>
  C24. The command line joins a peer the way the daemon does. Run on the same identity, peer store and listener, both accept the same links
  under the same conditions of the network, name the same peer, and leave the same peer store, also where they fail.
\<close>

theorem direct_join_like_daemon:
  assumes "tls_laws (en_N E)" and "quiet (en_N E) (en_D E)"
    and "fst (Listen (en_X E) (en_N E) (en_now E) (en_now E) listenAddr (dm_id d)) = Ok (dm_listener d)"
    and "Open B catalogDb (id_NodeID (dm_id d)) = Ok cat"
  shows "let direct = direct_join B E catalogDb chan_of ended clk listenAddr (dm_id d) raw (dm_store d); daemon = handleJoin B E i (Ok raw) d in
    fst (snd direct) = dm_store (snd daemon) \<and>
    (case fst direct of
       Ok peerID \<Rightarrow> fst daemon = Ok (okResponse i (JoinResponse (hexNodeID peerID)))
     | _ \<Rightarrow> \<exists>code e. fst daemon = Ok (errResponse i code e))"
proof (cases "Decode raw")
  case (Err e)
  then show ?thesis using handleJoin_bad_link [OF Err, of B E i d] by (simp add: direct_join_bad_link)
next
  case (Ok tok)
  note dec = Decode_shape [OF Ok]
  then have raw: "raw \<noteq> []" by auto
  let ?V = "Validate (en_C E) (HasNonce B) (SaveNonce B) (en_now E) tok raw (dm_store d)"
  let ?D = "Dial (en_X E) (cr_sha (en_C E)) (en_N E) (en_D E) (dm_id d) (cr_sha (en_C E) (t_PublicKey tok)) (t_Endpoints tok) (dm_listener d)"
  obtain v st c l where V: "?V = (v, st)" and D: "?D = (c, l)" by fastforce
  have "fst ?V \<noteq> Panic"
    by (rule Validate_no_panic) (simp_all add: dec SaveNonce_no_panic HasNonce_def)
  then have v: "v \<noteq> Panic" by (simp add: V)
  have c: "c \<noteq> Panic"
    using Dial_cases [OF assms(1,2), of "en_X E" "cr_sha (en_C E)" "dm_id d" "cr_sha (en_C E) (t_PublicKey tok)" "t_Endpoints tok" "dm_listener d"]
    by (auto simp: D)
  note run = handleJoin_def direct_join_def mustOpenCatalog_def Ok V dec raw assms(3,4)
  show ?thesis
  proof (cases v)
    case v': (Ok u)
    then show ?thesis
      using c by (cases c; cases "t_Endpoints tok = []") (auto simp: run D joined_def Let_def split_beta)
  qed (use v in \<open>auto simp: run\<close>)
qed (use Decode_no_panic in simp)

theorem direct_join_like_daemon_witness:
  "\<exists>(d :: ref_bucket daemon) raw. fst (direct_join ref_bolt ex_env (Ok (None, None)) (\<lambda>_. ex_chan []) (\<lambda>_. False) (\<lambda>_. 0) '':7'' (dm_id d) raw (dm_store d)) = Ok (arr_of [5])
     \<and> known ref_bolt (dm_store d) (arr_of [5]) = None"
proof -
  have "\<exists>ln. fst (Listen (en_X ex_env) (en_N ex_env) (en_now ex_env) (en_now ex_env) '':7'' \<lparr>id_PrivKey = replicate 64 0, id_PubKey = replicate 32 0, id_NodeID = arr_of [1]\<rparr>) = Ok ln"
    by (simp add: ex_env_def Listen_def ex_network_def ex_x509_def certFromIdentity_def GenerateSelfSignedCert_def ed25519_Public_def
        go_slice_from_def Let_def)
  then obtain ln where ln: "fst (Listen (en_X ex_env) (en_N ex_env) (en_now ex_env) (en_now ex_env) '':7'' \<lparr>id_PrivKey = replicate 64 0, id_PubKey = replicate 32 0, id_NodeID = arr_of [1]\<rparr>) = Ok ln"
    by blast
  define d where "d = ex_daemon\<lparr>dm_id := \<lparr>id_PrivKey = replicate 64 0, id_PubKey = replicate 32 0, id_NodeID = arr_of [1]\<rparr>, dm_listener := ln\<rparr>"
  have d: "dm_store d = ex_peers" by (simp add: d_def ex_daemon_def)
  obtain raw d' where j: "handleJoin ref_bolt ex_env 1 (Ok raw) d = (Ok (okResponse 1 (JoinResponse (hexNodeID (arr_of [5])))), d')"
    using ex_join [OF d] .
  have "tls_laws (en_N ex_env)" "quiet (en_N ex_env) (en_D ex_env)" using ex_network_laws by (simp_all add: ex_env_def)
  moreover have "fst (Listen (en_X ex_env) (en_N ex_env) (en_now ex_env) (en_now ex_env) '':7'' (dm_id d)) = Ok (dm_listener d)"
    using ln by (simp add: d_def)
  moreover have "Open ref_bolt (Ok (None, None)) (id_NodeID (dm_id d)) = Ok \<lparr>st_db = ([], []), st_selfID = id_NodeID (dm_id d)\<rparr>"
    by (simp add: Open_def create_buckets_def)
  ultimately have "fst (direct_join ref_bolt ex_env (Ok (None, None)) (\<lambda>_. ex_chan []) (\<lambda>_. False) (\<lambda>_. 0) '':7'' (dm_id d) raw (dm_store d)) = Ok (arr_of [5])"
    using direct_join_like_daemon [where d = d and i = 1 and raw = raw and B = ref_bolt and E = ex_env and chan_of = "\<lambda>_. ex_chan []"
        and ended = "\<lambda>_. False" and clk = "\<lambda>_. 0" and listenAddr = "'':7''" and catalogDb = "Ok (None, None)"] j
    by (auto simp: Let_def okResponse_def errResponse_def hexNodeID_def hex_encode_inj split: outcome.splits)
  moreover have "known ref_bolt (dm_store d) (arr_of [5]) = None" by (simp add: d known_def)
  ultimately show ?thesis by blast
qed

text \<open>The exchange in direct mode: acknowledgements are passed over, and the first offer is stored and acknowledged.\<close>

lemma receive_msgs_offer:
  "\<forall>k. \<not> ended k \<Longrightarrow>
   receive_msgs B ended clk peerID i (map CatalogAck acks @ CatalogOffer files # rest) cat c = handleReceivedOffer B clk peerID files cat (c\<lparr>ch_in := rest\<rparr>)"
  by (induction acks arbitrary: i) simp_all

text \<open>An offer that could not be stored is acknowledged all the same.\<close>

lemma unsaved_offer_acknowledged:
  "ch_room c = None \<Longrightarrow> ch_out (snd (handleReceivedOffer B clk peerID files cat c)) = ch_out c @ [CatalogAck (of_nat (length (Peer_Handler.accepted files)))]"
  by (simp add: handleReceivedOffer_def Let_def split_beta)

text \<open>Through the daemon the printed id is never cut out of a shorter text.\<close>

lemma cmdJoin_via_daemon:
  "json_laws J \<Longrightarrow>
   cmdJoin B J (Some \<lparr>dk_written = Ok (), dk_answer = Ok (okResponse i (JoinResponse (hexNodeID n)))\<rparr>) E rnd pdb cdb chan_of ended clk cfgDir raw addr fs =
     Ok (take 16 (hexNodeID n))"
  by (simp add: cmdJoin_def Client_Join_def callAndDecode_def ipc_call_def okResponse_def json_laws_def Let_def go_slice_def hexNodeID_def)

text \<open>Rotation keeps the newest logs: those that are removed come before all others.\<close>

lemma pruneOldLogs_keeps:
  assumes "length entries = keep + n"
  shows "mset (pruneOldLogs (Ok entries) keep) \<subseteq># mset entries \<and> length (pruneOldLogs (Ok entries) keep) = n \<and>
    (\<forall>old \<in> set (pruneOldLogs (Ok entries) keep). \<forall>new \<in># mset entries - mset (pruneOldLogs (Ok entries) keep). string_bytes old \<le> string_bytes new)"
proof -
  let ?s = "sort_key string_bytes entries"
  have split: "mset entries = mset (take n ?s) + mset (drop n ?s)"
    by (metis append_take_drop_id mset_append mset_sort)
  have p: "pruneOldLogs (Ok entries) keep = take n ?s"
    using assms by (simp add: pruneOldLogs_def)
  have "sorted_wrt (\<lambda>x y. string_bytes x \<le> string_bytes y) (take n ?s @ drop n ?s)"
    using sorted_sort_key [of string_bytes entries] by (simp add: sorted_map sorted_wrt_map)
  then have "\<forall>old \<in> set (take n ?s). \<forall>new \<in> set (drop n ?s). string_bytes old \<le> string_bytes new"
    unfolding sorted_wrt_append by blast
  then show ?thesis using assms unfolding p split by simp
qed

end
