(* ===== verification/Spec2Isabelle.thy ===== *)
theory Spec2Isabelle
  imports Store_Spec Relay_Cmd Sharing Message_Size Msg_Conn Control Cli
begin

text \<open>
  \<^bold>\<open>A model of kin.\<close> kin shares folders between the nodes a user trusts. A node has an Ed25519 identity; peers get to know each other
  by one-time invites, connect over QUIC directly or with the help of a relay, exchange catalogs of their files and fetch files by their
  SHA-256. A daemon runs all of this; a terminal interface and a command line control it over a Unix socket. This development
  models the Go program under \<open>src/\<close> and proves what makes its parts, and their composition, correct.

  \<^bold>\<open>Conventions.\<close> Each theory has the records and datatypes of its source files, one definition per function under the name it has
  there (a prefix where two packages share a name), then its lemmas, then the properties. A Go function returns an \<open>outcome\<close>: \<open>Ok\<close>, \<open>Err\<close> with
  an error value that \<open>errors.Is\<close> can be asked about, or \<open>Panic\<close>. State is passed and returned. Integers that can wrap are words; times are
  integers in nanoseconds; strings are byte strings. What another process, the operating system or the clock decides is an argument.
  Libraries are parameters with their documented behaviour as a named hypothesis: bbolt (locale \<open>bolt_laws\<close>), Ed25519 and SHA-256
  (\<open>crypto_laws\<close>), protobuf (\<open>pb_laws\<close>, and \<open>pb_encodes\<close> where the size of a message matters), \<open>encoding/json\<close> of the control socket (\<open>json_laws\<close>), QUIC and TLS (\<open>tls_laws\<close>, \<open>quiet\<close>), lipgloss and bubbles.
  Each hypothesis is shown to hold for a concrete instance, which the witnesses use.

  \<^bold>\<open>The theories.\<close>
  \<^item> \<open>Kin_Prelude\<close>: outcomes, byte arrays, big-endian, hexadecimal and decimal text, UTF-8 coercion, time; the locale \<open>guarded_steps\<close>,
    which gives an invariant and a relation along every run of steps and is interpreted for each step relation below. \<open>Go_Json\<close>: JSON values and
    their coding. \<open>Go_Fs\<close>: \<open>path/filepath\<close> and a file system whose calls may fail. \<open>Base64\<close>: the text of an invite.
  \<^item> \<open>Bolt_Bucket\<close>: bbolt, its laws and a reference bucket. \<open>Catalog\<close>, \<open>Catalog_Props\<close>, \<open>Catalog_Spec\<close>: \<open>internal/catalog\<close>. The store
    refines a table of entries by owner and file and a table of owners by file: what each operation does to the tables, that an owner of a live
    file is always found, that a new offer replaces the old one or leaves everything as it was.
  \<^item> \<open>Peerstore\<close>: \<open>internal/peerstore\<close>. A known key never changes, the store stays well-formed, a nonce is accepted once.
  \<^item> \<open>Store_Spec\<close>: both stores against an abstract specification. After any sequence of operations, some of which may fail, a store answers as
    plain tables do after the operations that succeeded; the locale \<open>transactional\<close> is the argument both share.
  \<^item> \<open>Kinpb\<close>, \<open>Proto_Wire\<close>, \<open>Wire\<close>: the messages of \<open>kinpb/kin.pb.go\<close> and the encoding of their fields, the framing of \<open>internal/protocol/framing.go\<close> and \<open>internal/daemon/framing.go\<close>
    (one contract, the locale \<open>frame_codec\<close>): streams of frames come back, oversized frames are refused before they are read.
  \<^item> \<open>Identity\<close>, \<open>Invite\<close>: \<open>internal/identity\<close>, \<open>internal/invite\<close>. Identities are stable, invites decode to what was signed and no text makes
    decoding panic. The locale \<open>nonce_store\<close> is what validation needs of a store.
  \<^item> \<open>File_Transfer\<close>, \<open>Download\<close>: \<open>internal/transfer\<close>, \<open>internal/download\<close>. A file that is reported as received has the requested hash,
    a failed one leaves nothing behind, sender and receiver together deliver the file, and a download finds an owner that can serve.
  \<^item> \<open>Message_Size\<close>: what fits into a frame. The messages of a transfer do; a catalog is offered in one message, which bounds its size.
  \<^item> \<open>Msg_Conn\<close>: the interface of a connection, locale \<open>msg_rw\<close>, with \<open>transport.Conn\<close> and \<open>testutil.MemConn\<close> as its providers: every program that
    sends and receives messages does over a provider what it does over the channel of messages; the sender is such a program.
  \<^item> \<open>Relay_Server\<close>, \<open>Relay_Client\<close>: \<open>internal/relay\<close>, with the critical sections of the two as steps that interleave. The registry has open
    connections only, the client never sends on a closed channel and delivers a rendezvous to those who asked for it. \<open>Relay_Cmd\<close>: \<open>cmd/relay\<close>,
    and the relay with any number of clients as one system. A rendezvous always introduces a registration the relay has taken up, and two registered
    nodes are brought together.
  \<^item> \<open>Transport\<close>, \<open>Connmgr\<close>: \<open>internal/transport\<close>, \<open>internal/nat\<close>, \<open>internal/connmgr\<close>. A connection implements the channel of messages
    that the other parts use, and whatever way \<open>Dial\<close> finds, the peer has proved the node id that was asked for.
  \<^item> \<open>Peer_Handler\<close>, \<open>Watcher\<close>: \<open>internal/protocol/handler.go\<close>, \<open>internal/watcher\<close>. Offers carry a catalog over, serving ends, broadcasts reach
    every peer; files are indexed and withdrawn, and no scheduled change is lost in the debouncer, however its timers interleave.
  \<^item> \<open>Sharing\<close>: watcher, handler, catalog and download of two nodes together. A file put into the folder of one arrives at the other.
  \<^item> \<open>Ipc\<close>, \<open>Daemon\<close>: \<open>internal/daemon\<close>, \<open>internal/ipc\<close>. Start-up, requests, the accept loop, served connections and the watcher are steps of
    one state; in every reachable one each request is answered. A join either changes nothing or ends in an authenticated peer.
  \<^item> \<open>Tui\<close>, \<open>Tui_View\<close>, \<open>Control\<close>: \<open>internal/tui\<close>. No sequence of messages makes the interface panic, and the file panel shows the catalog of the
    daemon; \<open>request_server\<close> is the interface between the two and \<open>running_daemon\<close> provides it.
  \<^item> \<open>Cli\<close>: \<open>cmd/kin\<close>, \<open>internal/config\<close>: flags, dispatch and commands. Joining without a daemon agrees with joining through it.
  \<^item> This theory: from an invite to a known peer, across two daemons.

  \<^bold>\<open>Loops and concurrency.\<close> No definition uses fuel. Loops over received messages, chunks, owners, endpoints or events recurse on the list of them, or
  have a measure (\<open>send_chunks\<close>, \<open>serve_loop\<close>, \<open>utf8_coerce\<close>, \<open>dec_fields\<close>); where the input has no end in the program (accept loops, the relay loop, the
  watcher), the model is one round, or the rounds over a list of inputs of any length. Code that holds a lock, or that runs in one
  goroutine between two communications, is one step; step relations interleave the goroutines in any order.

  \<^bold>\<open>Not modelled.\<close>
  \<^item> The reflection and registration code of \<open>kinpb/kin.pb.go\<close> is generated and calls into the protobuf runtime; the messages, getters and
    fields are modelled, the encoder is a parameter.
  \<^item> Usage texts and what the commands print around their results; a signal is the end of a context. Log records change no state and are left out;
    the set-up of the debug log and its rotation are modelled, the \<open>slog\<close> handler that writes to it is not.
  \<^item> Colours and borders (\<open>internal/tui/styles.go\<close>) are data for lipgloss. A style is its name.
  \<^item> Real time: timeouts and deadlines are inputs that say whether a context has ended; nothing is said about durations except the
    pauses of the relay loop and the delay of the debouncer.
  \<^item> The tests, and of \<open>testutil\<close> everything but the connection in memory.
\<close>

section \<open>From an invite to a known peer\<close>

lemma marshal_endpoints_short: "marshal_endpoints eps = Ok bs \<Longrightarrow> \<forall>ep \<in> set eps. length ep \<le> 65535"
  by (induction eps arbitrary: bs) (auto simp: outcome_simps split: if_splits)

lemma Encode_short:
  "Encode C t priv = Ok raw \<Longrightarrow> length (t_Endpoints t) \<le> 65535 \<and> (\<forall>ep \<in> set (t_Endpoints t). length ep \<le> 65535)"
  using marshal_endpoints_short by (auto simp: Encode_def marshalPayload_def outcome_simps split: if_splits)

lemma handleInvite_okE:
  assumes "handleInvite E i d = Ok (okResponse i (InviteResponse raw))"
  obtains nonce t where "en_nonce E = Ok nonce" "Create (id_PrivKey (dm_id d)) (invite_endpoints E (dm_relayAddr d)) DefaultTTL (Ok nonce) (en_now E) = Ok t"
    "Encode (en_C E) t (id_PrivKey (dm_id d)) = Ok raw"
proof (cases "en_nonce E")
  case (Ok nonce)
  with assms that show thesis
    by (auto simp: handleInvite_def okResponse_def errResponse_def split: outcome.splits)
qed (use assms in \<open>auto simp: handleInvite_def Create_def okResponse_def errResponse_def Let_def\<close>)

lemma joined_known:
  assumes "bolt_laws B" and "peers_inv B (dm_store d)" and "\<forall>db. bkt_commit B db" and "json_time_ok (en_seen E)"
    and "\<forall>q. known B (dm_store d) (Conn_PeerID c) = Some q \<longrightarrow> p_PublicKey q = t_PublicKey tok"
  shows "\<exists>q. known B (dm_store (snd (joined B E i tok c d))) (Conn_PeerID c) = Some q \<and> p_PublicKey q = t_PublicKey tok
    \<and> to_utf8 ` set (t_Endpoints tok) \<subseteq> set (p_Endpoints q)"
proof -
  let ?p = "\<lparr>p_NodeID = Conn_PeerID c, p_PublicKey = t_PublicKey tok, p_Endpoints = t_Endpoints tok, p_TrustState = TrustTOFU, p_LastSeen = zero_time\<rparr>"
  have j: "dm_store (snd (joined B E i tok c d)) = snd (PutPeer B (en_seen E) (dm_store d) ?p)"
    by (simp add: joined_def Let_def split_beta)
  have "fst (PutPeer B (en_seen E) (dm_store d) ?p) = Ok ()"
    using assms by (intro bolt_laws.PutPeer_succeeds) auto
  with assms(1,2) show ?thesis unfolding j
    by (cases rule: bolt_laws.PutPeer_effect [where now = "en_seen E" and p = ?p, consumes 2])
      (auto simp: put_result_def mergeEndpoints_def stored_peer_def split: option.splits)
qed

lemma fromSeed_fields:
  assumes "crypto_laws C" and "length seed = 32" and "fromSeed C seed = Ok ident"
  shows "id_NodeID ident = cr_sha C (id_PubKey ident) \<and> length (id_PubKey ident) = 32"
proof -
  have "ident = \<lparr>id_PrivKey = seed @ cr_pub C seed, id_PubKey = cr_pub C seed, id_NodeID = cr_sha C (cr_pub C seed)\<rparr>"
    using assms(3) fromSeed_ok [OF assms(1,2)] by simp
  then show ?thesis using assms(1,2) by (simp add: crypto_laws_def)
qed

lemma invite_link_valid:
  assumes "bolt_laws B" and "crypto_laws C" and "en_C E = C" and "length seed = 32" and "fromSeed C seed = Ok (dm_id issuer)"
    and "handleInvite E i issuer = Ok (okResponse i (InviteResponse raw))" and "now \<le> from_unix (unix (en_now E + DefaultTTL))"
    and "\<forall>nonce. en_nonce E = Ok nonce \<longrightarrow> HasNonce B s nonce = Ok False" and "\<forall>db. bkt_commit B db"
  obtains t st where "Decode raw = Ok t" "t_PublicKey t = id_PubKey (dm_id issuer)" "t_Endpoints t = invite_endpoints E (dm_relayAddr issuer)"
    "Validate C (HasNonce B) (SaveNonce B) now t raw s = (Ok (), st)"
proof -
  let ?eps = "invite_endpoints E (dm_relayAddr issuer)" and ?pub = "cr_pub C seed"
  have ident: "dm_id issuer = \<lparr>id_PrivKey = seed @ ?pub, id_PubKey = ?pub, id_NodeID = cr_sha C ?pub\<rparr>"
    using assms(5) fromSeed_ok [OF assms(2,4)] by simp
  have pub: "length ?pub = 32" using assms(2,4) by (auto simp: crypto_laws_def)
  from assms(6) obtain nonce t where n: "en_nonce E = Ok nonce" and t: "Create (seed @ ?pub) ?eps DefaultTTL (Ok nonce) (en_now E) = Ok t"
    and enc: "Encode C t (seed @ ?pub) = Ok raw"
    by (rule handleInvite_okE) (auto simp: ident assms(3))
  have tf: "t = \<lparr>t_PublicKey = ?pub, t_Endpoints = ?eps, t_Nonce = nonce, t_ExpiresAt = en_now E + DefaultTTL\<rparr>"
    using t pub assms(4) by (simp add: Create_ok DefaultTTL_def)
  have new: "HasNonce B s nonce = Ok False" using assms(8) n by blast
  obtain st where save: "SaveNonce B s nonce = (Ok (), st)"
    using bolt_laws.SaveNonce_ok [OF assms(1)] assms(9) by (metis prod.collapse)
  have eps: "length ?eps \<le> 65535" "\<forall>ep \<in> set ?eps. length ep \<le> 65535" using Encode_short [OF enc] by (simp_all add: tf)
  have now: "now \<le> from_unix (unix (t_ExpiresAt t))" using assms(7) by (simp add: tf)
  from invite_valid [where has = "HasNonce B" and save = "SaveNonce B", OF assms(2,4) t eps new save now] enc
  show thesis by (intro that [of "t\<lparr>t_ExpiresAt := from_unix (unix (t_ExpiresAt t))\<rparr>" st]) (auto simp: tf ident)
qed

text \<open>
  C12. An invite leads to its issuer. A link that one daemon has answered to \<open>invite\<close> is accepted by another one up to its expiry when
  its nonce is new there and the network leads to some connection: the answer names the issuer's node id, and the
  issuer is then a known peer, with the public key of its identity and at least the endpoints of the invite.
\<close>

theorem invited_peer_is_known:
  assumes "bolt_laws B" and "crypto_laws C" and "tls_laws (en_N E')" and "quiet (en_N E') (en_D E')"
    and "en_C E = C" and "en_C E' = C" and "length seed = 32" and "fromSeed C seed = Ok (dm_id issuer)"
    and "handleInvite E i issuer = Ok (okResponse i (InviteResponse raw))"
    and "en_now E' \<le> from_unix (unix (en_now E + DefaultTTL))" and "invite_endpoints E (dm_relayAddr issuer) \<noteq> []"
    and "peers_reach B (dm_store d)" and "\<forall>nonce. en_nonce E = Ok nonce \<longrightarrow> HasNonce B (dm_store d) nonce = Ok False"
    and "\<forall>db. bkt_commit B db" and "json_time_ok (en_seen E')"
    and "is_ok (fst (Dial (en_X E') (cr_sha C) (en_N E') (en_D E') (dm_id d) (id_NodeID (dm_id issuer)) (invite_endpoints E (dm_relayAddr issuer)) (dm_listener d)))"
    and "\<forall>q. known B (dm_store d) (id_NodeID (dm_id issuer)) = Some q \<longrightarrow> p_PublicKey q = id_PubKey (dm_id issuer)"
  shows "\<exists>d' q. handleJoin B E' j (Ok raw) d = (Ok (okResponse j (JoinResponse (NodeIDHex (dm_id issuer)))), d')
    \<and> known B (dm_store d') (id_NodeID (dm_id issuer)) = Some q \<and> p_PublicKey q = id_PubKey (dm_id issuer)
    \<and> to_utf8 ` set (invite_endpoints E (dm_relayAddr issuer)) \<subseteq> set (p_Endpoints q)"
proof -
  let ?eps = "invite_endpoints E (dm_relayAddr issuer)" and ?n = "id_NodeID (dm_id issuer)"
  have n: "?n = cr_sha C (id_PubKey (dm_id issuer))" and pub: "length (id_PubKey (dm_id issuer)) = 32"
    using fromSeed_fields [OF assms(2,7,8)] by simp_all
  obtain t st where t: "Decode raw = Ok t" "t_PublicKey t = id_PubKey (dm_id issuer)" "t_Endpoints t = ?eps"
    and val: "Validate C (HasNonce B) (SaveNonce B) (en_now E') t raw (dm_store d) = (Ok (), st)"
    using invite_link_valid [OF assms(1,2,5,7,8,9,10,13,14)] .
  let ?D = "Dial (en_X E') (cr_sha C) (en_N E') (en_D E') (dm_id d) ?n ?eps (dm_listener d)"
  obtain c l where D: "?D = (Ok c, l)"
    using assms(16) by (cases ?D; cases "fst ?D") auto
  have c: "Conn_PeerID c = ?n"
    using Dial_cases [OF assms(3,4), of "en_X E'" "cr_sha C" "dm_id d" ?n ?eps "dm_listener d"] by (auto simp: D)
  let ?d = "d\<lparr>dm_store := st, dm_listener := l\<rparr>"
  have "raw \<noteq> []" using Decode_shape [OF t(1)] by auto
  then have run: "handleJoin B E' j (Ok raw) d = joined B E' j t c ?d"
    using assms(11) pub by (simp add: handleJoin_def t val assms(6) D flip: n)
  have st: "peers_inv B st" "known B st = known B (dm_store d)"
    using bolt_laws.same_peers [OF assms(1) Validate_same_peers [OF assms(1) val]] bolt_laws.peers_reach_inv [OF assms(1,12)] by simp_all
  obtain q where q: "known B (dm_store (snd (joined B E' j t c ?d))) ?n = Some q" "p_PublicKey q = id_PubKey (dm_id issuer)"
    "to_utf8 ` set ?eps \<subseteq> set (p_Endpoints q)"
    using joined_known [OF assms(1) _ assms(14,15), of ?d c t j] st assms(17) by (auto simp: c t)
  have "handleJoin B E' j (Ok raw) d = (Ok (okResponse j (JoinResponse (NodeIDHex (dm_id issuer)))), snd (joined B E' j t c ?d))"
    unfolding run by (simp add: joined_def Let_def split_beta c hexNodeID_def NodeIDHex_def)
  with q show ?thesis by blast
qed

text \<open>The issuer of the example invites; its address is the one that the example network reaches.\<close>

abbreviation ex_seed :: bytes where
  "ex_seed \<equiv> 4 # replicate 31 255"

definition ex_issuer :: "ref_bucket daemon" where
  "ex_issuer = ex_daemon\<lparr>dm_id := \<lparr>id_PrivKey = ex_seed @ (5 # replicate 31 0), id_PubKey = 5 # replicate 31 0, id_NodeID = arr_of [5]\<rparr>\<rparr>"

definition ex_issuer_env :: daemon_env where
  "ex_issuer_env = ex_env\<lparr>en_addr := ''h:1'', en_unspecified := (\<lambda>_. Some False)\<rparr>"

lemma ex_issuer_id: "fromSeed ex_crypto ex_seed = Ok (dm_id ex_issuer)"
proof -
  have "cr_pub ex_crypto ex_seed = 5 # replicate 31 0" by (simp add: ex_crypto_def)
  then show ?thesis using fromSeed_ok [OF ex_crypto_laws, of ex_seed] ex_sha_key by (simp add: ex_issuer_def)
qed

lemma ex_issuer_endpoints: "invite_endpoints ex_issuer_env (dm_relayAddr ex_issuer) = [''h:1'']"
proof -
  have "SplitHostPort ''h:1'' = Some (''h'', ''1'')" by code_simp
  then show ?thesis
    by (simp add: invite_endpoints_def isRoutableListenAddr_def ex_issuer_env_def ex_issuer_def ex_daemon_def)
qed

lemma ex_issued: "\<exists>raw. handleInvite ex_issuer_env 1 ex_issuer = Ok (okResponse 1 (InviteResponse raw))"
proof -
  have c: "Create (ex_seed @ (5 # replicate 31 0)) [''h:1''] DefaultTTL (Ok (arr_of [3])) 0 =
      Ok \<lparr>t_PublicKey = 5 # replicate 31 0, t_Endpoints = [''h:1''], t_Nonce = arr_of [3], t_ExpiresAt = DefaultTTL\<rparr>"
    by (subst Create_ok) (simp_all add: DefaultTTL_def)
  show ?thesis
    using c ex_issuer_endpoints
    by (auto simp: handleInvite_def ex_issuer_def ex_issuer_env_def ex_env_def Encode_def marshalPayload_def ed25519_Sign_def)
qed

theorem invited_peer_is_known_witness:
  "\<exists>raw d' q. handleInvite ex_issuer_env 1 ex_issuer = Ok (okResponse 1 (InviteResponse raw)) \<and>
     handleJoin ref_bolt ex_env 2 (Ok raw) ex_daemon = (Ok (okResponse 2 (JoinResponse (NodeIDHex (dm_id ex_issuer)))), d') \<and>
     known ref_bolt (dm_store d') (arr_of [5]) = Some q \<and> p_PublicKey q = 5 # replicate 31 0"
proof -
  obtain raw where raw: "handleInvite ex_issuer_env 1 ex_issuer = Ok (okResponse 1 (InviteResponse raw))" using ex_issued by blast
  have env: "en_C ex_issuer_env = ex_crypto" "en_C ex_env = ex_crypto" "en_X ex_env = ex_x509" "en_N ex_env = ex_network" "en_D ex_env = ex_dial_env"
    "en_now ex_env = 0" "en_now ex_issuer_env = 0" "en_seen ex_env = 0"
    by (simp_all add: ex_issuer_env_def ex_env_def)
  have st: "dm_store ex_daemon = ex_peers" by (simp add: ex_daemon_def)
  have n: "id_NodeID (dm_id ex_issuer) = arr_of [5]" "id_PubKey (dm_id ex_issuer) = 5 # replicate 31 0" by (simp_all add: ex_issuer_def)
  have time: "json_time_ok 0" "0 \<le> from_unix (unix (0 + DefaultTTL))"
    by (simp_all add: json_time_ok_def time_min_def time_max_def from_unix_unix DefaultTTL_def)
  have reach: "is_ok (fst (Dial ex_x509 (cr_sha ex_crypto) ex_network ex_dial_env (dm_id ex_daemon) (arr_of [5]) [''h:1''] (dm_listener ex_daemon)))"
    using ex_reaches [of "dm_id ex_daemon" "dm_listener ex_daemon"] by auto
  have "\<exists>d' q. handleJoin ref_bolt ex_env 2 (Ok raw) ex_daemon = (Ok (okResponse 2 (JoinResponse (NodeIDHex (dm_id ex_issuer)))), d')
      \<and> known ref_bolt (dm_store d') (id_NodeID (dm_id ex_issuer)) = Some q \<and> p_PublicKey q = id_PubKey (dm_id ex_issuer)
      \<and> to_utf8 ` set (invite_endpoints ex_issuer_env (dm_relayAddr ex_issuer)) \<subseteq> set (p_Endpoints q)"
    by (rule invited_peer_is_known [OF ref.bolt_laws_axioms ex_crypto_laws _ _ _ _ _ ex_issuer_id raw])
      (use ex_network_laws ex_peers_reach reach time in \<open>simp_all add: env st n ex_issuer_endpoints HasNonce_def known_def\<close>)
  with raw show ?thesis by (auto simp: n)
qed

end
